(* ===== verification/Go_Prelude.thy ===== *)
theory Go_Prelude
  imports Main "HOL-Library.Word"
begin

text \<open>
  Shared vocabulary of the development: the machine types of the Go sources, Go errors and
  panics as values, readers over byte slices, and the big-endian and little-endian byte
  encodings of the packages \<open>encoding/binary\<close> and \<open>math/big\<close>, with the facts about
  them that the component theories use.
\<close>

section \<open>Machine types\<close>

text \<open>
  \<open>uint8\<close> and \<open>uint64\<close> wrap around. An address is an array of 20 bytes and a hash an
  array of 32 bytes; both are kept as words of that width.
\<close>

type_synonym u8 = "8 word"
type_synonym u16 = "16 word"
type_synonym u32 = "32 word"
type_synonym u64 = "64 word"
type_synonym bytes = "u8 list"
type_synonym addr = "160 word"
type_synonym hash = "256 word"

section \<open>Errors and panics\<close>

text \<open>
  \<open>GoErr msg\<close> is an error value made by \<open>errors.New\<close> (or returned by a library) and
  identified by its message. \<open>GoWrap pre e\<close> is \<open>fmt.Errorf("pre: %w", e)\<close>, which
  \<open>errors.Is\<close> looks through.
\<close>

datatype go_error = GoErr string | GoWrap string go_error

fun errorsIs :: "go_error \<Rightarrow> go_error \<Rightarrow> bool" where
  "errorsIs (GoErr m) t = (GoErr m = t)"
| "errorsIs (GoWrap p e) t = (GoWrap p e = t \<or> errorsIs e t)"

fun errorText :: "go_error \<Rightarrow> string" where
  "errorText (GoErr m) = m"
| "errorText (GoWrap p e) = p @ '': '' @ errorText e"

text \<open>The outcome of a call: it returned a value, returned an error, or panicked.\<close>

datatype 'a res = Ok 'a | Err go_error | Panic string

fun res_bind :: "'a res \<Rightarrow> ('a \<Rightarrow> 'b res) \<Rightarrow> 'b res" where
  "res_bind (Ok x) f = f x"
| "res_bind (Err e) f = Err e"
| "res_bind (Panic s) f = Panic s"

fun res_map :: "('a \<Rightarrow> 'b) \<Rightarrow> 'a res \<Rightarrow> 'b res" where
  "res_map f (Ok x) = Ok (f x)"
| "res_map f (Err e) = Err e"
| "res_map f (Panic s) = Panic s"

text \<open>\<open>if err != nil { return fmt.Errorf("pre: %w", err) }\<close>\<close>

fun res_wrap :: "string \<Rightarrow> 'a res \<Rightarrow> 'a res" where
  "res_wrap p (Ok x) = Ok x"
| "res_wrap p (Err e) = Err (GoWrap p e)"
| "res_wrap p (Panic s) = Panic s"

lemma res_bind_eq_Ok: "res_bind r f = Ok y \<longleftrightarrow> (\<exists>x. r = Ok x \<and> f x = Ok y)"
  by (cases r) auto

lemma res_map_eq_Ok: "res_map f r = Ok y \<longleftrightarrow> (\<exists>x. r = Ok x \<and> y = f x)"
  by (cases r) auto

lemma res_wrap_eq_Ok [simp]: "res_wrap p r = Ok y \<longleftrightarrow> r = Ok y"
  by (cases r) auto

lemma errorsIs_refl [simp]: "errorsIs e e"
  by (cases e) auto

lemma errorsIs_GoWrap: "errorsIs e t \<Longrightarrow> errorsIs (GoWrap p e) t"
  by simp

text \<open>The decimal digits of a number, as \<open>%d\<close> prints them.\<close>

fun showNat :: "nat \<Rightarrow> string" where
  "showNat n =
     (if n < 10 then [char_of (48 + n)] else showNat (n div 10) @ [char_of (48 + n mod 10)])"

declare showNat.simps [simp del]

section \<open>Readers\<close>

text \<open>
  An \<open>io.Reader\<close> over a byte slice (\<open>bytes.Reader\<close>, \<open>bytes.Buffer\<close>) is the list of
  the bytes that are left. \<open>readFull\<close> is \<open>io.ReadFull\<close> on a buffer of \<open>n\<close> bytes;
  \<open>readSome\<close> is a plain \<open>Read\<close>, which may return fewer bytes than asked for without
  an error.
\<close>

definition EOF :: go_error where
  "EOF = GoErr ''EOF''"

definition ErrUnexpectedEOF :: go_error where
  "ErrUnexpectedEOF = GoErr ''unexpected EOF''"

definition readFull :: "nat \<Rightarrow> bytes \<Rightarrow> (bytes \<times> bytes) res" where
  "readFull n r =
     (if n = 0 then Ok ([], r)
      else if r = [] then Err EOF
      else if length r < n then Err ErrUnexpectedEOF
      else Ok (take n r, drop n r))"

definition readSome :: "nat \<Rightarrow> bytes \<Rightarrow> (bytes \<times> bytes) res" where
  "readSome n r =
     (if n = 0 then Ok ([], r)
      else if r = [] then Err EOF
      else Ok (take n r, drop n r))"

named_theorems reader_simps \<open>reading back what was written\<close>

lemma EOF_neq_UnexpectedEOF [simp]:
  "EOF \<noteq> ErrUnexpectedEOF" "ErrUnexpectedEOF \<noteq> EOF"
  by (simp_all add: EOF_def ErrUnexpectedEOF_def)

lemma readFull_append [reader_simps]: "length xs = n \<Longrightarrow> readFull n (xs @ ys) = Ok (xs, ys)"
  by (auto simp: readFull_def)

lemma readFull_Ok: "readFull n r = Ok (xs, ys) \<Longrightarrow> r = xs @ ys \<and> length xs = n"
  by (auto simp: readFull_def split: if_splits)

lemma readFull_Nil: "0 < n \<Longrightarrow> readFull n [] = Err EOF"
  by (simp add: readFull_def)

lemma readFull_not_Panic [simp]: "readFull n r \<noteq> Panic s"
  by (simp add: readFull_def)

lemma readSome_append [reader_simps]: "length xs = n \<Longrightarrow> readSome n (xs @ ys) = Ok (xs, ys)"
  by (auto simp: readSome_def)

section \<open>Byte encodings of unsigned integers\<close>

text \<open>
  \<open>be_val\<close> is \<open>big.Int.SetBytes\<close> and \<open>BigEndian.Uint64\<close>; \<open>be_bytes n\<close> is the
  \<open>n\<close>-byte big-endian encoding; \<open>min_be\<close> is \<open>big.Int.Bytes\<close>, which has no leading
  zero byte. \<open>le_val\<close> and \<open>le_bytes\<close> are the little-endian ones.
\<close>

definition be_val :: "bytes \<Rightarrow> nat" where
  "be_val bs = foldl (\<lambda>a b. a * 256 + unat b) 0 bs"

fun be_bytes :: "nat \<Rightarrow> nat \<Rightarrow> bytes" where
  "be_bytes 0 v = []"
| "be_bytes (Suc n) v = be_bytes n (v div 256) @ [of_nat v]"

fun min_be :: "nat \<Rightarrow> bytes" where
  "min_be v = (if v = 0 then [] else min_be (v div 256) @ [of_nat v])"

declare min_be.simps [simp del]

fun le_val :: "bytes \<Rightarrow> nat" where
  "le_val [] = 0"
| "le_val (b # bs) = unat b + 256 * le_val bs"

fun le_bytes :: "nat \<Rightarrow> nat \<Rightarrow> bytes" where
  "le_bytes 0 v = []"
| "le_bytes (Suc n) v = of_nat v # le_bytes n (v div 256)"

named_theorems byte_simps \<open>values and lengths of encoded integers\<close>

lemma unat_of_nat_u8 [byte_simps]: "unat (of_nat v :: u8) = v mod 256"
  by (simp add: unat_of_nat)

lemma unat_u8_less: "unat (b :: u8) < 256"
  using unsigned_less [of b] by simp

lemma of_nat_u8_snoc: "(of_nat (v * 256 + unat b) :: u8) = b"
proof -
  have "unat (of_nat (v * 256 + unat b) :: u8) = unat b"
    using unat_u8_less [of b] by (simp only: unat_of_nat_u8) simp
  then show ?thesis by (simp only: word_unat_eq_iff)
qed

lemma be_val_Nil [simp]: "be_val [] = 0"
  by (simp add: be_val_def)

lemma be_val_snoc [simp]: "be_val (bs @ [b]) = be_val bs * 256 + unat b"
  by (simp add: be_val_def)

lemma be_val_append: "be_val (xs @ ys) = be_val xs * 256 ^ length ys + be_val ys"
proof (induction ys rule: rev_induct)
  case Nil
  show ?case by simp
next
  case (snoc y ys)
  then show ?case
    by (simp flip: append_assoc add: algebra_simps)
qed

lemma be_val_Cons: "be_val (b # bs) = unat b * 256 ^ length bs + be_val bs"
  using be_val_append [of "[b]" bs] by (simp add: be_val_def)

lemma be_val_less: "be_val bs < 256 ^ length bs"
proof (induction bs rule: rev_induct)
  case Nil
  show ?case by simp
next
  case (snoc b bs)
  have "be_val bs * 256 + unat b < be_val bs * 256 + 256"
    using unat_u8_less [of b] by simp
  also have "\<dots> \<le> 256 ^ length bs * 256"
    using snoc.IH by (metis Suc_leI add.commute mult.commute mult_Suc_right mult_le_mono2)
  finally show ?case by (simp add: mult.commute)
qed

lemma length_be_bytes [simp]: "length (be_bytes n v) = n"
  by (induction n arbitrary: v) auto

lemma be_val_be_bytes [byte_simps]: "be_val (be_bytes n v) = v mod 256 ^ n"
proof (induction n arbitrary: v)
  case 0
  show ?case by simp
next
  case (Suc n)
  have "v mod (256 * 256 ^ n) = v div 256 mod 256 ^ n * 256 + v mod 256"
    by (simp add: mod_mult2_eq mult.commute)
  with Suc show ?case by (simp add: byte_simps)
qed

lemma be_bytes_be_val [byte_simps]: "be_bytes (length bs) (be_val bs) = bs"
proof (induction bs rule: rev_induct)
  case Nil
  show ?case by simp
next
  case (snoc b bs)
  have "(be_val bs * 256 + unat b) div 256 = be_val bs"
    using unat_u8_less [of b] by simp
  with snoc show ?case
    by (simp del: of_nat_add of_nat_mult add: of_nat_u8_snoc)
qed

lemma be_val_min_be [byte_simps]: "be_val (min_be v) = v"
proof (induction v rule: min_be.induct)
  case (1 v)
  then show ?case
    by (cases "v = 0") (simp_all add: min_be.simps [of 0] min_be.simps [of v] byte_simps)
qed

lemma min_be_0 [simp]: "min_be 0 = []"
  by (simp add: min_be.simps)

lemma min_be_eq_Nil [simp]: "min_be v = [] \<longleftrightarrow> v = 0"
  by (simp add: min_be.simps [of v])

lemma min_be_hd: "0 < v \<Longrightarrow> hd (min_be v) \<noteq> 0"
proof (induction v rule: min_be.induct)
  case (1 v)
  show ?case
  proof (cases "v div 256 = 0")
    case True
    with 1 have "v < 256" "0 < v" by simp_all
    then have "(of_nat v :: u8) \<noteq> 0"
      by (simp add: word_unat_eq_iff byte_simps)
    with True 1 show ?thesis by (simp add: min_be.simps [of v])
  next
    case False
    with 1 have "hd (min_be (v div 256)) \<noteq> 0" by simp
    with False 1 show ?thesis by (simp add: min_be.simps [of v])
  qed
qed

lemma min_be_not_null [simp]: "min_be v \<noteq> [0]"
  using min_be_hd [of v] by (cases "v = 0") auto

lemma length_min_be: "v < 256 ^ n \<Longrightarrow> length (min_be v) \<le> n"
proof (induction n arbitrary: v)
  case 0
  then show ?case by simp
next
  case (Suc n)
  then have "v div 256 < 256 ^ n" by (simp add: div_less_iff_less_mult mult.commute)
  with Suc.IH show ?case by (simp add: min_be.simps [of v])
qed

lemma min_be_be_val: "bs \<noteq> [] \<Longrightarrow> hd bs \<noteq> 0 \<Longrightarrow> min_be (be_val bs) = bs"
proof (induction bs rule: rev_induct)
  case Nil
  then show ?case by simp
next
  case (snoc b bs)
  have div: "(be_val bs * 256 + unat b) div 256 = be_val bs"
    using unat_u8_less [of b] by simp
  show ?case
  proof (cases "bs = []")
    case True
    with snoc.prems have "unat b \<noteq> 0" by (simp add: unat_eq_0)
    moreover have "unat b div 256 = 0" using unat_u8_less [of b] by simp
    ultimately show ?thesis
      using True by (simp add: be_val_def min_be.simps [of "unat b"])
  next
    case False
    with snoc have IH: "min_be (be_val bs) = bs" by simp
    with False have "be_val bs \<noteq> 0" by (metis min_be_0)
    with IH div show ?thesis
      by (simp del: of_nat_add of_nat_mult
          add: min_be.simps [of "be_val bs * 256 + unat b"] of_nat_u8_snoc)
  qed
qed

lemma length_le_bytes [simp]: "length (le_bytes n v) = n"
  by (induction n arbitrary: v) auto

lemma le_val_le_bytes [byte_simps]: "le_val (le_bytes n v) = v mod 256 ^ n"
proof (induction n arbitrary: v)
  case 0
  show ?case by simp
next
  case (Suc n)
  then show ?case by (simp add: mod_mult2_eq byte_simps)
qed

lemma unat_u16_less: "unat (w :: u16) < 65536"
  using unsigned_less [of w, where 'a = nat] by simp

lemma unat_u32_less: "unat (w :: u32) < 4294967296"
  using unsigned_less [of w, where 'a = nat] by simp

lemma unat_u64_less: "unat (w :: u64) < 18446744073709551616"
  using unsigned_less [of w, where 'a = nat] by simp

lemma unat_ucast_u8 [byte_simps]: "unat (ucast (w :: u64) :: u8) = unat w mod 256"
  by (simp add: unsigned_ucast_eq take_bit_eq_mod)

lemma unat_ucast_u16 [byte_simps]: "unat (ucast (w :: u64) :: u16) = unat w mod 65536"
  by (simp add: unsigned_ucast_eq take_bit_eq_mod)

lemma unat_ucast_u32 [byte_simps]: "unat (ucast (w :: u64) :: u32) = unat w mod 4294967296"
  by (simp add: unsigned_ucast_eq take_bit_eq_mod)

lemma unat_ucast_u64 [byte_simps]:
  "unat (ucast (a :: u8) :: u64) = unat a"
  "unat (ucast (b :: u16) :: u64) = unat b"
  "unat (ucast (c :: u32) :: u64) = unat c"
  using unat_u8_less [of a] unat_u16_less [of b] unat_u32_less [of c]
  by (simp_all add: unsigned_ucast_eq take_bit_eq_mod)

lemma unat_u64_bound: "unat (w :: u64) < 256 ^ 8"
  using unsigned_less [of w] by simp

lemma unat_of_nat_u64: "v < 2 ^ 64 \<Longrightarrow> unat (of_nat v :: u64) = v"
  by (simp add: unat_of_nat)

lemma unat_addr_bound: "unat (a :: addr) < 256 ^ 20"
  using unsigned_less [of a] by simp

section \<open>Codecs\<close>

text \<open>
  The contract of an encoder and a decoder that reads one value from the front of a stream:
  what was encoded is read back and the rest of the stream is left. A canonical codec in
  addition accepts nothing but the encoder's output.
\<close>

locale prefix_codec =
  fixes enc :: "'a \<Rightarrow> bytes"
    and dec :: "bytes \<Rightarrow> ('a \<times> bytes) res"
    and valid :: "'a \<Rightarrow> bool"
  assumes dec_enc: "valid x \<Longrightarrow> dec (enc x @ r) = Ok (x, r)"
begin

lemma enc_prefix_free:
  assumes "valid x" and "valid y" and "enc x @ r = enc y @ s"
  shows "x = y \<and> r = s"
proof -
  have "Ok (x, r) = dec (enc x @ r)" by (rule dec_enc [OF assms(1), symmetric])
  also have "\<dots> = dec (enc y @ s)" by (rule arg_cong [OF assms(3)])
  also have "\<dots> = Ok (y, s)" by (rule dec_enc [OF assms(2)])
  finally show ?thesis by simp
qed

lemma dec_enc_Nil: "valid x \<Longrightarrow> dec (enc x) = Ok (x, [])"
  using dec_enc [of x "[]"] by simp

end

locale canonical_codec = prefix_codec +
  assumes enc_dec: "dec r = Ok (x, r') \<Longrightarrow> valid x \<and> r = enc x @ r'"
begin

lemma dec_iff: "dec r = Ok (x, r') \<longleftrightarrow> valid x \<and> r = enc x @ r'"
proof
  assume "dec r = Ok (x, r')"
  then show "valid x \<and> r = enc x @ r'" by (rule enc_dec)
next
  assume "valid x \<and> r = enc x @ r'"
  then show "dec r = Ok (x, r')" using dec_enc [of x r'] by simp
qed

end

end
