(* ===== verification/VarBytes.thy ===== *)
theory VarBytes
  imports Go_Prelude
begin

unbundle bit_operations_syntax

text \<open>
  Variable-length integers, byte arrays and strings: \<open>l2geth/common/varbytes.go\<close>. A writer
  is the list of bytes it appends (\<open>bytes.Buffer\<close> never fails); a reader is the list of
  the bytes left. The free list of buffers only saves allocations and is not modelled.
\<close>

section \<open>Fixed-width integers\<close>

datatype byteOrder = LittleEndian | BigEndian

fun order_val :: "byteOrder \<Rightarrow> bytes \<Rightarrow> nat" where
  "order_val LittleEndian bs = le_val bs"
| "order_val BigEndian bs = be_val bs"

fun order_bytes :: "byteOrder \<Rightarrow> nat \<Rightarrow> nat \<Rightarrow> bytes" where
  "order_bytes LittleEndian n v = le_bytes n v"
| "order_bytes BigEndian n v = be_bytes n v"

definition Uint8 :: "bytes \<Rightarrow> (u8 \<times> bytes) res" where
  "Uint8 r = res_map (\<lambda>(buf, r'). (buf ! 0, r')) (readFull 1 r)"

definition Uint16 :: "byteOrder \<Rightarrow> bytes \<Rightarrow> (u16 \<times> bytes) res" where
  "Uint16 bo r = res_map (\<lambda>(buf, r'). (of_nat (order_val bo buf), r')) (readFull 2 r)"

definition Uint32 :: "byteOrder \<Rightarrow> bytes \<Rightarrow> (u32 \<times> bytes) res" where
  "Uint32 bo r = res_map (\<lambda>(buf, r'). (of_nat (order_val bo buf), r')) (readFull 4 r)"

definition Uint64 :: "byteOrder \<Rightarrow> bytes \<Rightarrow> (u64 \<times> bytes) res" where
  "Uint64 bo r = res_map (\<lambda>(buf, r'). (of_nat (order_val bo buf), r')) (readFull 8 r)"

definition PutUint8 :: "u8 \<Rightarrow> bytes" where
  "PutUint8 v = [v]"

definition PutUint16 :: "byteOrder \<Rightarrow> u16 \<Rightarrow> bytes" where
  "PutUint16 bo v = order_bytes bo 2 (unat v)"

definition PutUint32 :: "byteOrder \<Rightarrow> u32 \<Rightarrow> bytes" where
  "PutUint32 bo v = order_bytes bo 4 (unat v)"

definition PutUint64 :: "byteOrder \<Rightarrow> u64 \<Rightarrow> bytes" where
  "PutUint64 bo v = order_bytes bo 8 (unat v)"

section \<open>Variable-length integers\<close>

definition messageError :: "string \<Rightarrow> string \<Rightarrow> go_error" where
  "messageError f desc = GoErr (f @ '': '' @ desc)"

definition errNonCanonicalVarInt :: string where
  "errNonCanonicalVarInt = ''non-canonical varint''"

definition ReadVarInt :: "bytes \<Rightarrow> (u64 \<times> bytes) res" where
  "ReadVarInt r =
     res_bind (Uint8 r) (\<lambda>(discriminant, r1).
       if discriminant = 0xff then
         res_bind (Uint64 LittleEndian r1) (\<lambda>(rv, r2).
           if rv < 0x100000000 then Err (messageError ''ReadVarInt'' errNonCanonicalVarInt)
           else Ok (rv, r2))
       else if discriminant = 0xfe then
         res_bind (Uint32 LittleEndian r1) (\<lambda>(sv, r2).
           let rv = ucast sv in
           if rv < 0x10000 then Err (messageError ''ReadVarInt'' errNonCanonicalVarInt)
           else Ok (rv, r2))
       else if discriminant = 0xfd then
         res_bind (Uint16 LittleEndian r1) (\<lambda>(sv, r2).
           let rv = ucast sv in
           if rv < 0xfd then Err (messageError ''ReadVarInt'' errNonCanonicalVarInt)
           else Ok (rv, r2))
       else Ok (ucast discriminant, r1))"

definition WriteVarInt :: "u64 \<Rightarrow> bytes" where
  "WriteVarInt val =
     (if val < 0xfd then PutUint8 (ucast val)
      else if val \<le> 0xffff then PutUint8 0xfd @ PutUint16 LittleEndian (ucast val)
      else if val \<le> 0xffffffff then PutUint8 0xfe @ PutUint32 LittleEndian (ucast val)
      else PutUint8 0xff @ PutUint64 LittleEndian val)"

definition VarIntSerializeSize :: "u64 \<Rightarrow> nat" where
  "VarIntSerializeSize val =
     (if val < 0xfd then 1 else if val \<le> 0xffff then 3 else if val \<le> 0xffffffff then 5 else 9)"

section \<open>Variable-length byte arrays and strings\<close>

text \<open>
  \<open>ReadVarString\<close> allocates its buffer before reading, with no bound on the length in the
  stream; \<open>make\<close> panics above the largest slice the runtime can allocate, which is the
  parameter \<open>maxAlloc\<close>.
\<close>

definition ReadVarString :: "nat \<Rightarrow> bytes \<Rightarrow> (bytes \<times> bytes) res" where
  "ReadVarString maxAlloc r =
     res_bind (ReadVarInt r) (\<lambda>(count, r1).
       if maxAlloc < unat count then Panic ''runtime error: makeslice: len out of range''
       else readFull (unat count) r1)"

definition WriteVarString :: "bytes \<Rightarrow> bytes" where
  "WriteVarString str = WriteVarInt (of_nat (length str)) @ str"

definition ReadVarBytes :: "u32 \<Rightarrow> string \<Rightarrow> bytes \<Rightarrow> (bytes \<times> bytes) res" where
  "ReadVarBytes maxAllowed fieldName r =
     res_bind (ReadVarInt r) (\<lambda>(count, r1).
       if ucast maxAllowed < count then
         Err (messageError ''ReadVarBytes'' (fieldName @ '' is larger than the max allowed size''))
       else readFull (unat count) r1)"

definition WriteVarBytes :: "bytes \<Rightarrow> bytes" where
  "WriteVarBytes bs = WriteVarInt (of_nat (length bs)) @ bs"

section \<open>Round trips\<close>

lemma length_order_bytes [simp]: "length (order_bytes bo n v) = n"
  by (cases bo) simp_all

lemma order_val_order_bytes [byte_simps]: "order_val bo (order_bytes bo n v) = v mod 256 ^ n"
  by (cases bo) (simp_all add: byte_simps)

lemma le_bytes_le_val: "le_bytes (length bs) (le_val bs) = bs"
proof (induction bs)
  case Nil
  show ?case by simp
next
  case (Cons b bs)
  have "(unat b + 256 * le_val bs) div 256 = le_val bs"
    using unat_u8_less [of b] by simp
  moreover have "(of_nat (unat b + 256 * le_val bs) :: u8) = b"
    using of_nat_u8_snoc [of "le_val bs" b] by (simp only: add.commute mult.commute)
  ultimately show ?case
    using Cons by (simp del: of_nat_add of_nat_mult)
qed

lemma order_bytes_order_val: "length bs = n \<Longrightarrow> order_bytes bo n (order_val bo bs) = bs"
  by (cases bo) (auto simp: le_bytes_le_val be_bytes_be_val)

lemma le_val_less: "le_val bs < 256 ^ length bs"
proof (induction bs)
  case Nil
  show ?case by simp
next
  case (Cons b bs)
  then show ?case using unat_u8_less [of b] by (simp add: mult.commute) 
qed

lemma order_val_less: "length bs = n \<Longrightarrow> order_val bo bs < 256 ^ n"
  by (cases bo) (use le_val_less [of bs] be_val_less [of bs] in auto)

lemma Uint8_Cons [reader_simps]: "Uint8 (b # r) = Ok (b, r)"
  by (simp add: Uint8_def readFull_def)

lemma Uint8_Nil [reader_simps]: "Uint8 [] = Err EOF"
  by (simp add: Uint8_def readFull_def)

lemma Uint16_PutUint16 [reader_simps]: "Uint16 bo (PutUint16 bo v @ r) = Ok (v, r)"
  using unat_u16_less [of v]
  by (simp add: Uint16_def PutUint16_def reader_simps byte_simps)

lemma Uint32_PutUint32 [reader_simps]: "Uint32 bo (PutUint32 bo v @ r) = Ok (v, r)"
  using unat_u32_less [of v]
  by (simp add: Uint32_def PutUint32_def reader_simps byte_simps)

lemma Uint64_PutUint64 [reader_simps]: "Uint64 bo (PutUint64 bo v @ r) = Ok (v, r)"
  using unat_u64_less [of v]
  by (simp add: Uint64_def PutUint64_def reader_simps byte_simps)

lemma Uint8_Ok: "Uint8 r = Ok (b, r') \<Longrightarrow> r = PutUint8 b @ r'"
  by (cases r) (auto simp: reader_simps PutUint8_def)

lemma readFull_order_bytes:
  assumes "readFull n r = Ok (buf, r')" and "256 ^ n = m"
  shows "r = order_bytes bo n (order_val bo buf mod m) @ r'"
proof -
  have "order_val bo buf < 256 ^ n" and "order_bytes bo n (order_val bo buf) = buf"
    using readFull_Ok [OF assms(1)] by (auto simp: order_bytes_order_val intro: order_val_less)
  then show ?thesis using readFull_Ok [OF assms(1)] assms(2) by simp
qed

lemma Uint16_Ok: "Uint16 bo r = Ok (v, r') \<Longrightarrow> r = PutUint16 bo v @ r'"
  unfolding Uint16_def PutUint16_def
  by (clarsimp simp: res_map_eq_Ok unat_of_nat) (erule readFull_order_bytes, simp)

lemma Uint32_Ok: "Uint32 bo r = Ok (v, r') \<Longrightarrow> r = PutUint32 bo v @ r'"
  unfolding Uint32_def PutUint32_def
  by (clarsimp simp: res_map_eq_Ok unat_of_nat) (erule readFull_order_bytes, simp)

lemma Uint64_Ok: "Uint64 bo r = Ok (v, r') \<Longrightarrow> r = PutUint64 bo v @ r'"
  unfolding Uint64_def PutUint64_def
  by (clarsimp simp: res_map_eq_Ok unat_of_nat) (erule readFull_order_bytes, simp)

lemmas word_order_nat = word_less_nat_alt word_le_nat_alt word_unat_eq_iff

lemma ReadVarInt_WriteVarInt: "ReadVarInt (WriteVarInt v @ r) = Ok (v, r)"
proof -
  consider "unat v < 0xfd" | "0xfd \<le> unat v" "unat v \<le> 0xffff"
    | "0xffff < unat v" "unat v \<le> 0xffffffff" | "0xffffffff < unat v"
    by linarith
  then show ?thesis
  proof cases
    case 1
    then show ?thesis
      by (simp add: ReadVarInt_def WriteVarInt_def PutUint8_def reader_simps byte_simps
          word_order_nat)
  next
    case 2
    then show ?thesis
      by (simp add: ReadVarInt_def WriteVarInt_def PutUint8_def reader_simps byte_simps
          word_order_nat Let_def)
  next
    case 3
    then show ?thesis
      by (simp add: ReadVarInt_def WriteVarInt_def PutUint8_def reader_simps byte_simps
          word_order_nat Let_def)
  next
    case 4
    then show ?thesis
      by (simp add: ReadVarInt_def WriteVarInt_def PutUint8_def reader_simps byte_simps
          word_order_nat Let_def)
  qed
qed

lemma ReadVarInt_canonical:
  assumes "ReadVarInt r = Ok (v, r')"
  shows "r = WriteVarInt v @ r'"
proof -
  obtain d r1 where d: "Uint8 r = Ok (d, r1)"
    using assms by (cases "Uint8 r") (auto simp: ReadVarInt_def)
  note r = Uint8_Ok [OF d]
  consider (big) "d = 0xff" | (mid) "d = 0xfe" | (two) "d = 0xfd"
    | (one) "d \<noteq> 0xff" "d \<noteq> 0xfe" "d \<noteq> 0xfd"
    by blast
  then show ?thesis
  proof cases
    case big
    with assms d have "Uint64 LittleEndian r1 = Ok (v, r')" and v: "\<not> v < 0x100000000"
      by (auto simp: ReadVarInt_def res_bind_eq_Ok split: if_splits)
    with r big Uint64_Ok [of LittleEndian r1 v r'] show ?thesis
      by (simp add: WriteVarInt_def word_order_nat)
  next
    case mid
    with assms d obtain sv where sv: "Uint32 LittleEndian r1 = Ok (sv, r')"
      and v: "v = ucast sv" "\<not> v < 0x10000"
      by (auto simp: ReadVarInt_def res_bind_eq_Ok Let_def split: if_splits)
    have "ucast v = sv" and "unat v = unat sv"
      using v(1) unat_u32_less [of sv] by (simp_all add: byte_simps word_unat_eq_iff)
    with r mid v Uint32_Ok [OF sv] unat_u32_less [of sv] show ?thesis
      by (simp add: WriteVarInt_def word_less_nat_alt word_le_nat_alt)
  next
    case two
    with assms d obtain sv where sv: "Uint16 LittleEndian r1 = Ok (sv, r')"
      and v: "v = ucast sv" "\<not> v < 0xfd"
      by (auto simp: ReadVarInt_def res_bind_eq_Ok Let_def split: if_splits)
    have "ucast v = sv" and "unat v = unat sv"
      using v(1) unat_u16_less [of sv] by (simp_all add: byte_simps word_unat_eq_iff)
    with r two v Uint16_Ok [OF sv] unat_u16_less [of sv] show ?thesis
      by (simp add: WriteVarInt_def word_less_nat_alt word_le_nat_alt)
  next
    case one
    with assms d have v: "v = ucast d" "r' = r1"
      by (auto simp: ReadVarInt_def)
    have d': "ucast v = d" "unat v = unat d"
      using v(1) unat_u8_less [of d] by (simp_all add: byte_simps word_unat_eq_iff)
    have "unat v < 0xfd"
      using one d' unat_u8_less [of d] by (simp add: word_unat_eq_iff)
    with r v d' show ?thesis
      by (simp add: WriteVarInt_def word_less_nat_alt)
  qed
qed

interpretation varint: canonical_codec WriteVarInt ReadVarInt "\<lambda>_. True"
  by unfold_locales (simp_all add: ReadVarInt_WriteVarInt ReadVarInt_canonical)

lemma VarIntSerializeSize_length: "length (WriteVarInt v) = VarIntSerializeSize v"
  by (simp add: WriteVarInt_def VarIntSerializeSize_def PutUint8_def PutUint16_def
      PutUint32_def PutUint64_def)

lemma ReadVarBytes_WriteVarBytes [reader_simps]:
  assumes "length bs \<le> unat m"
  shows "ReadVarBytes m f (WriteVarBytes bs @ r) = Ok (bs, r)"
proof -
  have len: "unat (of_nat (length bs) :: u64) = length bs"
    using assms unat_u32_less [of m] by (simp add: unat_of_nat)
  then have "\<not> ucast m < (of_nat (length bs) :: u64)"
    using assms by (simp add: word_less_nat_alt byte_simps)
  with len show ?thesis
    by (simp add: ReadVarBytes_def WriteVarBytes_def ReadVarInt_WriteVarInt reader_simps)
qed

lemma ReadVarBytes_canonical:
  assumes "ReadVarBytes m f r = Ok (bs, r')"
  shows "length bs \<le> unat m" and "r = WriteVarBytes bs @ r'"
proof -
  obtain c r1 where c: "ReadVarInt r = Ok (c, r1)" and le: "\<not> ucast m < c"
    and full: "readFull (unat c) r1 = Ok (bs, r')"
    using assms by (auto simp: ReadVarBytes_def res_bind_eq_Ok split: if_splits)
  have len: "length bs = unat c" and r1: "r1 = bs @ r'" using readFull_Ok [OF full] by auto
  then show "length bs \<le> unat m" using le by (simp add: word_less_nat_alt byte_simps)
  have "c = of_nat (length bs)" using len by simp
  then show "r = WriteVarBytes bs @ r'"
    using ReadVarInt_canonical [OF c] r1 by (simp add: WriteVarBytes_def)
qed

interpretation varbytes: canonical_codec WriteVarBytes "ReadVarBytes m f" "\<lambda>bs. length bs \<le> unat m"
  for m f
  by unfold_locales (auto simp: reader_simps dest: ReadVarBytes_canonical)

lemma ReadVarString_WriteVarString:
  "length s \<le> maxAlloc \<Longrightarrow> length s < 2 ^ 64 \<Longrightarrow>
    ReadVarString maxAlloc (WriteVarString s @ r) = Ok (s, r)"
  by (simp add: ReadVarString_def WriteVarString_def ReadVarInt_WriteVarInt unat_of_nat
      reader_simps)

interpretation varstring: prefix_codec WriteVarString "ReadVarString maxAlloc"
  "\<lambda>s. length s \<le> maxAlloc \<and> length s < 2 ^ 64"
  for maxAlloc
  by unfold_locales (simp add: ReadVarString_WriteVarString)

lemma ReadVarBytes_Nil [reader_simps]: "ReadVarBytes m f [] = Err EOF"
  by (simp add: ReadVarBytes_def ReadVarInt_def reader_simps)

section \<open>Properties\<close>

text \<open>
  The variable-length integer reader accepts exactly the writer's output: it returns a value
  and a rest of the stream if and only if the stream is the encoding of the value followed by
  the rest. In particular every value has one encoding and non-canonical ones are refused.
\<close>

theorem ReadVarInt_iff: "ReadVarInt r = Ok (v, r') \<longleftrightarrow> r = WriteVarInt v @ r'"
  by (simp add: varint.dec_iff)

end
