(* ===== verification/TxMeta.thy ===== *)
theory TxMeta
  imports VarBytes
begin

text \<open>
  Transaction metadata and its storage encoding:
  \<open>l2geth/core/types/transaction_meta.go\<close>. A nil pointer or nil slice is \<open>None\<close>; an
  empty slice is \<open>Some []\<close>, which the code distinguishes from nil.
\<close>

section \<open>Data\<close>

text \<open>\<open>QueueOrigin\<close> is a \<open>uint8\<close>; two of its values are named.\<close>

type_synonym queue_origin = u8

definition QueueOriginSequencer :: queue_origin where
  "QueueOriginSequencer = 0"

definition QueueOriginL1ToL2 :: queue_origin where
  "QueueOriginL1ToL2 = 1"

definition QueueOrigin_String :: "queue_origin \<Rightarrow> string" where
  "QueueOrigin_String q =
     (if q = QueueOriginSequencer then ''sequencer''
      else if q = QueueOriginL1ToL2 then ''l1''
      else [])"

definition QueueOrigin_UnmarshalJSON :: "string \<Rightarrow> queue_origin res" where
  "QueueOrigin_UnmarshalJSON b =
     (if b = CHR 0x22 # ''sequencer'' @ [CHR 0x22] then Ok QueueOriginSequencer
      else if b = CHR 0x22 # ''l1'' @ [CHR 0x22] then Ok QueueOriginL1ToL2
      else Err (GoErr ''Unknown QueueOrigin''))"

record TransactionMeta =
  L1BlockNumber :: "int option"
  L1Timestamp :: u64
  L1Turing :: "bytes option"
  L1MessageSender :: "addr option"
  QueueOrigin :: queue_origin
  Index :: "u64 option"
  QueueIndex :: "u64 option"
  RawTransaction :: "bytes option"

definition NewTransactionMeta ::
    "int option \<Rightarrow> u64 \<Rightarrow> bytes option \<Rightarrow> addr option \<Rightarrow> queue_origin \<Rightarrow> u64 option \<Rightarrow>
     u64 option \<Rightarrow> bytes option \<Rightarrow> TransactionMeta" where
  "NewTransactionMeta bn ts turing sender qo idx qidx raw =
     \<lparr>L1BlockNumber = bn, L1Timestamp = ts, L1Turing = turing, L1MessageSender = sender,
      QueueOrigin = qo, Index = idx, QueueIndex = qidx, RawTransaction = raw\<rparr>"

section \<open>Encoding\<close>

definition getNullValue :: bytes where
  "getNullValue = [0]"

definition isNullValue :: "bytes \<Rightarrow> bool" where
  "isNullValue b \<longleftrightarrow> b = [0]"

text \<open>\<open>binary.Write\<close> of an address writes its 20 bytes.\<close>

definition addr_bytes :: "addr \<Rightarrow> bytes" where
  "addr_bytes a = be_bytes 20 (unat a)"

text \<open>
  \<open>binary.Read\<close> into an address or a \<open>uint64\<close>. Its error is dropped by the caller, and
  the zero value stays in place when the input is too short.
\<close>

definition binaryReadAddr :: "bytes \<Rightarrow> addr" where
  "binaryReadAddr b = (case readFull 20 b of Ok (x, _) \<Rightarrow> of_nat (be_val x) | _ \<Rightarrow> 0)"

definition binaryReadU64 :: "bytes \<Rightarrow> u64" where
  "binaryReadU64 b = (case readFull 8 b of Ok (x, _) \<Rightarrow> of_nat (le_val x) | _ \<Rightarrow> 0)"

definition optVarBytes :: "('a \<Rightarrow> bytes) \<Rightarrow> 'a option \<Rightarrow> bytes" where
  "optVarBytes f x =
     (case x of None \<Rightarrow> WriteVarBytes getNullValue | Some y \<Rightarrow> WriteVarBytes (f y))"

definition TxMetaEncode :: "TransactionMeta \<Rightarrow> bytes" where
  "TxMetaEncode meta =
     optVarBytes (\<lambda>n. min_be (nat \<bar>n\<bar>)) (L1BlockNumber meta) @
     optVarBytes addr_bytes (L1MessageSender meta) @
     WriteVarBytes [QueueOrigin meta] @
     WriteVarBytes (le_bytes 8 (unat (L1Timestamp meta))) @
     optVarBytes (\<lambda>i. min_be (unat i)) (Index meta) @
     optVarBytes (\<lambda>i. min_be (unat i)) (QueueIndex meta) @
     optVarBytes (\<lambda>raw. raw) (RawTransaction meta) @
     (case L1Turing meta of None \<Rightarrow> [] | Some t \<Rightarrow> WriteVarBytes t)"

definition TxMetaDecode :: "bytes \<Rightarrow> TransactionMeta res" where
  "TxMetaDecode input =
     res_bind (ReadVarBytes 1024 ''l1BlockNumber'' input) (\<lambda>(lb, r1).
     res_bind (ReadVarBytes 1024 ''L1MessageSender'' r1) (\<lambda>(mb, r2).
     res_bind (ReadVarBytes 1024 ''QueueOrigin'' r2) (\<lambda>(qo, r3).
     res_bind (ReadVarBytes 1024 ''L1Timestamp'' r3) (\<lambda>(l, r4).
     res_bind (ReadVarBytes 1024 ''Index'' r4) (\<lambda>(i, r5).
     res_bind (ReadVarBytes 1024 ''QueueIndex'' r5) (\<lambda>(qi, r6).
     res_bind (ReadVarBytes 130000 ''RawTransaction'' r6) (\<lambda>(raw, r7).
       let meta = \<lparr>
         L1BlockNumber = (if isNullValue lb then None else Some (int (be_val lb))),
         L1Timestamp = binaryReadU64 l,
         L1Turing = None,
         L1MessageSender = (if isNullValue mb then None else Some (binaryReadAddr mb)),
         QueueOrigin = (if isNullValue qo then 0 else of_nat (be_val qo)),
         Index = (if isNullValue i then None else Some (of_nat (be_val i))),
         QueueIndex = (if isNullValue qi then None else Some (of_nat (be_val qi))),
         RawTransaction = (if isNullValue raw then None else Some raw)\<rparr>
       in case ReadVarBytes 2048 ''Turing'' r7 of
            Ok (turing, _) \<Rightarrow> Ok (meta\<lparr>L1Turing := Some turing\<rparr>)
          | Err e \<Rightarrow> if errorsIs e EOF then Ok meta else Err e
          | Panic s \<Rightarrow> Panic s)))))))"

text \<open>The metadata that the storage encoding can represent.\<close>

definition storable :: "TransactionMeta \<Rightarrow> bool" where
  "storable m \<longleftrightarrow>
     (case L1BlockNumber m of None \<Rightarrow> True | Some n \<Rightarrow> 0 \<le> n \<and> n < 256 ^ 1024) \<and>
     (case RawTransaction m of None \<Rightarrow> True | Some raw \<Rightarrow> raw \<noteq> [0] \<and> length raw \<le> 130000) \<and>
     (case L1Turing m of None \<Rightarrow> True | Some t \<Rightarrow> length t \<le> 2048)"

section \<open>Round trip\<close>

lemma ReadVarBytes_optVarBytes:
  assumes "\<And>y. x = Some y \<Longrightarrow> length (f y) \<le> unat m" and "1 \<le> unat m"
  shows "ReadVarBytes m n (optVarBytes f x @ r) =
    Ok (case x of None \<Rightarrow> getNullValue | Some y \<Rightarrow> f y, r)"
  using assms by (cases x) (simp_all add: optVarBytes_def reader_simps getNullValue_def)

lemma length_min_be_u64: "length (min_be (unat (w :: u64))) \<le> 8"
  by (rule length_min_be) (rule unat_u64_bound)

lemma isNullValue_simps [simp]:
  "isNullValue getNullValue" "\<not> isNullValue (min_be v)" "\<not> isNullValue (addr_bytes a)"
proof -
  show "isNullValue getNullValue" "\<not> isNullValue (min_be v)"
    by (simp_all add: isNullValue_def getNullValue_def)
  have "length (addr_bytes a) = 20" by (simp add: addr_bytes_def)
  then show "\<not> isNullValue (addr_bytes a)" by (auto simp: isNullValue_def)
qed

lemma binaryReadAddr_addr_bytes [simp]: "binaryReadAddr (addr_bytes a) = a"
  using unat_addr_bound [of a] readFull_append [of "addr_bytes a" 20 "[]"]
  by (simp add: binaryReadAddr_def addr_bytes_def byte_simps)

lemma binaryReadU64_le_bytes [simp]: "binaryReadU64 (le_bytes 8 (unat w)) = w"
  using unat_u64_less [of w] readFull_append [of "le_bytes 8 (unat w)" 8 "[]"]
  by (simp add: binaryReadU64_def byte_simps)

definition fieldBytes :: "('a \<Rightarrow> bytes) \<Rightarrow> 'a option \<Rightarrow> bytes" where
  "fieldBytes f x = (case x of None \<Rightarrow> getNullValue | Some y \<Rightarrow> f y)"

lemma fieldBytes_simps [simp]:
  "fieldBytes f None = getNullValue" "fieldBytes f (Some y) = f y"
  by (simp_all add: fieldBytes_def)

lemma read_blockNumber:
  assumes "storable m"
  shows "ReadVarBytes 1024 n (optVarBytes (\<lambda>n. min_be (nat \<bar>n\<bar>)) (L1BlockNumber m) @ r) =
    Ok (fieldBytes (\<lambda>n. min_be (nat \<bar>n\<bar>)) (L1BlockNumber m), r)"
  unfolding fieldBytes_def
proof (rule ReadVarBytes_optVarBytes)
  fix k assume k: "L1BlockNumber m = Some k"
  with assms have "0 \<le> k" "k < 256 ^ 1024" by (simp_all only: storable_def option.case)
  then have "nat \<bar>k\<bar> < 256 ^ 1024"
    by (metis abs_of_nonneg nat_less_iff of_nat_numeral of_nat_power)
  then show "length (min_be (nat \<bar>k\<bar>)) \<le> unat (1024 :: u32)"
    using length_min_be by simp
qed simp

lemma read_sender:
  "ReadVarBytes 1024 n (optVarBytes addr_bytes x @ r) = Ok (fieldBytes addr_bytes x, r)"
  unfolding fieldBytes_def
  by (rule ReadVarBytes_optVarBytes) (simp_all add: addr_bytes_def)

lemma read_index:
  "ReadVarBytes 1024 n (optVarBytes (\<lambda>i :: u64. min_be (unat i)) x @ r) =
    Ok (fieldBytes (\<lambda>i. min_be (unat i)) x, r)"
  unfolding fieldBytes_def
proof (rule ReadVarBytes_optVarBytes)
  fix i assume "x = Some i"
  show "length (min_be (unat i)) \<le> unat (1024 :: u32)"
    using length_min_be_u64 [of i] by simp
qed simp

lemma read_raw:
  assumes "storable m"
  shows "ReadVarBytes 130000 n (optVarBytes (\<lambda>raw. raw) (RawTransaction m) @ r) =
    Ok (fieldBytes (\<lambda>raw. raw) (RawTransaction m), r)"
  unfolding fieldBytes_def
  by (rule ReadVarBytes_optVarBytes) (use assms in \<open>simp_all add: storable_def\<close>)

lemmas read_fields = read_blockNumber read_sender read_index read_raw

text \<open>The fields a decoder reads back, one by one.\<close>

lemma field_blockNumber:
  "storable m \<Longrightarrow>
    (if isNullValue (fieldBytes (\<lambda>n. min_be (nat \<bar>n\<bar>)) (L1BlockNumber m)) then None
     else Some (int (be_val (fieldBytes (\<lambda>n. min_be (nat \<bar>n\<bar>)) (L1BlockNumber m))))) =
    L1BlockNumber m"
  by (cases "L1BlockNumber m") (simp_all add: byte_simps storable_def)

lemma field_sender:
  "(if isNullValue (fieldBytes addr_bytes x) then None
    else Some (binaryReadAddr (fieldBytes addr_bytes x))) = x"
  by (cases x) simp_all

lemma field_index:
  "(if isNullValue (fieldBytes (\<lambda>i :: u64. min_be (unat i)) x) then None
    else Some (of_nat (be_val (fieldBytes (\<lambda>i. min_be (unat i)) x)))) = x"
  by (cases x) (simp_all add: byte_simps)

lemma field_raw:
  "storable m \<Longrightarrow>
    (if isNullValue (fieldBytes (\<lambda>raw. raw) (RawTransaction m)) then None
     else Some (fieldBytes (\<lambda>raw. raw) (RawTransaction m))) = RawTransaction m"
  by (cases "RawTransaction m") (simp_all add: storable_def isNullValue_def getNullValue_def)

lemma field_origin: "(if isNullValue [q] then 0 else of_nat (be_val [q])) = (q :: u8)"
  by (simp add: isNullValue_def be_val_def)

lemmas decoded_fields = field_blockNumber field_sender field_index field_raw field_origin

lemma rebuild_meta:
  "L1Turing m = None \<Longrightarrow>
    \<lparr>L1BlockNumber = L1BlockNumber m, L1Timestamp = L1Timestamp m, L1Turing = None,
     L1MessageSender = L1MessageSender m, QueueOrigin = QueueOrigin m, Index = Index m,
     QueueIndex = QueueIndex m, RawTransaction = RawTransaction m\<rparr> = m"
  by simp

lemma TxMetaDecode_prefix:
  assumes "storable m" and "L1Turing m = None"
  shows "TxMetaDecode (TxMetaEncode m @ r7) =
    (case ReadVarBytes 2048 ''Turing'' r7 of
       Ok (t, _) \<Rightarrow> Ok (m\<lparr>L1Turing := Some t\<rparr>)
     | Err e \<Rightarrow> if errorsIs e EOF then Ok m else Err e
     | Panic s \<Rightarrow> Panic s)"
  using assms
  by (simp add: TxMetaDecode_def TxMetaEncode_def read_fields decoded_fields reader_simps
      rebuild_meta split del: if_split)

lemma TxMetaEncode_Turing:
  "TxMetaEncode m =
    TxMetaEncode (m\<lparr>L1Turing := None\<rparr>) @
    (case L1Turing m of None \<Rightarrow> [] | Some t \<Rightarrow> WriteVarBytes t)"
  by (simp add: TxMetaEncode_def)

lemma storable_no_Turing: "storable m \<Longrightarrow> storable (m\<lparr>L1Turing := None\<rparr>)"
  by (simp add: storable_def)

text \<open>
  C31: Every storable transaction metadata record survives the storage encoding: decoding
  what \<open>TxMetaEncode\<close> wrote gives the record back, also for legacy records without a
  Turing field. Storable are records with an L1 block number that is not negative and below
  \<open>256 ^ 1024\<close>, at most 2048 bytes of Turing data, and a raw transaction of at most 130000 bytes that is not
  the single zero byte, which is how a missing value is written.
\<close>

theorem TxMeta_roundtrip:
  assumes "storable m"
  shows "TxMetaDecode (TxMetaEncode m) = Ok m"
proof -
  let ?m0 = "m\<lparr>L1Turing := None\<rparr>"
  have dec: "TxMetaDecode (TxMetaEncode ?m0 @ r) =
    (case ReadVarBytes 2048 ''Turing'' r of
       Ok (t, _) \<Rightarrow> Ok (?m0\<lparr>L1Turing := Some t\<rparr>)
     | Err e \<Rightarrow> if errorsIs e EOF then Ok ?m0 else Err e
     | Panic s \<Rightarrow> Panic s)" for r
    by (rule TxMetaDecode_prefix [OF storable_no_Turing [OF assms]]) simp
  show ?thesis
  proof (cases "L1Turing m")
    case None
    then show ?thesis
      using dec [of "[]"] by (simp add: TxMetaEncode_Turing [of m] reader_simps)
  next
    case (Some t)
    with assms have "length t \<le> unat (2048 :: u32)" by (simp add: storable_def)
    then have "ReadVarBytes 2048 ''Turing'' (WriteVarBytes t) = Ok (t, [])"
      by (rule varbytes.dec_enc_Nil)
    with Some dec [of "WriteVarBytes t"] show ?thesis
      by (simp add: TxMetaEncode_Turing [of m])
  qed
qed

definition witnessMeta :: TransactionMeta where
  "witnessMeta = NewTransactionMeta (Some 5) 7 (Some [1, 2]) None QueueOriginSequencer (Some 3) None None"

theorem TxMeta_roundtrip_witness:
  "storable witnessMeta \<and> TxMetaDecode (TxMetaEncode witnessMeta) = Ok witnessMeta"
proof -
  have "storable witnessMeta"
    by (simp add: storable_def witnessMeta_def NewTransactionMeta_def)
  then show ?thesis using TxMeta_roundtrip [of witnessMeta] by blast
qed

text \<open>
  A record whose Turing field is cut off after its length byte is accepted as a record that
  has no Turing field at all: the decoder takes the end of the input inside the field for the
  end of a legacy record.
\<close>

theorem TxMeta_truncated_turing:
  assumes "storable m" and "L1Turing m = None" and "0 < n" and "n < 0xfd"
  shows "TxMetaDecode (TxMetaEncode m @ [n]) = Ok m"
proof -
  have n: "n \<noteq> 0xff" "n \<noteq> 0xfe" "n \<noteq> 0xfd" using assms(4) by auto
  have u: "unat (ucast n :: u64) = unat n" "unat n < 256" "0 < unat n"
    using unat_u8_less [of n] assms(3) by (simp_all add: byte_simps unat_gt_0 word_gt_0)
  have "ReadVarInt [n] = Ok (ucast n, [])"
    using n by (simp add: ReadVarInt_def Uint8_def readFull_def)
  moreover have "\<not> ucast (2048 :: u32) < (ucast n :: u64)"
    using u by (simp add: word_less_nat_alt byte_simps)
  ultimately have "ReadVarBytes 2048 ''Turing'' [n] = Err EOF"
    using u by (simp add: ReadVarBytes_def readFull_Nil)
  then show ?thesis by (simp add: TxMetaDecode_prefix [OF assms(1,2)])
qed

theorem TxMeta_truncated_turing_witness:
  "TxMetaDecode (TxMetaEncode (witnessMeta\<lparr>L1Turing := None\<rparr>) @ [4]) = Ok (witnessMeta\<lparr>L1Turing := None\<rparr>)"
proof -
  have "storable (witnessMeta\<lparr>L1Turing := None\<rparr>)"
    by (simp add: storable_def witnessMeta_def NewTransactionMeta_def)
  then show ?thesis by (rule TxMeta_truncated_turing) simp_all
qed

end
