(* ===== verification/RollupIndexes.thy ===== *)
theory RollupIndexes
  imports Go_Prelude
begin

text \<open>
  The rollup head indexes in the key-value database:
  \<open>l2geth/core/rawdb/rollup_indexes.go\<close>, with the keys of \<open>rawdb/schema.go\<close>. The
  database is a map from keys to byte strings; a failing \<open>Put\<close> stops the process
  (\<open>log.Crit\<close>) and is not modelled.
\<close>

type_synonym kvdb = "string \<rightharpoonup> bytes"

definition headIndexKey :: string where
  "headIndexKey = ''LastIndex''"

definition headQueueIndexKey :: string where
  "headQueueIndexKey = ''LastQueueIndex''"

definition headVerifiedIndexKey :: string where
  "headVerifiedIndexKey = ''LastVerifiedIndex''"

definition headBatchKey :: string where
  "headBatchKey = ''LastBatch''"

text \<open>
  The four readers and the four writers differ in their key only. A missing key reads as
  the empty slice.
\<close>

definition readIndexAt :: "string \<Rightarrow> kvdb \<Rightarrow> u64 option" where
  "readIndexAt key db =
     (let data = (case db key of None \<Rightarrow> [] | Some d \<Rightarrow> d)
      in if length data = 0 then None else Some (of_nat (be_val data)))"

definition writeIndexAt :: "string \<Rightarrow> u64 \<Rightarrow> kvdb \<Rightarrow> kvdb" where
  "writeIndexAt key index db =
     (let value = (if index = 0 then [0] else min_be (unat index))
      in db(key \<mapsto> value))"

definition ReadHeadIndex :: "kvdb \<Rightarrow> u64 option" where
  "ReadHeadIndex db = readIndexAt headIndexKey db"

definition WriteHeadIndex :: "u64 \<Rightarrow> kvdb \<Rightarrow> kvdb" where
  "WriteHeadIndex index db = writeIndexAt headIndexKey index db"

definition ReadHeadQueueIndex :: "kvdb \<Rightarrow> u64 option" where
  "ReadHeadQueueIndex db = readIndexAt headQueueIndexKey db"

definition WriteHeadQueueIndex :: "u64 \<Rightarrow> kvdb \<Rightarrow> kvdb" where
  "WriteHeadQueueIndex index db = writeIndexAt headQueueIndexKey index db"

definition ReadHeadVerifiedIndex :: "kvdb \<Rightarrow> u64 option" where
  "ReadHeadVerifiedIndex db = readIndexAt headVerifiedIndexKey db"

definition WriteHeadVerifiedIndex :: "u64 \<Rightarrow> kvdb \<Rightarrow> kvdb" where
  "WriteHeadVerifiedIndex index db = writeIndexAt headVerifiedIndexKey index db"

definition ReadHeadBatchIndex :: "kvdb \<Rightarrow> u64 option" where
  "ReadHeadBatchIndex db = readIndexAt headBatchKey db"

definition WriteHeadBatchIndex :: "u64 \<Rightarrow> kvdb \<Rightarrow> kvdb" where
  "WriteHeadBatchIndex index db = writeIndexAt headBatchKey index db"

section \<open>The contract of an index store\<close>

text \<open>
  What the sync service relies on: a written index is read back, and writing it changes
  nothing an observer of another part of the database sees. The observations of the other
  indexes are the parameter \<open>other\<close>.
\<close>

locale index_store =
  fixes rd :: "kvdb \<Rightarrow> u64 option"
    and wr :: "u64 \<Rightarrow> kvdb \<Rightarrow> kvdb"
    and other :: "kvdb \<Rightarrow> 'o"
  assumes rd_wr: "rd (wr i db) = Some i"
    and other_wr: "other (wr i db) = other db"
    and rd_empty: "rd Map.empty = None"
begin

lemma rd_wr_wr: "rd (wr i (wr j db)) = Some i"
  by (rule rd_wr)

lemma wr_cong: "rd (wr i db) = rd (wr i db')"
  by (simp add: rd_wr)

end

lemma readIndexAt_writeIndexAt [simp]:
  "readIndexAt k (writeIndexAt k' i db) = (if k = k' then Some i else readIndexAt k db)"
proof -
  have "be_val [0] = 0" by (simp add: be_val_def)
  then show ?thesis
    by (simp add: readIndexAt_def writeIndexAt_def Let_def byte_simps unat_eq_0)
qed

lemma index_keys_distinct [simp]:
  "headIndexKey \<noteq> headQueueIndexKey" "headIndexKey \<noteq> headVerifiedIndexKey"
  "headIndexKey \<noteq> headBatchKey" "headQueueIndexKey \<noteq> headIndexKey"
  "headQueueIndexKey \<noteq> headVerifiedIndexKey" "headQueueIndexKey \<noteq> headBatchKey"
  "headVerifiedIndexKey \<noteq> headIndexKey" "headVerifiedIndexKey \<noteq> headQueueIndexKey"
  "headVerifiedIndexKey \<noteq> headBatchKey" "headBatchKey \<noteq> headIndexKey"
  "headBatchKey \<noteq> headQueueIndexKey" "headBatchKey \<noteq> headVerifiedIndexKey"
  by (simp_all add: headIndexKey_def headQueueIndexKey_def headVerifiedIndexKey_def
      headBatchKey_def)

lemma readIndexAt_empty [simp]: "readIndexAt k Map.empty = None"
  by (simp add: readIndexAt_def)

lemmas index_defs =
  ReadHeadIndex_def WriteHeadIndex_def ReadHeadQueueIndex_def WriteHeadQueueIndex_def
  ReadHeadVerifiedIndex_def WriteHeadVerifiedIndex_def ReadHeadBatchIndex_def
  WriteHeadBatchIndex_def

interpretation head: index_store ReadHeadIndex WriteHeadIndex
  "\<lambda>db. (ReadHeadQueueIndex db, ReadHeadVerifiedIndex db, ReadHeadBatchIndex db)"
  by unfold_locales (simp_all add: index_defs)

interpretation queue: index_store ReadHeadQueueIndex WriteHeadQueueIndex
  "\<lambda>db. (ReadHeadIndex db, ReadHeadVerifiedIndex db, ReadHeadBatchIndex db)"
  by unfold_locales (simp_all add: index_defs)

interpretation verified: index_store ReadHeadVerifiedIndex WriteHeadVerifiedIndex
  "\<lambda>db. (ReadHeadIndex db, ReadHeadQueueIndex db, ReadHeadBatchIndex db)"
  by unfold_locales (simp_all add: index_defs)

interpretation batch: index_store ReadHeadBatchIndex WriteHeadBatchIndex
  "\<lambda>db. (ReadHeadIndex db, ReadHeadQueueIndex db, ReadHeadVerifiedIndex db)"
  by unfold_locales (simp_all add: index_defs)

lemmas index_read_write [simp] =
  head.rd_wr head.other_wr [simplified] head.rd_empty
  queue.rd_wr queue.other_wr [simplified] queue.rd_empty
  verified.rd_wr verified.other_wr [simplified] verified.rd_empty
  batch.rd_wr batch.other_wr [simplified] batch.rd_empty

section \<open>Properties\<close>

text \<open>The four indexes, as the sync service sees them.\<close>

definition indexes :: "kvdb \<Rightarrow> u64 option \<times> u64 option \<times> u64 option \<times> u64 option" where
  "indexes db =
     (ReadHeadIndex db, ReadHeadQueueIndex db, ReadHeadVerifiedIndex db, ReadHeadBatchIndex db)"

text \<open>
  C30: The database implements four independent optional counters: each writer sets its own
  counter, to any 64-bit value with zero included, and leaves the other three as they are.
\<close>

theorem indexes_refine:
  "indexes db = (h, q, v, b) \<Longrightarrow>
     indexes (WriteHeadIndex i db) = (Some i, q, v, b) \<and>
     indexes (WriteHeadQueueIndex i db) = (h, Some i, v, b) \<and>
     indexes (WriteHeadVerifiedIndex i db) = (h, q, Some i, b) \<and>
     indexes (WriteHeadBatchIndex i db) = (h, q, v, Some i)"
  by (simp add: indexes_def)

theorem indexes_refine_witness:
  "indexes (WriteHeadIndex 0 Map.empty) = (Some 0, None, None, None)"
proof -
  have "indexes Map.empty = (None, None, None, None)" by (simp add: indexes_def)
  from indexes_refine [OF this, of 0] show ?thesis by blast
qed

end
