(* ===== verification/RLP.thy ===== *)
theory RLP
  imports Go_Prelude
begin

unbundle bit_operations_syntax

text \<open>
  Recursive length prefix encoding: the encoder buffer of \<open>l2geth/rlp/encode.go\<close>, which
  delays list headers until the size of a list is known, and the splitting functions of
  \<open>l2geth/rlp/raw.go\<close>. Go reaches the writers by reflection on the type of the value; here
  the type's shape is a datatype whose constructors are the writers.
\<close>

section \<open>Integers and headers\<close>

definition putint :: "u64 \<Rightarrow> bytes" where
  "putint i =
     (if i < push_bit 8 1 then [ucast i]
      else if i < push_bit 16 1 then [ucast (drop_bit 8 i), ucast i]
      else if i < push_bit 24 1 then
        [ucast (drop_bit 16 i), ucast (drop_bit 8 i), ucast i]
      else if i < push_bit 32 1 then
        [ucast (drop_bit 24 i), ucast (drop_bit 16 i), ucast (drop_bit 8 i), ucast i]
      else if i < push_bit 40 1 then
        [ucast (drop_bit 32 i), ucast (drop_bit 24 i), ucast (drop_bit 16 i),
         ucast (drop_bit 8 i), ucast i]
      else if i < push_bit 48 1 then
        [ucast (drop_bit 40 i), ucast (drop_bit 32 i), ucast (drop_bit 24 i),
         ucast (drop_bit 16 i), ucast (drop_bit 8 i), ucast i]
      else if i < push_bit 56 1 then
        [ucast (drop_bit 48 i), ucast (drop_bit 40 i), ucast (drop_bit 32 i),
         ucast (drop_bit 24 i), ucast (drop_bit 16 i), ucast (drop_bit 8 i), ucast i]
      else
        [ucast (drop_bit 56 i), ucast (drop_bit 48 i), ucast (drop_bit 40 i),
         ucast (drop_bit 32 i), ucast (drop_bit 24 i), ucast (drop_bit 16 i),
         ucast (drop_bit 8 i), ucast i])"

lemma unat_drop_bit_u64: "unat (drop_bit n (w :: u64)) = unat w div 2 ^ n"
  by (simp only: unat_drop_bit_eq) (simp only: drop_bit_eq_div)

text \<open>The loop of \<open>intsize\<close> shifts its argument to the right until it is zero.\<close>

function intsize :: "u64 \<Rightarrow> nat" where
  "intsize i = (let i' = drop_bit 8 i in if i' = 0 then 1 else Suc (intsize i'))"
  by pat_completeness auto
termination
proof (relation "measure unat")
  show "wf (measure (unat :: u64 \<Rightarrow> nat))" by simp
  fix i x :: u64
  assume x: "x = drop_bit 8 i" and "x \<noteq> 0"
  then have "unat x \<noteq> 0" by (simp only: unat_eq_0 simp_thms)
  moreover have "unat x = unat i div 256" using x by (simp add: unat_drop_bit_u64)
  ultimately show "(x, i) \<in> measure unat" by simp
qed

declare intsize.simps [simp del]

definition headsize :: "u64 \<Rightarrow> nat" where
  "headsize sz = (if sz < 56 then 1 else 1 + intsize sz)"

definition puthead :: "u8 \<Rightarrow> u8 \<Rightarrow> u64 \<Rightarrow> bytes" where
  "puthead smalltag largetag sz =
     (if sz < 56 then [smalltag + ucast sz]
      else let s = putint sz in (largetag + of_nat (length s)) # s)"

definition ListSize :: "u64 \<Rightarrow> u64" where
  "ListSize contentSize = of_nat (headsize contentSize) + contentSize"

subsection \<open>Facts\<close>

lemma min_be_eq_be_bytes:
  assumes "256 ^ n \<le> v" and "v < 256 ^ Suc n"
  shows "min_be v = be_bytes (Suc n) v"
proof -
  have "hd (be_bytes (Suc n) v) \<noteq> 0"
    using assms
  proof (induction n arbitrary: v)
    case 0
    then show ?case by (simp add: word_unat_eq_iff byte_simps)
  next
    case (Suc n)
    then have "256 ^ n \<le> v div 256" and "v div 256 < 256 ^ Suc n"
      by (simp_all add: less_eq_div_iff_mult_less_eq div_less_iff_less_mult mult.commute)
    then have "hd (be_bytes (Suc n) (v div 256)) \<noteq> 0" by (rule Suc.IH)
    then show ?case by (simp add: hd_append split: if_splits)
  qed
  then have "min_be (be_val (be_bytes (Suc n) v)) = be_bytes (Suc n) v"
    by (intro min_be_be_val) (auto simp del: be_bytes.simps dest: arg_cong [of _ _ length])
  with assms show ?thesis by (simp only: be_val_be_bytes mod_less)
qed

lemma ucast_drop_bit_u64: "(ucast (drop_bit n (w :: u64)) :: u8) = of_nat (unat w div 2 ^ n)"
  by (simp only: word_unat_eq_iff unat_ucast_u8 unat_drop_bit_u64 unat_of_nat_u8)

lemma ucast_u64_u8: "(ucast (w :: u64) :: u8) = of_nat (unat w)"
  by (simp only: word_unat_eq_iff unat_ucast_u8 unat_of_nat_u8)

lemma be_bytes_map: "be_bytes n v = map (\<lambda>k. of_nat (v div 256 ^ k)) (rev [0..<n])"
proof (induction n arbitrary: v)
  case 0
  show ?case by simp
next
  case (Suc n)
  have "[0..<Suc n] = 0 # map Suc [0..<n]" by (simp only: upt_conv_Cons map_Suc_upt zero_less_Suc)
  with Suc show ?case by (simp add: div_mult2_eq [symmetric] rev_map del: upt_Suc)
qed

lemma putint_min_be:
  assumes "i \<noteq> 0"
  shows "putint i = min_be (unat i)"
proof -
  define v where "v = unat i"
  have pos: "1 \<le> v" using assms by (simp add: v_def Suc_le_eq unat_gt_0)
  have top: "v < 18446744073709551616" unfolding v_def by (rule unat_u64_less)
  note put = putint_def [of i, unfolded ucast_drop_bit_u64, unfolded ucast_u64_u8, folded v_def]
  consider "v < 256"
    | "256 \<le> v" "v < 65536"
    | "65536 \<le> v" "v < 16777216"
    | "16777216 \<le> v" "v < 4294967296"
    | "4294967296 \<le> v" "v < 1099511627776"
    | "1099511627776 \<le> v" "v < 281474976710656"
    | "281474976710656 \<le> v" "v < 72057594037927936"
    | "72057594037927936 \<le> v" "v < 18446744073709551616"
    using top by (metis linorder_not_le)
  then have "\<exists>n. 256 ^ n \<le> v \<and> v < 256 ^ Suc n \<and> putint i = be_bytes (Suc n) v"
  proof cases
    case 1
    with pos show ?thesis by (intro exI [of _ 0]) (simp add: put word_less_nat_alt be_bytes_map upt_rec flip: v_def)
  next
    case 2
    then show ?thesis by (intro exI [of _ 1]) (simp add: put word_less_nat_alt be_bytes_map upt_rec flip: v_def)
  next
    case 3
    then show ?thesis by (intro exI [of _ 2]) (simp add: put word_less_nat_alt be_bytes_map upt_rec flip: v_def)
  next
    case 4
    then show ?thesis by (intro exI [of _ 3]) (simp add: put word_less_nat_alt be_bytes_map upt_rec flip: v_def)
  next
    case 5
    then show ?thesis by (intro exI [of _ 4]) (simp add: put word_less_nat_alt be_bytes_map upt_rec flip: v_def)
  next
    case 6
    then show ?thesis by (intro exI [of _ 5]) (simp add: put word_less_nat_alt be_bytes_map upt_rec flip: v_def)
  next
    case 7
    then show ?thesis by (intro exI [of _ 6]) (simp add: put word_less_nat_alt be_bytes_map upt_rec flip: v_def)
  next
    case 8
    then show ?thesis by (intro exI [of _ 7]) (simp add: put word_less_nat_alt be_bytes_map upt_rec flip: v_def)
  qed
  then show ?thesis using min_be_eq_be_bytes [of _ v] unfolding v_def by metis
qed

lemma putint_0 [simp]: "putint 0 = [0]"
  by (simp add: putint_def)

lemma intsize_min_be: "intsize i = (if i = 0 then 1 else length (min_be (unat i)))"
proof (induction i rule: intsize.induct)
  case (1 i)
  have step: "unat (drop_bit 8 i) = unat i div 256" by (simp add: unat_drop_bit_u64)
  have "drop_bit 8 i = 0 \<longleftrightarrow> unat i div 256 = 0"
    by (simp only: step [symmetric] unat_eq_0)
  with 1 step show ?case
    by (simp add: intsize.simps [of i] min_be.simps [of "unat i"] unat_eq_0 Let_def
        del: div_eq_0_iff div_less)
qed

lemma length_putint: "length (putint i) = intsize i"
  by (cases "i = 0") (simp_all add: putint_min_be intsize_min_be)

lemma intsize_bounds: "1 \<le> intsize i" "intsize i \<le> 8"
  using length_min_be [OF unat_u64_bound, of i]
  by (auto simp: intsize_min_be Suc_le_eq unat_eq_0)

lemma length_puthead: "length (puthead a b sz) = headsize sz"
  by (simp add: puthead_def headsize_def length_putint)

section \<open>The encoder buffer\<close>

text \<open>
  \<open>str\<close> holds everything but the list headers; \<open>lheads\<close> the list headers in the order they
  were opened, with their offset in \<open>str\<close>; \<open>lhsize\<close> the encoded size of the headers that are
  closed. While a list is open its header's \<open>lhd_size\<close> holds the value \<open>lhsize\<close> had when it was
  opened. The pointer \<open>list\<close> returns is the index of the header in \<open>lheads\<close>. The field
  \<open>sizebuf\<close> is scratch space and the pool of buffers an allocation matter.
\<close>

record listhead =
  lhd_offset :: nat
  lhd_size :: nat

record encbuf =
  str :: bytes
  lheads :: "listhead list"
  lhsize :: nat

definition listhead_encode :: "listhead \<Rightarrow> bytes" where
  "listhead_encode head = puthead 0xC0 0xF7 (of_nat (lhd_size head))"

definition encbuf_reset :: encbuf where
  "encbuf_reset = \<lparr>str = [], lheads = [], lhsize = 0\<rparr>"

definition encbuf_Write :: "bytes \<Rightarrow> encbuf \<Rightarrow> encbuf" where
  "encbuf_Write b w = w\<lparr>str := str w @ b\<rparr>"

definition encodeStringHeader :: "nat \<Rightarrow> encbuf \<Rightarrow> encbuf" where
  "encodeStringHeader sz w =
     (if sz < 56 then w\<lparr>str := str w @ [0x80 + of_nat sz]\<rparr>
      else let s = putint (of_nat sz)
           in w\<lparr>str := str w @ (0xB7 + of_nat (length s)) # s\<rparr>)"

definition encodeString :: "bytes \<Rightarrow> encbuf \<Rightarrow> encbuf" where
  "encodeString b w =
     (if length b = 1 \<and> b ! 0 \<le> 0x7F then w\<lparr>str := str w @ [b ! 0]\<rparr>
      else let w' = encodeStringHeader (length b) w in w'\<lparr>str := str w' @ b\<rparr>)"

definition encbuf_list :: "encbuf \<Rightarrow> encbuf \<times> nat" where
  "encbuf_list w =
     (w\<lparr>lheads := lheads w @ [\<lparr>lhd_offset = length (str w), lhd_size = lhsize w\<rparr>]\<rparr>,
      length (lheads w))"

definition encbuf_size :: "encbuf \<Rightarrow> nat" where
  "encbuf_size w = length (str w) + lhsize w"

definition listEnd :: "nat \<Rightarrow> encbuf \<Rightarrow> encbuf" where
  "listEnd lh w =
     (let h = lheads w ! lh;
          sz = encbuf_size w - lhd_offset h - lhd_size h;
          w' = w\<lparr>lheads := (lheads w)[lh := h\<lparr>lhd_size := sz\<rparr>]\<rparr>
      in if sz < 56 then w'\<lparr>lhsize := lhsize w + 1\<rparr>
         else w'\<lparr>lhsize := lhsize w + (1 + intsize (of_nat sz))\<rparr>)"

text \<open>
  The loop of \<open>toBytes\<close> and \<open>toWriter\<close>: the string data before each header, the header, and
  the data after the last one. \<open>strpos\<close> is the position reached in \<open>s\<close>.
\<close>

fun writeHeads :: "bytes \<Rightarrow> nat \<Rightarrow> listhead list \<Rightarrow> bytes" where
  "writeHeads s strpos [] = drop strpos s"
| "writeHeads s strpos (h # hs) =
     take (lhd_offset h - strpos) (drop strpos s) @ listhead_encode h @
     writeHeads s (strpos + length (take (lhd_offset h - strpos) (drop strpos s))) hs"

definition toWriter :: "encbuf \<Rightarrow> bytes" where
  "toWriter w = writeHeads (str w) 0 (lheads w)"

text \<open>
  \<open>toBytes\<close> writes the same pieces into a buffer of \<open>size()\<close> bytes. A header that does not fit
  is an index out of range; string data that does not fit is cut.
\<close>

fun copyHeads :: "nat \<Rightarrow> bytes \<Rightarrow> bytes \<Rightarrow> nat \<Rightarrow> listhead list \<Rightarrow> bytes res" where
  "copyHeads n out s strpos [] = (
     let piece = take (n - length out) (drop strpos s);
         out' = out @ piece
     in Ok (out' @ replicate (n - length out') 0))"
| "copyHeads n out s strpos (h # hs) =
     (let piece = take (n - length out) (take (lhd_offset h - strpos) (drop strpos s));
          out' = out @ piece;
          enc = listhead_encode h
      in if n < length out' + length enc then Panic ''runtime error: index out of range''
         else copyHeads n (out' @ enc) s (strpos + length piece) hs)"

definition toBytes :: "encbuf \<Rightarrow> bytes res" where
  "toBytes w = copyHeads (encbuf_size w) [] (str w) 0 (lheads w)"

section \<open>Writers\<close>

datatype kind = KByte | KString | KList

text \<open>
  A Go value as the type's writer sees it. \<open>VPtr\<close> carries the kind a nil pointer of its type is
  written as; \<open>VTail\<close> is a slice in a field tagged \<open>tail\<close>.
\<close>

datatype rlpval =
    VUint u64
  | VBool bool
  | VBigInt "int option"
  | VBytes bytes
  | VByteArray bytes
  | VString bytes
  | VInterface "rlpval option"
  | VSlice "rlpval list"
  | VTail "rlpval list"
  | VStruct "rlpval list"
  | VPtr kind "rlpval option"

definition writeUint :: "u64 \<Rightarrow> encbuf \<Rightarrow> encbuf res" where
  "writeUint i w =
     (if i = 0 then Ok (w\<lparr>str := str w @ [0x80]\<rparr>)
      else if i < 128 then Ok (w\<lparr>str := str w @ [ucast i]\<rparr>)
      else let s = putint i in Ok (w\<lparr>str := str w @ (0x80 + of_nat (length s)) # s\<rparr>))"

definition writeBool :: "bool \<Rightarrow> encbuf \<Rightarrow> encbuf res" where
  "writeBool b w = Ok (w\<lparr>str := str w @ [if b then 0x01 else 0x80]\<rparr>)"

definition writeBigInt :: "int \<Rightarrow> encbuf \<Rightarrow> encbuf res" where
  "writeBigInt i w =
     (if i < 0 then Err (GoErr ''rlp: cannot encode negative *big.Int'')
      else if i = 0 then Ok (w\<lparr>str := str w @ [0x80]\<rparr>)
      else Ok (encodeString (min_be (nat i)) w))"

definition writeBigIntPtr :: "int option \<Rightarrow> encbuf \<Rightarrow> encbuf res" where
  "writeBigIntPtr ptr w =
     (case ptr of None \<Rightarrow> Ok (w\<lparr>str := str w @ [0x80]\<rparr>) | Some i \<Rightarrow> writeBigInt i w)"

definition writeBytes :: "bytes \<Rightarrow> encbuf \<Rightarrow> encbuf res" where
  "writeBytes b w = Ok (encodeString b w)"

definition writeByteArray :: "bytes \<Rightarrow> encbuf \<Rightarrow> encbuf res" where
  "writeByteArray b w = Ok (encodeString b w)"

definition writeString :: "bytes \<Rightarrow> encbuf \<Rightarrow> encbuf res" where
  "writeString s w =
     (if length s = 1 \<and> s ! 0 \<le> 0x7f then Ok (w\<lparr>str := str w @ [s ! 0]\<rparr>)
      else let w' = encodeStringHeader (length s) w in Ok (w'\<lparr>str := str w' @ s\<rparr>))"

fun rlp_writer :: "rlpval \<Rightarrow> encbuf \<Rightarrow> encbuf res"
  and rlp_writers :: "rlpval list \<Rightarrow> encbuf \<Rightarrow> encbuf res" where
  "rlp_writer (VUint i) w = writeUint i w"
| "rlp_writer (VBool b) w = writeBool b w"
| "rlp_writer (VBigInt ptr) w = writeBigIntPtr ptr w"
| "rlp_writer (VBytes b) w = writeBytes b w"
| "rlp_writer (VByteArray b) w = writeByteArray b w"
| "rlp_writer (VString s) w = writeString s w"
| "rlp_writer (VInterface None) w = Ok (w\<lparr>str := str w @ [0xC0]\<rparr>)"
| "rlp_writer (VInterface (Some v)) w = rlp_writer v w"
| "rlp_writer (VSlice vs) w =
     (let (w1, lh) = encbuf_list w in res_map (listEnd lh) (rlp_writers vs w1))"
| "rlp_writer (VTail vs) w = rlp_writers vs w"
| "rlp_writer (VStruct vs) w =
     (let (w1, lh) = encbuf_list w in res_map (listEnd lh) (rlp_writers vs w1))"
| "rlp_writer (VPtr nilKind None) w =
     (if nilKind = KString then Ok (w\<lparr>str := str w @ [0x80]\<rparr>)
      else let (w1, lh) = encbuf_list w in Ok (listEnd lh w1))"
| "rlp_writer (VPtr nilKind (Some v)) w = rlp_writer v w"
| "rlp_writers [] w = Ok w"
| "rlp_writers (v # vs) w = res_bind (rlp_writer v w) (rlp_writers vs)"

definition EncodeToBytes :: "rlpval \<Rightarrow> bytes res" where
  "EncodeToBytes v = res_bind (rlp_writer v encbuf_reset) toBytes"

definition Encode :: "rlpval \<Rightarrow> bytes res" where
  "Encode v = res_map toWriter (rlp_writer v encbuf_reset)"

section \<open>The encoding itself\<close>

text \<open>
  The recursive definition the buffered encoder implements: items are strings and lists of
  items, and every list is its header followed by the encodings of its items.
\<close>

datatype rlp_item = RStr bytes | RList "rlp_item list"

definition enc_string :: "bytes \<Rightarrow> bytes" where
  "enc_string b =
     (if length b = 1 \<and> b ! 0 < 0x80 then b
      else puthead 0x80 0xB7 (of_nat (length b)) @ b)"

fun enc_item :: "rlp_item \<Rightarrow> bytes" where
  "enc_item (RStr b) = enc_string b"
| "enc_item (RList xs) =
     (let body = concat (map enc_item xs)
      in puthead 0xC0 0xF7 (of_nat (length body)) @ body)"

definition enc_items :: "rlp_item list \<Rightarrow> bytes" where
  "enc_items xs = concat (map enc_item xs)"

text \<open>
  The items of a Go value: one, or those of a tail. There are none for a negative integer, which
  has no encoding.
\<close>

fun items_of :: "rlpval \<Rightarrow> rlp_item list option"
  and items_of_list :: "rlpval list \<Rightarrow> rlp_item list option" where
  "items_of (VUint i) = Some [RStr (min_be (unat i))]"
| "items_of (VBool b) = Some [RStr (if b then [1] else [])]"
| "items_of (VBigInt ptr) =
     (case ptr of None \<Rightarrow> Some [RStr []]
      | Some i \<Rightarrow> if i < 0 then None else Some [RStr (min_be (nat i))])"
| "items_of (VBytes b) = Some [RStr b]"
| "items_of (VByteArray b) = Some [RStr b]"
| "items_of (VString b) = Some [RStr b]"
| "items_of (VInterface None) = Some [RList []]"
| "items_of (VInterface (Some v)) = items_of v"
| "items_of (VSlice vs) = map_option (\<lambda>xs. [RList xs]) (items_of_list vs)"
| "items_of (VTail vs) = items_of_list vs"
| "items_of (VStruct vs) = map_option (\<lambda>xs. [RList xs]) (items_of_list vs)"
| "items_of (VPtr k None) = Some [if k = KString then RStr [] else RList []]"
| "items_of (VPtr k (Some v)) = items_of v"
| "items_of_list [] = Some []"
| "items_of_list (v # vs) =
     (case (items_of v, items_of_list vs) of
        (Some xs, Some ys) \<Rightarrow> Some (xs @ ys) | _ \<Rightarrow> None)"

section \<open>The buffered encoder implements it\<close>

lemma enc_items_simps [simp]:
  "enc_items [] = []" "enc_items (x # xs) = enc_item x @ enc_items xs"
  "enc_items (xs @ ys) = enc_items xs @ enc_items ys"
  by (simp_all add: enc_items_def)

lemma enc_item_RList [simp]:
  "enc_item (RList xs) = puthead 0xC0 0xF7 (of_nat (length (enc_items xs))) @ enc_items xs"
  by (simp add: enc_items_def Let_def)

declare enc_item.simps(2) [simp del]

text \<open>
  \<open>adds e w w'\<close>: between \<open>w\<close> and \<open>w'\<close> the encoding \<open>e\<close> was added, as string data and closed
  headers that \<open>writeHeads\<close> puts together to \<open>e\<close>.
\<close>

definition adds :: "bytes \<Rightarrow> encbuf \<Rightarrow> encbuf \<Rightarrow> bool" where
  "adds e w w' \<longleftrightarrow> (\<exists>s hs.
     str w' = str w @ s \<and> lheads w' = lheads w @ hs \<and>
     lhsize w' + length s = lhsize w + length e \<and> lhsize w \<le> lhsize w' \<and>
     (\<forall>h \<in> set hs. length (str w) \<le> lhd_offset h) \<and>
     (\<forall>post t. (\<forall>h \<in> set t. length (str w') \<le> lhd_offset h) \<longrightarrow>
        writeHeads (str w' @ post) (length (str w)) (hs @ t) =
        e @ writeHeads (str w' @ post) (length (str w')) t))"

lemma writeHeads_skip:
  assumes "\<forall>h \<in> set t. length pre + length b \<le> lhd_offset h"
  shows "writeHeads (pre @ b @ post) (length pre) t =
    b @ writeHeads (pre @ b @ post) (length pre + length b) t"
proof (cases t)
  case Nil
  then show ?thesis by simp
next
  case (Cons h hs)
  with assms obtain k where "lhd_offset h = length pre + length b + k"
    by (auto simp: le_iff_add)
  with Cons show ?thesis by (simp add: add.assoc)
qed

lemma adds_str: "adds b w (w\<lparr>str := str w @ b\<rparr>)"
  unfolding adds_def using writeHeads_skip [of _ "str w" b]
  by (intro exI [of _ b] exI [of _ "[]"]) simp

lemma adds_refl: "adds [] w w"
  by (simp add: adds_def)

lemma adds_trans:
  assumes "adds e w w1" and "adds f w1 w2"
  shows "adds (e @ f) w w2"
proof -
  from assms(1) obtain s hs where 1: "str w1 = str w @ s" "lheads w1 = lheads w @ hs"
    "lhsize w1 + length s = lhsize w + length e" "lhsize w \<le> lhsize w1"
    "\<forall>h \<in> set hs. length (str w) \<le> lhd_offset h"
    "\<And>post t. \<forall>h \<in> set t. length (str w1) \<le> lhd_offset h \<Longrightarrow>
        writeHeads (str w1 @ post) (length (str w)) (hs @ t) =
        e @ writeHeads (str w1 @ post) (length (str w1)) t"
    by (auto simp: adds_def)
  from assms(2) obtain s' hs' where 2: "str w2 = str w1 @ s'" "lheads w2 = lheads w1 @ hs'"
    "lhsize w2 + length s' = lhsize w1 + length f" "lhsize w1 \<le> lhsize w2"
    "\<forall>h \<in> set hs'. length (str w1) \<le> lhd_offset h"
    "\<And>post t. \<forall>h \<in> set t. length (str w2) \<le> lhd_offset h \<Longrightarrow>
        writeHeads (str w2 @ post) (length (str w1)) (hs' @ t) =
        f @ writeHeads (str w2 @ post) (length (str w2)) t"
    by (auto simp: adds_def)
  have "writeHeads (str w2 @ post) (length (str w)) ((hs @ hs') @ t) =
      (e @ f) @ writeHeads (str w2 @ post) (length (str w2)) t"
    if "\<forall>h \<in> set t. length (str w2) \<le> lhd_offset h" for post t
  proof -
    have "\<forall>h \<in> set (hs' @ t). length (str w1) \<le> lhd_offset h"
      using 2(1,5) that by auto
    from 1(6) [OF this, of "s' @ post"] 2(6) [OF that, of post]
    show ?thesis by (simp add: 2(1))
  qed
  then show ?thesis
    unfolding adds_def using 1(1-5) 2(1-5)
    by (intro exI [of _ "s @ s'"] exI [of _ "hs @ hs'"]) auto
qed

lemma length_header: "length (puthead a b (of_nat sz)) =
    (if sz < 56 then 1 else 1 + intsize (of_nat sz))" if "sz < 2 ^ 64"
  using that by (simp add: length_puthead headsize_def word_less_nat_alt unat_of_nat_u64)

lemma adds_list:
  assumes l: "encbuf_list w = (w1, lh)" and a: "adds e w1 w2" and e: "length e < 2 ^ 64"
  shows "adds (puthead 0xC0 0xF7 (of_nat (length e)) @ e) w (listEnd lh w2)"
proof -
  from l have w1: "w1 = w\<lparr>lheads := lheads w @ [\<lparr>lhd_offset = length (str w), lhd_size = lhsize w\<rparr>]\<rparr>"
    and lh: "lh = length (lheads w)" by (auto simp: encbuf_list_def)
  from a w1 obtain s hs where 1: "str w2 = str w @ s"
    "lheads w2 = lheads w @ \<lparr>lhd_offset = length (str w), lhd_size = lhsize w\<rparr> # hs"
    "lhsize w2 + length s = lhsize w + length e" "lhsize w \<le> lhsize w2"
    "\<forall>h \<in> set hs. length (str w) \<le> lhd_offset h"
    "\<And>post t. \<forall>h \<in> set t. length (str w2) \<le> lhd_offset h \<Longrightarrow>
        writeHeads (str w2 @ post) (length (str w)) (hs @ t) =
        e @ writeHeads (str w2 @ post) (length (str w2)) t"
    by (auto simp: adds_def)
  have "encbuf_size w2 - length (str w) - lhsize w = length e"
    using 1 by (simp add: encbuf_size_def)
  then have w': "listEnd lh w2 = w2\<lparr>
      lheads := lheads w @ \<lparr>lhd_offset = length (str w), lhd_size = length e\<rparr> # hs,
      lhsize := lhsize w2 + length (puthead 0xC0 0xF7 (of_nat (length e)))\<rparr>"
    using 1(2) lh length_header [OF e, of "0xC0" "0xF7"]
    by (simp add: listEnd_def Let_def nth_append list_update_append)
  show ?thesis
    unfolding adds_def w' using 1
    by (intro exI [of _ s] exI [of _ "\<lparr>lhd_offset = length (str w), lhd_size = length e\<rparr> # hs"])
      (auto simp: listhead_encode_def)
qed

lemma adds_reset:
  assumes "adds e encbuf_reset w"
  shows "toWriter w = e \<and> encbuf_size w = length e"
proof -
  from assms [unfolded adds_def] obtain s hs where 1: "str w = str encbuf_reset @ s"
    "lheads w = lheads encbuf_reset @ hs"
    "lhsize w + length s = lhsize encbuf_reset + length e"
    "\<forall>post t. (\<forall>h \<in> set t. length (str w) \<le> lhd_offset h) \<longrightarrow>
        writeHeads (str w @ post) (length (str encbuf_reset)) (hs @ t) =
        e @ writeHeads (str w @ post) (length (str w)) t"
    by blast
  from 1(4) [rule_format, of "[]" "[]"] have "writeHeads (str w) 0 hs = e"
    by (simp add: encbuf_reset_def)
  with 1(1-3) show ?thesis
    by (simp add: toWriter_def encbuf_size_def encbuf_reset_def)
qed

lemma copyHeads_writeHeads:
  "copyHeads (length out + length (writeHeads s pos hs)) out s pos hs =
   Ok (out @ writeHeads s pos hs)"
proof (induction hs arbitrary: out pos)
  case Nil
  show ?case by (simp add: Let_def)
next
  case (Cons h hs)
  define piece where "piece = take (lhd_offset h - pos) (drop pos s)"
  show ?case
    using Cons.IH [of "out @ piece @ listhead_encode h" "pos + length piece"]
    by (simp add: Let_def piece_def [symmetric] add.assoc del: length_take)
qed

lemma ucast_of_nat_u8: "(ucast (of_nat n :: u64) :: u8) = of_nat n"
  by (simp add: word_unat_eq_iff byte_simps unat_of_nat mod_mod_cancel)

lemma enc_string_Nil [simp]: "enc_string [] = [0x80]"
  by (simp add: enc_string_def puthead_def)

lemma encodeStringHeader_puthead:
  assumes "n < 2 ^ 64"
  shows "encodeStringHeader n w = w\<lparr>str := str w @ puthead 0x80 0xB7 (of_nat n)\<rparr>"
proof -
  have "of_nat n < (56 :: u64) \<longleftrightarrow> n < 56"
    using assms by (simp add: word_less_nat_alt unat_of_nat_u64)
  then show ?thesis
    by (simp add: encodeStringHeader_def puthead_def ucast_of_nat_u8 Let_def)
qed

lemma single_byte: "b \<le> 0x7F \<longleftrightarrow> b < (0x80 :: u8)"
  by (simp add: word_le_nat_alt word_less_nat_alt) linarith

lemma encodeString_enc:
  assumes "length b < 2 ^ 64"
  shows "encodeString b w = w\<lparr>str := str w @ enc_string b\<rparr>"
proof (cases "length b = 1 \<and> b ! 0 < 0x80")
  case True
  then have "[b ! 0] = b" by (cases b) auto
  with True show ?thesis
    by (simp add: encodeString_def enc_string_def single_byte)
next
  case False
  with assms show ?thesis
    by (auto simp: encodeString_def enc_string_def single_byte
        encodeStringHeader_puthead Let_def)
qed

lemma writeString_encodeString: "writeString b w = Ok (encodeString b w)"
  by (simp add: writeString_def encodeString_def Let_def)

lemma enc_string_min_be:
  assumes "i \<noteq> 0"
  shows "enc_string (min_be (unat (i :: u64))) =
    (if i < 128 then [ucast i] else (0x80 + of_nat (length (putint i))) # putint i)"
proof (cases "i < 128")
  case True
  then have "unat i < 128" by (simp add: word_less_nat_alt)
  moreover from this have "min_be (unat i) = [ucast i]"
    using assms by (simp add: min_be.simps [of "unat i"] unat_eq_0)
  moreover from this True have "ucast i < (0x80 :: u8)"
    by (simp add: word_less_nat_alt byte_simps)
  ultimately show ?thesis using True by (simp add: enc_string_def)
next
  case False
  have len: "length (min_be (unat i)) \<le> 8" by (rule length_min_be [OF unat_u64_bound])
  have "\<not> (length (min_be (unat i)) = 1 \<and> min_be (unat i) ! 0 < 0x80)"
  proof
    assume single: "length (min_be (unat i)) = 1 \<and> min_be (unat i) ! 0 < 0x80"
    then have "unat i = unat (min_be (unat i) ! 0)"
      using be_val_min_be [of "unat i"] by (auto simp: length_Suc_conv be_val_def)
    with single False show False by (auto simp: word_less_nat_alt)
  qed
  moreover have "of_nat (length (min_be (unat i))) < (56 :: u64)"
    using len by (simp add: word_less_nat_alt unat_of_nat_u64)
  ultimately show ?thesis
    using False assms
    by (simp add: enc_string_def puthead_def putint_min_be ucast_of_nat_u8)
qed

lemma writeUint_enc: "writeUint i w = Ok (w\<lparr>str := str w @ enc_string (min_be (unat i))\<rparr>)"
  by (simp add: writeUint_def enc_string_min_be Let_def)

lemma writeBool_enc: "writeBool b w = Ok (w\<lparr>str := str w @ enc_string (if b then [1] else [])\<rparr>)"
  by (simp add: writeBool_def enc_string_def puthead_def)

lemma length_enc_string: "length b \<le> length (enc_string b)"
  by (simp add: enc_string_def)

lemma writeBigInt_enc:
  assumes "0 \<le> i" and "length (enc_string (min_be (nat i))) < 2 ^ 64"
  shows "writeBigInt i w = Ok (w\<lparr>str := str w @ enc_string (min_be (nat i))\<rparr>)"
  using assms length_enc_string [of "min_be (nat i)"]
  by (simp add: writeBigInt_def encodeString_enc)

lemma rlp_writer_adds:
  "items_of v = Some xs \<Longrightarrow> length (enc_items xs) < 2 ^ 64 \<Longrightarrow>
     \<exists>w'. rlp_writer v w = Ok w' \<and> adds (enc_items xs) w w'"
  "items_of_list vs = Some ys \<Longrightarrow> length (enc_items ys) < 2 ^ 64 \<Longrightarrow>
     \<exists>w'. rlp_writers vs w = Ok w' \<and> adds (enc_items ys) w w'"
proof (induction v w and vs w arbitrary: xs and ys rule: rlp_writer_rlp_writers.induct)
  case (3 ptr w)
  then show ?case
    by (cases ptr) (auto simp: writeBigIntPtr_def writeBigInt_enc adds_str split: if_splits)
next
  case (9 vs w)
  then obtain ys where ys: "items_of_list vs = Some ys" "xs = [RList ys]" by auto
  obtain w1 lh where l: "encbuf_list w = (w1, lh)" by (cases "encbuf_list w")
  from 9 ys l obtain w2 where "rlp_writers vs w1 = Ok w2" "adds (enc_items ys) w1 w2" by fastforce
  with 9 ys l show ?case by (simp add: adds_list [OF l])
next
  case (11 vs w)
  then obtain ys where ys: "items_of_list vs = Some ys" "xs = [RList ys]" by auto
  obtain w1 lh where l: "encbuf_list w = (w1, lh)" by (cases "encbuf_list w")
  from 11 ys l obtain w2 where "rlp_writers vs w1 = Ok w2" "adds (enc_items ys) w1 w2" by fastforce
  with 11 ys l show ?case by (simp add: adds_list [OF l])
next
  case (7 w)
  then show ?case using adds_str [of "[0xC0]" w] by (auto simp: puthead_def)
next
  case (12 k w)
  then show ?case
    using adds_str [of "[0x80]" w] adds_list [of w _ _ "[]", OF _ adds_refl]
    by (auto simp: Let_def split: prod.split)
next
  case (15 v vs w)
  then obtain xs zs where z: "items_of v = Some xs" "items_of_list vs = Some zs" "ys = xs @ zs"
    by (auto split: option.splits)
  with 15 obtain w1 where w1: "rlp_writer v w = Ok w1" "adds (enc_items xs) w w1" by fastforce
  with 15 z obtain w2 where "rlp_writers vs w1 = Ok w2" "adds (enc_items zs) w1 w2" by fastforce
  with z w1 show ?case by (auto intro: adds_trans)
next
  case (4 b w)
  then show ?case using length_enc_string [of b]
    by (auto simp: writeBytes_def encodeString_enc adds_str)
next
  case (5 b w)
  then show ?case using length_enc_string [of b]
    by (auto simp: writeByteArray_def encodeString_enc adds_str)
next
  case (6 b w)
  then show ?case using length_enc_string [of b]
    by (auto simp: writeString_encodeString encodeString_enc adds_str)
qed (auto simp: writeUint_enc writeBool_enc adds_str adds_refl)

definition ErrNegative :: go_error where
  "ErrNegative = GoErr ''rlp: cannot encode negative *big.Int''"

lemma rlp_writer_outcome:
  "case items_of v of None \<Rightarrow> rlp_writer v w = Err ErrNegative
   | Some _ \<Rightarrow> \<exists>w'. rlp_writer v w = Ok w'"
  "case items_of_list vs of None \<Rightarrow> rlp_writers vs w = Err ErrNegative
   | Some _ \<Rightarrow> \<exists>w'. rlp_writers vs w = Ok w'"
proof (induction v w and vs w rule: rlp_writer_rlp_writers.induct)
  case (15 v vs w)
  then show ?case by (auto split: option.splits)
next
  case (9 vs w)
  then show ?case by (cases "encbuf_list w") (fastforce split: option.splits)
next
  case (11 vs w)
  then show ?case by (cases "encbuf_list w") (fastforce split: option.splits)
qed (auto simp: writeUint_def writeBool_def writeBigIntPtr_def writeBigInt_def writeBytes_def
    writeByteArray_def writeString_def ErrNegative_def encbuf_list_def
    Let_def split: option.splits)

lemma EncodeToBytes_items:
  assumes "items_of v = Some xs" and "length (enc_items xs) < 2 ^ 64"
  shows "EncodeToBytes v = Ok (enc_items xs)" "Encode v = Ok (enc_items xs)"
proof -
  from rlp_writer_adds(1) [OF assms, of encbuf_reset] obtain w
    where w: "rlp_writer v encbuf_reset = Ok w" "adds (enc_items xs) encbuf_reset w" by blast
  from adds_reset [OF w(2)] w(1)
  show "EncodeToBytes v = Ok (enc_items xs)" "Encode v = Ok (enc_items xs)"
    using copyHeads_writeHeads [of "[]" "str w" 0 "lheads w"]
    by (simp_all add: EncodeToBytes_def Encode_def toBytes_def toWriter_def)
qed

lemma EncodeToBytes_negative: "items_of v = None \<Longrightarrow> EncodeToBytes v = Err ErrNegative"
  using rlp_writer_outcome(1) [of v encbuf_reset] by (simp add: EncodeToBytes_def)

section \<open>Properties\<close>

text \<open>
  C22: The encoder with its delayed list headers computes the recursive encoding: a value with a
  negative integer inside is refused, and every other value is encoded as the concatenation of
  its items' encodings (\<open>EncodeToBytes\<close> through a buffer of precomputed size, \<open>Encode\<close>
  through a writer).
\<close>

theorem EncodeToBytes_spec:
  "case items_of v of
     None \<Rightarrow> EncodeToBytes v = Err ErrNegative
   | Some xs \<Rightarrow> length (enc_items xs) < 2 ^ 64 \<longrightarrow>
       EncodeToBytes v = Ok (enc_items xs) \<and> Encode v = Ok (enc_items xs)"
  by (simp add: EncodeToBytes_negative EncodeToBytes_items split: option.split)

theorem EncodeToBytes_spec_witness:
  "EncodeToBytes (VStruct [VUint 5, VSlice [VBool True]]) = Ok [0xC3, 5, 0xC1, 1]"
proof -
  have m: "min_be 5 = [5]" by (simp add: min_be.simps)
  have "items_of (VStruct [VUint 5, VSlice [VBool True]]) =
      Some [RList [RStr [5], RList [RStr [1]]]]" by (simp add: m)
  moreover have "enc_items [RList [RStr [5], RList [RStr [1]]]] = [0xC3, 5, 0xC1, 1]"
    by (simp add: enc_string_def puthead_def)
  ultimately show ?thesis
    using EncodeToBytes_spec [of "VStruct [VUint 5, VSlice [VBool True]]"] by simp
qed

end
