(* ===== verification/RLP_Raw.thy ===== *)
theory RLP_Raw
  imports RLP
begin

text \<open>
  Reading raw encodings: \<open>l2geth/rlp/raw.go\<close>. Lengths of slices and positions in them are
  natural numbers; the sizes found in the input are \<open>uint64\<close>. The position \<open>ts+cs\<close> is at most
  the length of the slice, so the addition does not wrap.
\<close>

section \<open>Splitting\<close>

definition ErrExpectedString :: go_error where
  "ErrExpectedString = GoErr ''rlp: expected String or Byte''"

definition ErrExpectedList :: go_error where
  "ErrExpectedList = GoErr ''rlp: expected List''"

definition ErrCanonInt :: go_error where
  "ErrCanonInt = GoErr ''rlp: non-canonical integer format''"

definition ErrCanonSize :: go_error where
  "ErrCanonSize = GoErr ''rlp: non-canonical size information''"

definition ErrElemTooLarge :: go_error where
  "ErrElemTooLarge = GoErr ''rlp: element is larger than containing list''"

definition ErrValueTooLarge :: go_error where
  "ErrValueTooLarge = GoErr ''rlp: value size exceeds available input length''"

definition readSize :: "bytes \<Rightarrow> u8 \<Rightarrow> u64 res" where
  "readSize b slen =
     (if length b < unat slen then Err ErrUnexpectedEOF
      else let s = (if 1 \<le> slen \<and> slen \<le> 8 then of_nat (be_val (take (unat slen) b)) else 0)
           in if s < 56 \<or> b ! 0 = 0 then Err ErrCanonSize else Ok s)"

definition readKind :: "bytes \<Rightarrow> (kind \<times> u64 \<times> u64) res" where
  "readKind buf =
     (if length buf = 0 then Err ErrUnexpectedEOF
      else
        let b = buf ! 0 in
        res_bind
          (if b < 0x80 then Ok (KByte, 0, 1)
           else if b < 0xB8 then
             let contentsize = ucast (b - 0x80) in
             if contentsize = 1 \<and> 1 < length buf \<and> buf ! 1 < 128 then Err ErrCanonSize
             else Ok (KString, 1, contentsize)
           else if b < 0xC0 then
             res_map (\<lambda>cs. (KString, ucast (b - 0xB7) + 1, cs)) (readSize (drop 1 buf) (b - 0xB7))
           else if b < 0xF8 then Ok (KList, 1, ucast (b - 0xC0))
           else
             res_map (\<lambda>cs. (KList, ucast (b - 0xF7) + 1, cs)) (readSize (drop 1 buf) (b - 0xF7)))
          (\<lambda>(k, tagsize, contentsize).
             if length buf - unat tagsize < unat contentsize then Err ErrValueTooLarge
             else Ok (k, tagsize, contentsize)))"

definition Split :: "bytes \<Rightarrow> (kind \<times> bytes \<times> bytes) res" where
  "Split b =
     res_map (\<lambda>(k, ts, cs).
       (k, take (unat cs) (drop (unat ts) b), drop (unat ts + unat cs) b)) (readKind b)"

definition SplitString :: "bytes \<Rightarrow> (bytes \<times> bytes) res" where
  "SplitString b =
     res_bind (Split b) (\<lambda>(k, content, rest).
       if k = KList then Err ErrExpectedString else Ok (content, rest))"

definition SplitList :: "bytes \<Rightarrow> (bytes \<times> bytes) res" where
  "SplitList b =
     res_bind (Split b) (\<lambda>(k, content, rest).
       if k \<noteq> KList then Err ErrExpectedList else Ok (content, rest))"

section \<open>Splitting inverts encoding\<close>

text \<open>The encoding of a piece of a given kind, and which pieces have that kind.\<close>

fun enc_piece :: "kind \<times> bytes \<Rightarrow> bytes" where
  "enc_piece (KByte, c) = c"
| "enc_piece (KString, c) = puthead 0x80 0xB7 (of_nat (length c)) @ c"
| "enc_piece (KList, c) = puthead 0xC0 0xF7 (of_nat (length c)) @ c"

fun piece_ok :: "kind \<times> bytes \<Rightarrow> bool" where
  "piece_ok (KByte, c) \<longleftrightarrow> length c = 1 \<and> c ! 0 < 0x80"
| "piece_ok (KString, c) \<longleftrightarrow> \<not> (length c = 1 \<and> c ! 0 < 0x80) \<and> length c < 2 ^ 64"
| "piece_ok (KList, c) \<longleftrightarrow> length c < 2 ^ 64"

lemma unat_u8_plus: "unat (a + b :: u8) = (unat a + unat b) mod 256"
  by (simp add: unat_word_ariths)

lemma unat_u8_minus: "b \<le> a \<Longrightarrow> unat (a - b :: u8) = unat a - unat b"
  by (rule unat_sub)

lemma readSize_putint:
  assumes "56 \<le> (sz :: u64)"
  shows "readSize (putint sz @ r) (of_nat (length (putint sz))) = Ok sz"
proof -
  have nz: "sz \<noteq> 0" using assms by auto
  have len: "1 \<le> length (putint sz)" "length (putint sz) \<le> 8"
    using intsize_bounds [of sz] by (simp_all add: length_putint)
  have slen: "unat (of_nat (length (putint sz)) :: u8) = length (putint sz)"
    using len by (simp add: unat_of_nat_u8)
  have "hd (putint sz) \<noteq> 0" using nz by (simp add: putint_min_be min_be_hd unat_gt_0)
  then have hd: "(putint sz @ r) ! 0 \<noteq> 0" using len by (cases "putint sz") auto
  have "of_nat (be_val (putint sz)) = sz" using nz by (simp add: putint_min_be byte_simps)
  with assms hd len slen show ?thesis
    by (simp add: readSize_def word_le_nat_alt Let_def not_less)
qed

lemma readSize_Ok:
  assumes "readSize b slen = Ok s"
  shows "56 \<le> s \<and> 1 \<le> slen \<and> slen \<le> 8 \<and> unat slen \<le> length b \<and>
    take (unat slen) b = putint s"
proof -
  from assms have 1: "unat slen \<le> length b" "1 \<le> slen \<and> slen \<le> 8"
    "s = of_nat (be_val (take (unat slen) b))" "56 \<le> s" "b ! 0 \<noteq> 0"
    by (auto simp: readSize_def Let_def not_less split: if_splits)
  then have n: "1 \<le> unat slen" "unat slen \<le> 8" by (simp_all add: word_le_nat_alt)
  define t where "t = take (unat slen) b"
  have t: "length t = unat slen" using 1(1) by (simp add: t_def)
  have "be_val t < 256 ^ unat slen" using be_val_less [of t] t by simp
  also have "(256 :: nat) ^ unat slen \<le> 256 ^ 8" using n by (intro power_increasing) auto
  finally have "unat s = be_val t" using 1(3) by (simp add: t_def unat_of_nat_u64)
  moreover have "hd t \<noteq> 0" using 1(1,5) n by (cases b) (auto simp: t_def)
  moreover have "t \<noteq> []" using t n by auto
  moreover have "s \<noteq> 0" using 1(4) by auto
  ultimately have "putint s = t" by (simp add: putint_min_be min_be_be_val)
  with 1 show ?thesis by (simp add: t_def)
qed

lemma puthead_small: "sz < 56 \<Longrightarrow> puthead a b sz = [a + ucast sz]"
  by (simp add: puthead_def)

lemma puthead_large: "56 \<le> sz \<Longrightarrow> puthead a b sz = (b + of_nat (length (putint sz))) # putint sz"
  by (simp add: puthead_def Let_def not_less [symmetric])

lemma readKind_puthead_small:
  assumes "sz < 56" and "unat sz \<le> length c"
  shows "\<not> (sz = 1 \<and> c ! 0 < 0x80) \<Longrightarrow>
      readKind (puthead 0x80 0xB7 sz @ c) = Ok (KString, 1, sz)"
    and "readKind (puthead 0xC0 0xF7 sz @ c) = Ok (KList, 1, sz)"
proof -
  have n: "unat sz < 56" using assms by (simp add: word_less_nat_alt)
  have u: "unat (ucast sz :: u8) = unat sz" using n by (simp add: unat_ucast_u8)
  have "unat (0x80 + ucast sz :: u8) = 128 + unat sz" "unat (0xC0 + ucast sz :: u8) = 192 + unat sz"
    using n u by (simp_all add: unat_u8_plus)
  moreover have "ucast (ucast sz :: u8) = sz"
    using u by (simp only: word_unat_eq_iff unat_ucast_u64)
  ultimately show
    "\<not> (sz = 1 \<and> c ! 0 < 0x80) \<Longrightarrow> readKind (puthead 0x80 0xB7 sz @ c) = Ok (KString, 1, sz)"
    "readKind (puthead 0xC0 0xF7 sz @ c) = Ok (KList, 1, sz)"
    using n assms by (auto simp: readKind_def puthead_small Let_def word_less_nat_alt)
qed

lemma readKind_puthead_large:
  assumes "56 \<le> sz" and "unat sz \<le> length c"
  shows "readKind (puthead 0x80 0xB7 sz @ c) = Ok (KString, of_nat (headsize sz), sz)"
    and "readKind (puthead 0xC0 0xF7 sz @ c) = Ok (KList, of_nat (headsize sz), sz)"
proof -
  define n where "n = length (putint sz)"
  have n: "1 \<le> n" "n \<le> 8" using intsize_bounds [of sz] by (simp_all add: n_def length_putint)
  have hs: "headsize sz = 1 + n" using assms by (simp add: headsize_def n_def length_putint not_less [symmetric])
  have u: "unat (of_nat n :: u8) = n" using n by (simp add: unat_of_nat_u8)
  have tags: "unat (0xB7 + of_nat n :: u8) = 183 + n" "unat (0xF7 + of_nat n :: u8) = 247 + n"
    using n u by (simp_all add: unat_u8_plus)
  have c: "(ucast (of_nat n :: u8) :: u64) + 1 = of_nat (1 + n)"
    using u n by (simp add: word_unat_eq_iff unat_word_ariths unat_ucast_u64 unat_of_nat)
  have ts: "unat ((of_nat n :: u64) + 1) = n + 1"
    using n by (simp add: unat_word_ariths unat_of_nat)
  note rs = readSize_putint [OF assms(1), of c, folded n_def]
  show "readKind (puthead 0x80 0xB7 sz @ c) = Ok (KString, of_nat (headsize sz), sz)"
    and "readKind (puthead 0xC0 0xF7 sz @ c) = Ok (KList, of_nat (headsize sz), sz)"
    unfolding puthead_large [OF assms(1)] n_def [symmetric] hs
    using n tags rs c ts assms(2)
    by (auto simp: readKind_def Let_def word_less_nat_alt n_def [symmetric] unat_of_nat)
qed

lemma readKind_puthead:
  assumes "length c < 2 ^ 64"
  defines "sz \<equiv> of_nat (length c) :: u64"
  shows "\<not> (length c = 1 \<and> c ! 0 < 0x80) \<Longrightarrow>
      readKind (puthead 0x80 0xB7 sz @ c @ r) = Ok (KString, of_nat (headsize sz), sz)"
    and "readKind (puthead 0xC0 0xF7 sz @ c @ r) = Ok (KList, of_nat (headsize sz), sz)"
proof -
  have len: "unat sz = length c" using assms by (simp add: unat_of_nat_u64)
  then have one: "sz = 1 \<longleftrightarrow> length c = 1" by (simp add: word_unat_eq_iff)
  have hd: "length c = 1 \<Longrightarrow> (c @ r) ! 0 = c ! 0" by (simp add: nth_append)
  show "readKind (puthead 0xC0 0xF7 sz @ c @ r) = Ok (KList, of_nat (headsize sz), sz)"
    using readKind_puthead_small [of sz "c @ r"] readKind_puthead_large [of sz "c @ r"] len
    by (cases "sz < 56") (simp_all add: not_less leD headsize_def)
  show "readKind (puthead 0x80 0xB7 sz @ c @ r) = Ok (KString, of_nat (headsize sz), sz)"
    if "\<not> (length c = 1 \<and> c ! 0 < 0x80)"
    using readKind_puthead_small [of sz "c @ r"] readKind_puthead_large [of sz "c @ r"] len one hd that
    by (cases "sz < 56") (auto simp add: not_less leD headsize_def)
qed

lemma unat_headsize: "unat (of_nat (headsize sz) :: u64) = headsize sz"
  using intsize_bounds [of sz] by (simp add: headsize_def unat_of_nat)

lemma Split_enc_piece:
  assumes "piece_ok p"
  shows "Split (enc_piece p @ r) = Ok (fst p, snd p, r)"
proof (cases p rule: piece_ok.cases)
  case (1 c)
  with assms obtain x where "c = [x]" "x < 0x80" by (auto simp: length_Suc_conv)
  with 1 show ?thesis by (simp add: Split_def readKind_def Let_def)
next
  case (2 c)
  with assms readKind_puthead(1) [of c r] show ?thesis
    by (simp add: Split_def unat_headsize length_puthead unat_of_nat_u64)
next
  case (3 c)
  with assms readKind_puthead(2) [of c r] show ?thesis
    by (simp add: Split_def unat_headsize length_puthead unat_of_nat_u64)
qed

lemma ucast_ucast_u8 [simp]: "(ucast (ucast (z :: u8) :: u64) :: u8) = z"
  using unat_u8_less [of z] by (simp only: word_unat_eq_iff unat_ucast_u8 unat_ucast_u64) simp

lemma readKind_Ok:
  assumes "readKind buf = Ok (k, ts, cs)"
  obtains x xs where "buf = x # xs" "unat cs \<le> Suc (length xs) - unat ts"
    "(k = KByte \<and> ts = 0 \<and> cs = 1 \<and> x < 0x80) \<or>
     (k = KString \<and> cs < 56 \<and> ts = 1 \<and> x = 0x80 + ucast cs \<and>
       \<not> (cs = 1 \<and> xs \<noteq> [] \<and> xs ! 0 < 128)) \<or>
     (k = KList \<and> cs < 56 \<and> ts = 1 \<and> x = 0xC0 + ucast cs) \<or>
     (\<exists>slen a. readSize xs slen = Ok cs \<and> ts = ucast slen + 1 \<and> x = a + slen \<and>
       (k = KString \<and> a = 0xB7 \<or> k = KList \<and> a = 0xF7))"
proof -
  from assms obtain x xs where b: "buf = x # xs" by (cases buf) (auto simp: readKind_def)
  have small: "ucast (x - y) < (56 :: u64) \<and> x = y + ucast (ucast (x - y) :: u64)"
    if "y \<le> x" "unat x < unat y + 56" for y
    using that by (simp add: word_less_nat_alt unat_ucast_u64 unat_u8_minus ucast_ucast_u8)
  show ?thesis
    using assms b small [of "0x80"] small [of "0xC0"]
    by (intro that [of x xs]) (auto simp: readKind_def Let_def res_bind_eq_Ok res_map_eq_Ok
        word_less_nat_alt word_le_nat_alt split: if_splits)
qed

lemma Split_Ok:
  assumes "Split b = Ok (k, c, r)"
  shows "piece_ok (k, c) \<and> b = enc_piece (k, c) @ r"
proof -
  from assms obtain ts cs where 1: "readKind b = Ok (k, ts, cs)"
    "c = take (unat cs) (drop (unat ts) b)" "r = drop (unat ts + unat cs) b"
    by (auto simp: Split_def res_map_eq_Ok)
  from 1(1) obtain x xs where b: "b = x # xs" and len: "unat cs \<le> Suc (length xs) - unat ts"
    and alt: "(k = KByte \<and> ts = 0 \<and> cs = 1 \<and> x < 0x80) \<or>
     (k = KString \<and> cs < 56 \<and> ts = 1 \<and> x = 0x80 + ucast cs \<and>
       \<not> (cs = 1 \<and> xs \<noteq> [] \<and> xs ! 0 < 128)) \<or>
     (k = KList \<and> cs < 56 \<and> ts = 1 \<and> x = 0xC0 + ucast cs) \<or>
     (\<exists>slen a. readSize xs slen = Ok cs \<and> ts = ucast slen + 1 \<and> x = a + slen \<and>
       (k = KString \<and> a = 0xB7 \<or> k = KList \<and> a = 0xF7))"
    by (rule readKind_Ok)
  have cs: "length c < 2 ^ 64" using 1(2) unat_u64_less [of cs] by simp
  have lc: "of_nat (length c) = cs" using 1(2) len b by (auto simp: min_def)
  from alt consider "k = KByte" "ts = 0" "cs = 1" "x < 0x80"
    | "k = KString" "cs < 56" "ts = 1" "x = 0x80 + ucast cs"
       "\<not> (cs = 1 \<and> xs \<noteq> [] \<and> xs ! 0 < 128)"
    | "k = KList" "cs < 56" "ts = 1" "x = 0xC0 + ucast cs"
    | slen a where "readSize xs slen = Ok cs" "ts = ucast slen + 1" "x = a + slen"
       "k = KString \<and> a = 0xB7 \<or> k = KList \<and> a = 0xF7" by blast
  then show ?thesis
  proof cases
    case 1
    then show ?thesis using \<open>c = _\<close> \<open>r = _\<close> b by simp
  next
    case 2
    have "cs = 1 \<longleftrightarrow> unat cs = 1" by (simp add: word_unat_eq_iff)
    with 2 show ?thesis using \<open>c = _\<close> \<open>r = _\<close> b lc cs len
      by (cases xs) (auto simp: puthead_small)
  next
    case 3
    then show ?thesis using \<open>c = _\<close> \<open>r = _\<close> b lc cs by (simp add: puthead_small)
  next
    case (4 slen a)
    from readSize_Ok [OF 4(1)] have s: "56 \<le> cs" "1 \<le> slen" "slen \<le> 8" "unat slen \<le> length xs"
      "take (unat slen) xs = putint cs" by auto
    then have "length (putint cs) = unat slen" by (simp flip: s(5))
    then have sl: "slen = of_nat (length (putint cs))" by simp
    have "unat ts = Suc (unat slen)"
      using 4(2) s(3) by (simp add: unat_word_ariths unat_ucast_u64 word_le_nat_alt)
    then have "c = take (unat cs) (drop (unat slen) xs)" "r = drop (unat slen + unat cs) xs"
      using \<open>c = _\<close> \<open>r = _\<close> b by simp_all
    then have xs: "xs = putint cs @ c @ r"
      using s(5) by (metis append_take_drop_id drop_drop add.commute)
    have many: "\<not> (length c = 1 \<and> c ! 0 < 128)"
      using s(1) lc by (auto simp: word_le_nat_alt)
    have "b = (a + of_nat (length (putint cs))) # putint cs @ c @ r"
      unfolding b xs 4(3) sl ..
    with 4(4) many show ?thesis by (auto simp only: piece_ok.simps enc_piece.simps lc cs
          puthead_large [OF s(1)] append_Cons append_assoc)
  qed
qed

interpretation rlp_split: canonical_codec enc_piece
  "\<lambda>b. res_map (\<lambda>(k, c, r). ((k, c), r)) (Split b)" piece_ok
proof
  fix p :: "kind \<times> bytes" and r
  assume "piece_ok p"
  then show "res_map (\<lambda>(k, c, r). ((k, c), r)) (Split (enc_piece p @ r)) = Ok (p, r)"
    by (simp add: Split_enc_piece)
next
  fix b and p :: "kind \<times> bytes" and r
  assume "res_map (\<lambda>(k, c, r). ((k, c), r)) (Split b) = Ok (p, r)"
  then show "piece_ok p \<and> b = enc_piece p @ r"
    by (cases p) (auto simp: res_map_eq_Ok dest: Split_Ok)
qed

section \<open>Counting values\<close>

text \<open>Every value takes at least one byte, so the loop of \<open>CountValues\<close> ends.\<close>

lemma readKind_advances:
  assumes "readKind b = Ok (k, ts, cs)"
  shows "b \<noteq> [] \<and> 0 < unat ts + unat cs"
proof (rule readKind_Ok [OF assms])
  have "0 < unat (ucast slen + 1 :: u64)" for slen :: u8
    using unat_u8_less [of slen] by (simp add: unat_word_ariths unat_ucast_u64)
  then show ?thesis if "b = x # xs" and "(k = KByte \<and> ts = 0 \<and> cs = 1 \<and> x < 0x80) \<or>
     (k = KString \<and> cs < 56 \<and> ts = 1 \<and> x = 0x80 + ucast cs \<and>
       \<not> (cs = 1 \<and> xs \<noteq> [] \<and> xs ! 0 < 128)) \<or>
     (k = KList \<and> cs < 56 \<and> ts = 1 \<and> x = 0xC0 + ucast cs) \<or>
     (\<exists>slen a. readSize xs slen = Ok cs \<and> ts = ucast slen + 1 \<and> x = a + slen \<and>
       (k = KString \<and> a = 0xB7 \<or> k = KList \<and> a = 0xF7))" for x xs
    using that by auto
qed

function CountValues :: "bytes \<Rightarrow> nat res" where
  "CountValues b =
     (if b = [] then Ok 0
      else case readKind b of
          Ok (k, tagsize, sz) \<Rightarrow> res_map Suc (CountValues (drop (unat tagsize + unat sz) b))
        | Err e \<Rightarrow> Err e
        | Panic s \<Rightarrow> Panic s)"
  by pat_completeness auto
termination
  by (relation "measure length") (auto dest!: readKind_advances)

declare CountValues.simps [simp del]

lemma enc_item_piece:
  assumes "length (enc_item x) < 2 ^ 64"
  obtains p where "enc_item x = enc_piece p" "piece_ok p"
proof (cases x)
  case (RStr b)
  show ?thesis
  proof (cases "length b = 1 \<and> b ! 0 < 0x80")
    case True
    with RStr show ?thesis by (intro that [of "(KByte, b)"]) (simp_all add: enc_string_def)
  next
    case False
    with RStr assms show ?thesis
      by (intro that [of "(KString, b)"]) (auto simp: enc_string_def)
  qed
next
  case (RList xs)
  with assms show ?thesis by (intro that [of "(KList, enc_items xs)"]) simp_all
qed

lemma CountValues_readKind:
  "readKind b = Ok (k, ts, cs) \<Longrightarrow>
   CountValues b = res_map Suc (CountValues (drop (unat ts + unat cs) b))"
  using readKind_advances [of b k ts cs] by (simp add: CountValues.simps [of b])

lemma CountValues_piece:
  assumes "piece_ok p"
  shows "CountValues (enc_piece p @ r) = res_map Suc (CountValues r)"
proof -
  from Split_enc_piece [OF assms, of r] obtain ts cs
    where "readKind (enc_piece p @ r) = Ok (fst p, ts, cs)"
      and d: "drop (unat ts + unat cs) (enc_piece p @ r) = r"
    by (auto simp: Split_def res_map_eq_Ok)
  from CountValues_readKind [OF this(1)] show ?thesis unfolding d .
qed

lemma CountValues_enc_items:
  "length (enc_items xs) < 2 ^ 64 \<Longrightarrow> CountValues (enc_items xs) = Ok (length xs)"
proof (induction xs)
  case Nil
  show ?case by (simp add: CountValues.simps)
next
  case (Cons x xs)
  then obtain p where "enc_item x = enc_piece p" "piece_ok p"
    using enc_item_piece [of x] by auto
  with Cons show ?case by (simp add: CountValues_piece)
qed

section \<open>Properties\<close>

text \<open>
  C23: \<open>Split\<close> inverts the encoding exactly: it returns a kind, a content and a rest if and only
  if the input is the canonical encoding of a value of that kind with that content, followed by
  the rest. Values that overrun the input, sizes with leading zeros and sizes that should have
  been written shorter are all refused.
\<close>

theorem Split_iff: "Split b = Ok (k, c, r) \<longleftrightarrow> piece_ok (k, c) \<and> b = enc_piece (k, c) @ r"
  using Split_Ok [of b k c r] Split_enc_piece [of "(k, c)" r] by auto

text \<open>
  \<open>CountValues\<close> ends on every input, and on a sequence of encoded items it returns their
  number.
\<close>

theorem CountValues_spec:
  assumes "length (enc_items xs) < 2 ^ 64"
  shows "CountValues (enc_items xs) = Ok (length xs)"
  using assms by (rule CountValues_enc_items)

theorem CountValues_spec_witness: "CountValues [0xC1, 0x80, 0x05] = Ok 2"
proof -
  have "enc_items [RList [RStr []], RStr [5]] = [0xC1, 0x80, 0x05]"
    by (simp add: enc_string_def puthead_def)
  then show ?thesis using CountValues_spec [of "[RList [RStr []], RStr [5]]"] by simp
qed

end
