(* ===== verification/RLP_Stream.thy ===== *)
theory RLP_Stream
  imports RLP_Raw
begin

text \<open>
  The streaming decoder of \<open>l2geth/rlp/decode.go\<close>. A \<open>Stream\<close> is a record; every operation
  returns its outcome and the stream it leaves. The stack of open lists has its top at the head.
  Decoders are found by reflection on the type of the target; here the shape of the type is the
  datatype \<open>rlptype\<close>. The scratch buffer \<open>uintbuf\<close> is not modelled.
\<close>

section \<open>Streams\<close>

record listpos =
  lp_pos :: u64
  lp_size :: u64

record Stream =
  sr :: bytes
  remaining :: u64
  limited :: bool
  skind :: "kind option"
  ssize :: u64
  byteval :: u8
  kinderr :: "go_error option"
  stack :: "listpos list"

fun Kind_String :: "kind \<Rightarrow> string" where
  "Kind_String KByte = ''Byte''"
| "Kind_String KString = ''String''"
| "Kind_String KList = ''List''"

definition EOL :: go_error where
  "EOL = GoErr ''rlp: end of list''"

definition ErrMoreThanOneValue :: go_error where
  "ErrMoreThanOneValue = GoErr ''rlp: input contains more than one value''"

definition errNotInList :: go_error where
  "errNotInList = GoErr ''rlp: call of ListEnd outside of any list''"

definition errNotAtEOL :: go_error where
  "errNotAtEOL = GoErr ''rlp: call of ListEnd not positioned at EOL''"

definition errUintOverflow :: go_error where
  "errUintOverflow = GoErr ''rlp: uint overflow''"

text \<open>Go on with \<open>f\<close> unless the operation failed.\<close>

fun andThen :: "'a res \<times> Stream \<Rightarrow> ('a \<Rightarrow> Stream \<Rightarrow> 'b res \<times> Stream) \<Rightarrow> 'b res \<times> Stream" where
  "andThen (Ok x, s) f = f x s"
| "andThen (Err e, s) f = (Err e, s)"
| "andThen (Panic p, s) f = (Panic p, s)"

definition willRead :: "u64 \<Rightarrow> Stream \<Rightarrow> unit res \<times> Stream" where
  "willRead n s =
     (let s = s\<lparr>skind := None\<rparr> in
      andThen
        (case stack s of
           [] \<Rightarrow> (Ok (), s)
         | tos # st \<Rightarrow>
             if lp_size tos - lp_pos tos < n then (Err ErrElemTooLarge, s)
             else (Ok (), s\<lparr>stack := tos\<lparr>lp_pos := lp_pos tos + n\<rparr> # st\<rparr>))
        (\<lambda>_ s.
           if limited s then
             if remaining s < n then (Err ErrValueTooLarge, s)
             else (Ok (), s\<lparr>remaining := remaining s - n\<rparr>)
           else (Ok (), s)))"

definition stream_readFull :: "nat \<Rightarrow> Stream \<Rightarrow> bytes res \<times> Stream" where
  "stream_readFull n s =
     andThen (willRead (of_nat n) s) (\<lambda>_ s.
       if length (sr s) < n then (Err ErrUnexpectedEOF, s\<lparr>sr := []\<rparr>)
       else (Ok (take n (sr s)), s\<lparr>sr := drop n (sr s)\<rparr>))"

definition readByte :: "Stream \<Rightarrow> u8 res \<times> Stream" where
  "readByte s =
     andThen (willRead 1 s) (\<lambda>_ s.
       case sr s of
         [] \<Rightarrow> (Err ErrUnexpectedEOF, s)
       | b # r \<Rightarrow> (Ok b, s\<lparr>sr := r\<rparr>))"

definition stream_readUint :: "u8 \<Rightarrow> Stream \<Rightarrow> u64 res \<times> Stream" where
  "stream_readUint sz s =
     (if sz = 0 then (Ok 0, s\<lparr>skind := None\<rparr>)
      else if sz = 1 then andThen (readByte s) (\<lambda>b s. (Ok (ucast b), s))
      else if 8 < sz then (Panic ''runtime error: slice bounds out of range'', s)
      else andThen (stream_readFull (unat sz) s) (\<lambda>buf s.
        if buf ! 0 = 0 then (Err ErrCanonSize, s) else (Ok (of_nat (be_val buf)), s)))"

text \<open>
  \<open>readKind\<close> returns a kind and a size beside its error, and \<open>Kind\<close> keeps all three; an
  outcome \<open>Err\<close> of the model is only used for a panic inside.
\<close>

definition stream_readKind :: "Stream \<Rightarrow> (kind \<times> u64 \<times> go_error option) res \<times> Stream" where
  "stream_readKind s =
     (case readByte s of
        (Panic p, s) \<Rightarrow> (Panic p, s)
      | (Err e, s) \<Rightarrow>
          (Ok (KByte, 0, Some (
             if stack s = [] \<and> (e = ErrUnexpectedEOF \<or> e = ErrValueTooLarge) then EOF else e)), s)
      | (Ok b, s) \<Rightarrow>
          let s = s\<lparr>byteval := 0\<rparr>;
              long = (\<lambda>k n. case stream_readUint n s of
                 (Ok v, s) \<Rightarrow> (Ok (k, v, if v < 56 then Some ErrCanonSize else None), s)
               | (Err e, s) \<Rightarrow> (Ok (k, 0, Some e), s)
               | (Panic p, s) \<Rightarrow> (Panic p, s))
          in if b < 0x80 then (Ok (KByte, 0, None), s\<lparr>byteval := b\<rparr>)
             else if b < 0xB8 then (Ok (KString, ucast (b - 0x80), None), s)
             else if b < 0xC0 then long KString (b - 0xB7)
             else if b < 0xF8 then (Ok (KList, ucast (b - 0xC0), None), s)
             else long KList (b - 0xF7))"

definition Kind_cached :: "Stream \<Rightarrow> kind \<Rightarrow> (kind \<times> u64) res \<times> Stream" where
  "Kind_cached s k =
     (case kinderr s of Some e \<Rightarrow> (Err e, s) | None \<Rightarrow> (Ok (k, ssize s), s))"

definition Kind :: "Stream \<Rightarrow> (kind \<times> u64) res \<times> Stream" where
  "Kind s =
     (case skind s of
        Some k \<Rightarrow> Kind_cached s k
      | None \<Rightarrow>
          let s = s\<lparr>kinderr := None\<rparr> in
          if (case stack s of [] \<Rightarrow> False | tos # _ \<Rightarrow> lp_pos tos = lp_size tos)
          then (Err EOL, s)
          else andThen (stream_readKind s) (\<lambda>(k, sz, err) s.
            let err' = (case err of Some e \<Rightarrow> Some e | None \<Rightarrow>
                  (case stack s of
                     [] \<Rightarrow> if limited s \<and> remaining s < sz then Some ErrValueTooLarge else None
                   | tos # _ \<Rightarrow>
                       if lp_size tos - lp_pos tos < sz then Some ErrElemTooLarge else None))
            in Kind_cached (s\<lparr>skind := Some k, ssize := sz, kinderr := err'\<rparr>) k))"

definition stream_Bytes :: "Stream \<Rightarrow> bytes res \<times> Stream" where
  "stream_Bytes s =
     andThen (Kind s) (\<lambda>(k, sz) s.
       case k of
         KByte \<Rightarrow> (Ok [byteval s], s\<lparr>skind := None\<rparr>)
       | KString \<Rightarrow> andThen (stream_readFull (unat sz) s) (\<lambda>b s.
           if sz = 1 \<and> b ! 0 < 128 then (Err ErrCanonSize, s) else (Ok b, s))
       | KList \<Rightarrow> (Err ErrExpectedString, s))"

definition Raw :: "Stream \<Rightarrow> bytes res \<times> Stream" where
  "Raw s =
     andThen (Kind s) (\<lambda>(k, sz) s.
       if k = KByte then (Ok [byteval s], s\<lparr>skind := None\<rparr>)
       else andThen (stream_readFull (unat sz) s) (\<lambda>content s.
         (Ok ((if k = KString then puthead 0x80 0xB7 sz else puthead 0xC0 0xF7 sz) @ content), s)))"

definition stream_uint :: "nat \<Rightarrow> Stream \<Rightarrow> u64 res \<times> Stream" where
  "stream_uint maxbits s =
     andThen (Kind s) (\<lambda>(k, sz) s.
       case k of
         KByte \<Rightarrow> if byteval s = 0 then (Err ErrCanonInt, s)
                  else (Ok (ucast (byteval s)), s\<lparr>skind := None\<rparr>)
       | KString \<Rightarrow>
           if maxbits div 8 < unat sz then (Err errUintOverflow, s)
           else (case stream_readUint (ucast sz) s of
               (Ok v, s) \<Rightarrow> if 0 < sz \<and> v < 128 then (Err ErrCanonSize, s) else (Ok v, s)
             | (Err e, s) \<Rightarrow> (Err (if e = ErrCanonSize then ErrCanonInt else e), s)
             | (Panic p, s) \<Rightarrow> (Panic p, s))
       | KList \<Rightarrow> (Err ErrExpectedString, s))"

definition stream_Uint :: "Stream \<Rightarrow> u64 res \<times> Stream" where
  "stream_Uint s = stream_uint 64 s"

definition stream_Bool :: "Stream \<Rightarrow> bool res \<times> Stream" where
  "stream_Bool s =
     andThen (stream_uint 8 s) (\<lambda>num s.
       if num = 0 then (Ok False, s)
       else if num = 1 then (Ok True, s)
       else (Err (GoErr (''rlp: invalid boolean value: '' @ showNat (unat num))), s))"

definition stream_List :: "Stream \<Rightarrow> u64 res \<times> Stream" where
  "stream_List s =
     andThen (Kind s) (\<lambda>(k, sz) s.
       if k \<noteq> KList then (Err ErrExpectedList, s)
       else (Ok sz, s\<lparr>stack := \<lparr>lp_pos = 0, lp_size = sz\<rparr> # stack s, skind := None, ssize := 0\<rparr>))"

definition ListEnd :: "Stream \<Rightarrow> unit res \<times> Stream" where
  "ListEnd s =
     (case stack s of
        [] \<Rightarrow> (Err errNotInList, s)
      | tos # st \<Rightarrow>
          if lp_pos tos \<noteq> lp_size tos then (Err errNotAtEOL, s)
          else
            let st' = (case st of [] \<Rightarrow> [] | t # ts \<Rightarrow> t\<lparr>lp_pos := lp_pos t + lp_size tos\<rparr> # ts)
            in (Ok (), s\<lparr>stack := st', skind := None, ssize := 0\<rparr>))"

text \<open>
  \<open>Reset\<close> finds the limit by itself for a \<open>bytes.Reader\<close> or \<open>strings.Reader\<close> (\<open>sized\<close>). With
  another reader \<open>remaining\<close> keeps its old value, which is not used.
\<close>

definition Reset :: "bool \<Rightarrow> bytes \<Rightarrow> u64 \<Rightarrow> Stream \<Rightarrow> Stream" where
  "Reset sized r inputLimit s =
     \<lparr>sr = r,
      remaining = (if 0 < inputLimit then inputLimit
                   else if sized then of_nat (length r) else remaining s),
      limited = (0 < inputLimit \<or> sized),
      skind = None, ssize = 0, byteval = 0, kinderr = None, stack = []\<rparr>"

definition NewStream :: "bool \<Rightarrow> bytes \<Rightarrow> u64 \<Rightarrow> Stream" where
  "NewStream sized r inputLimit =
     Reset sized r inputLimit
       \<lparr>sr = [], remaining = 0, limited = False, skind = Some KByte, ssize = 0, byteval = 0,
        kinderr = None, stack = []\<rparr>"

definition NewListStream :: "bool \<Rightarrow> bytes \<Rightarrow> u64 \<Rightarrow> Stream" where
  "NewListStream sized r len = (NewStream sized r len)\<lparr>skind := Some KList, ssize := len\<rparr>"

section \<open>Decoders\<close>

text \<open>
  A \<open>decodeError\<close> has a message with the type, and the path of fields it occurred in, which
  \<open>addErrorContext\<close> extends; other errors have no path. The names in the constructors are the
  ones Go prints.
\<close>

definition decodeError :: "string \<Rightarrow> string \<Rightarrow> go_error" where
  "decodeError msg typ = GoWrap (''rlp: '' @ msg @ '' for '' @ typ) (GoErr [])"

definition wrapStreamError :: "string \<Rightarrow> go_error \<Rightarrow> go_error" where
  "wrapStreamError typ err =
     (if err = ErrCanonInt then decodeError ''non-canonical integer (leading zero bytes)'' typ
      else if err = ErrCanonSize then decodeError ''non-canonical size information'' typ
      else if err = ErrExpectedList then decodeError ''expected input list'' typ
      else if err = ErrExpectedString then decodeError ''expected input string or byte'' typ
      else if err = errUintOverflow then decodeError ''input string too long'' typ
      else if err = errNotAtEOL then decodeError ''input list has too many elements'' typ
      else err)"

fun addErrorContext :: "string \<Rightarrow> go_error \<Rightarrow> go_error" where
  "addErrorContext ctx (GoWrap m (GoErr path)) = GoWrap m (GoErr (ctx @ path))"
| "addErrorContext ctx err = err"

fun onErr :: "(go_error \<Rightarrow> go_error) \<Rightarrow> 'a res \<times> Stream \<Rightarrow> 'a res \<times> Stream" where
  "onErr f (Err e, s) = (Err (f e), s)"
| "onErr f (r, s) = (r, s)"

datatype rlptype =
    TUint nat
  | TBool
  | TBigInt
  | TBytes
  | TByteArray string nat
  | TString
  | TPtr kind rlptype
  | TNilPtr kind rlptype
  | TStruct string "(string \<times> rlptype) list"

fun typname :: "rlptype \<Rightarrow> string" where
  "typname (TUint bits) =
     (if bits = 8 then ''uint8'' else if bits = 16 then ''uint16'' else if bits = 32 then ''uint32''
      else ''uint64'')"
| "typname TBool = ''bool''"
| "typname TBigInt = ''*big.Int''"
| "typname TBytes = ''[]uint8''"
| "typname (TByteArray n _) = n"
| "typname TString = ''string''"
| "typname (TPtr _ t) = CHR ''*'' # typname t"
| "typname (TNilPtr _ t) = CHR ''*'' # typname t"
| "typname (TStruct n _) = n"

definition decodeUint :: "nat \<Rightarrow> Stream \<Rightarrow> rlpval res \<times> Stream" where
  "decodeUint bits s =
     onErr (wrapStreamError (typname (TUint bits)))
       (andThen (stream_uint bits s) (\<lambda>num s. (Ok (VUint num), s)))"

definition decodeBool :: "Stream \<Rightarrow> rlpval res \<times> Stream" where
  "decodeBool s =
     onErr (wrapStreamError (typname TBool)) (andThen (stream_Bool s) (\<lambda>b s. (Ok (VBool b), s)))"

definition decodeString :: "Stream \<Rightarrow> rlpval res \<times> Stream" where
  "decodeString s =
     onErr (wrapStreamError (typname TString))
       (andThen (stream_Bytes s) (\<lambda>b s. (Ok (VString b), s)))"

definition decodeBigInt :: "Stream \<Rightarrow> rlpval res \<times> Stream" where
  "decodeBigInt s =
     onErr (wrapStreamError (typname TBigInt))
       (andThen (stream_Bytes s) (\<lambda>b s.
          if 0 < length b \<and> b ! 0 = 0 then (Err ErrCanonInt, s)
          else (Ok (VBigInt (Some (int (be_val b)))), s)))"

definition decodeByteSlice :: "Stream \<Rightarrow> rlpval res \<times> Stream" where
  "decodeByteSlice s =
     onErr (wrapStreamError (typname TBytes))
       (andThen (stream_Bytes s) (\<lambda>b s. (Ok (VBytes b), s)))"

text \<open>A single byte is read with \<open>bv, _ := s.Uint()\<close>, which drops the error.\<close>

definition decodeByteArray :: "string \<Rightarrow> nat \<Rightarrow> Stream \<Rightarrow> rlpval res \<times> Stream" where
  "decodeByteArray typ vlen s =
     andThen (Kind s) (\<lambda>(k, sz) s.
       case k of
         KByte \<Rightarrow>
           if vlen = 0 then (Err (decodeError ''input string too long'' typ), s)
           else if 1 < vlen then (Err (decodeError ''input string too short'' typ), s)
           else (case stream_Uint s of
               (Ok bv, s) \<Rightarrow> (Ok (VByteArray [ucast bv]), s)
             | (Err _, s) \<Rightarrow> (Ok (VByteArray [0]), s)
             | (Panic p, s) \<Rightarrow> (Panic p, s))
       | KString \<Rightarrow>
           if vlen < unat sz then (Err (decodeError ''input string too long'' typ), s)
           else if unat sz < vlen then (Err (decodeError ''input string too short'' typ), s)
           else andThen (stream_readFull vlen s) (\<lambda>slice s.
             if sz = 1 \<and> slice ! 0 < 128 then (Err (wrapStreamError typ ErrCanonSize), s)
             else (Ok (VByteArray slice), s))
       | KList \<Rightarrow> (Err (wrapStreamError typ ErrExpectedString), s))"

fun decoder :: "rlptype \<Rightarrow> Stream \<Rightarrow> rlpval res \<times> Stream"
  and decodeFields :: "string \<Rightarrow> (string \<times> rlptype) list \<Rightarrow> Stream \<Rightarrow> rlpval list res \<times> Stream" where
  "decoder (TUint bits) s = decodeUint bits s"
| "decoder TBool s = decodeBool s"
| "decoder TBigInt s = decodeBigInt s"
| "decoder TBytes s = decodeByteSlice s"
| "decoder (TByteArray n vlen) s = decodeByteArray n vlen s"
| "decoder TString s = decodeString s"
| "decoder (TPtr k t) s = andThen (decoder t s) (\<lambda>v s. (Ok (VPtr k (Some v)), s))"
| "decoder (TNilPtr nilKind t) s =
     andThen (onErr (wrapStreamError (typname (TNilPtr nilKind t))) (Kind s)) (\<lambda>(k, sz) s.
       if k \<noteq> KByte \<and> sz = 0 then
         if k \<noteq> nilKind then
           (Err (decodeError (''wrong kind of empty value (got '' @ Kind_String k @ '', want '' @
              Kind_String nilKind @ '')'') (typname (TNilPtr nilKind t))), s)
         else (Ok (VPtr nilKind None), s\<lparr>skind := None\<rparr>)
       else andThen (decoder t s) (\<lambda>v s. (Ok (VPtr nilKind (Some v)), s)))"
| "decoder (TStruct typ fs) s =
     andThen (onErr (wrapStreamError typ) (stream_List s)) (\<lambda>_ s.
       andThen (decodeFields typ fs s) (\<lambda>vs s.
         andThen (onErr (wrapStreamError typ) (ListEnd s)) (\<lambda>_ s. (Ok (VStruct vs), s))))"
| "decodeFields typ [] s = (Ok [], s)"
| "decodeFields typ ((name, t) # fs) s =
     andThen
       (onErr (\<lambda>e. if e = EOL then decodeError ''too few elements'' typ
                   else addErrorContext (CHR ''.'' # name) e) (decoder t s))
       (\<lambda>v s. andThen (decodeFields typ fs s) (\<lambda>vs s. (Ok (v # vs), s)))"

definition stream_Decode :: "rlptype \<Rightarrow> Stream \<Rightarrow> rlpval res \<times> Stream" where
  "stream_Decode t s =
     onErr (\<lambda>e. case e of
         GoWrap m (GoErr path) \<Rightarrow>
           if path = [] then e else addErrorContext (CHR ''('' # typname t @ '')'') e
       | _ \<Rightarrow> e) (decoder t s)"

definition DecodeBytes :: "rlptype \<Rightarrow> bytes \<Rightarrow> rlpval res" where
  "DecodeBytes t b =
     (case stream_Decode t (NewStream True b (of_nat (length b))) of
        (Ok v, s) \<Rightarrow> if 0 < length (sr s) then Err ErrMoreThanOneValue else Ok v
      | (Err e, _) \<Rightarrow> Err e
      | (Panic p, _) \<Rightarrow> Panic p)"

end
