(* ===== verification/RLP_Roundtrip.thy ===== *)
theory RLP_Roundtrip
  imports RLP_Stream
begin

text \<open>
  The streaming decoder reads back what the buffered encoder wrote, for every type whose shape is
  described by \<open>rlptype\<close>.
\<close>

section \<open>Decoding what was encoded\<close>

text \<open>
  The next bytes of the stream are \<open>b\<close>, and they fit into what the input limit and the enclosing
  list leave.
\<close>

definition ready :: "Stream \<Rightarrow> bytes \<Rightarrow> bytes \<Rightarrow> bool" where
  "ready s b r \<longleftrightarrow> sr s = b @ r \<and> length b < 2 ^ 64 \<and>
     (limited s \<longrightarrow> length b \<le> unat (remaining s)) \<and>
     (case stack s of [] \<Rightarrow> True | t # _ \<Rightarrow> unat (lp_pos t) + length b \<le> unat (lp_size t))"

text \<open>The stream has been moved by \<open>n\<close> bytes at the same nesting level.\<close>

definition moved :: "nat \<Rightarrow> Stream \<Rightarrow> Stream \<Rightarrow> bool" where
  "moved n s s' \<longleftrightarrow> sr s' = drop n (sr s) \<and> limited s' = limited s \<and>
     (limited s \<longrightarrow> remaining s' = remaining s - of_nat n) \<and>
     stack s' = (case stack s of [] \<Rightarrow> []
       | t # ts \<Rightarrow> t\<lparr>lp_pos := lp_pos t + of_nat n\<rparr> # ts)"

lemma moved_0: "moved 0 s s"
  by (simp add: moved_def split: list.split)

lemma moved_trans: "moved n s s' \<Longrightarrow> moved m s' s'' \<Longrightarrow> moved (n + m) s s''"
  by (auto simp: moved_def add.commute add.left_commute diff_diff_eq split: list.splits)

lemma moved_cache [simp]:
  "moved n s (s'\<lparr>skind := k\<rparr>) = moved n s s'"
  "moved n s (s'\<lparr>ssize := z\<rparr>) = moved n s s'"
  "moved n s (s'\<lparr>byteval := b\<rparr>) = moved n s s'"
  "moved n s (s'\<lparr>kinderr := e\<rparr>) = moved n s s'"
  "moved n (s\<lparr>skind := k\<rparr>) s' = moved n s s'"
  "moved n (s\<lparr>byteval := b\<rparr>) s' = moved n s s'"
  "moved n (s\<lparr>kinderr := e\<rparr>) s' = moved n s s'"
  by (simp_all add: moved_def)

lemma unat_add_le:
  assumes "unat (p :: u64) + n \<le> unat (q :: u64)"
  shows "unat (p + of_nat n) = unat p + n"
proof -
  have "unat p + n < 2 ^ 64" using assms unat_u64_less [of q] by simp
  then show ?thesis by (simp add: unat_word_ariths unat_of_nat)
qed

lemma unat_sub_le:
  assumes "n \<le> unat (q :: u64)"
  shows "unat (q - of_nat n) = unat q - n"
proof -
  have "n < 2 ^ 64" using assms unat_u64_less [of q] by simp
  then show ?thesis using assms by (simp add: unat_sub word_le_nat_alt unat_of_nat_u64)
qed

lemma ready_moved:
  assumes "ready s (a @ b) r" and "moved (length a) s s'"
  shows "ready s' b r"
proof -
  have rem: "limited s \<Longrightarrow> length b \<le> unat (remaining s - of_nat (length a))"
    using assms(1) by (auto simp: ready_def unat_sub_le)
  have pos: "unat (lp_pos t + of_nat (length a)) + length b \<le> unat (lp_size t)"
    if "stack s = t # ts" for t ts
    using assms(1) that unat_add_le [of "lp_pos t" "length a" "lp_size t"]
    by (simp add: ready_def)
  show ?thesis
    using assms rem pos by (auto simp: ready_def moved_def split: list.splits)
qed

lemma willRead_ready:
  assumes "ready s b r" and "n \<le> length b"
  shows "\<exists>s'. willRead (of_nat n) s = (Ok (), s') \<and> sr s' = sr s \<and> moved n s (s'\<lparr>sr := drop n (sr s)\<rparr>) \<and>
    skind s' = None \<and> byteval s' = byteval s"
proof -
  have n: "unat (of_nat n :: u64) = n" using assms by (simp add: ready_def unat_of_nat_u64)
  have rem: "\<not> remaining s < of_nat n" if "limited s"
    using assms that n by (simp add: ready_def word_less_nat_alt)
  have pos: "\<not> lp_size t - lp_pos t < of_nat n" if "stack s = t # ts" for t ts
    using assms that n
    by (auto simp: ready_def word_less_nat_alt unat_sub word_le_nat_alt)
  show ?thesis
    using rem pos by (auto simp: willRead_def moved_def Let_def split: list.split)
qed

lemma readFull_ready:
  assumes "ready s (a @ b) r"
  shows "\<exists>s'. stream_readFull (length a) s = (Ok a, s') \<and> moved (length a) s s' \<and> skind s' = None"
proof -
  from willRead_ready [OF assms, of "length a"] obtain s' where
    "willRead (of_nat (length a)) s = (Ok (), s')" "sr s' = sr s"
    "moved (length a) s (s'\<lparr>sr := drop (length a) (sr s)\<rparr>)" "skind s' = None" by auto
  with assms show ?thesis by (simp add: stream_readFull_def ready_def)
qed

lemma readByte_ready:
  assumes "ready s (x # b) r"
  shows "\<exists>s'. readByte s = (Ok x, s') \<and> moved 1 s s' \<and> skind s' = None"
proof -
  from willRead_ready [OF assms, of 1] obtain s' where
    "willRead 1 s = (Ok (), s')" "sr s' = sr s"
    "moved 1 s (s'\<lparr>sr := drop 1 (sr s)\<rparr>)" "skind s' = None" by auto
  with assms show ?thesis by (simp add: readByte_def ready_def)
qed

lemma ready_prefix: "ready s (a @ b) r \<Longrightarrow> ready s a (b @ r)"
  by (auto simp: ready_def split: list.splits)

lemma ready_cache [simp]:
  "ready (s\<lparr>skind := k\<rparr>) b r = ready s b r"
  "ready (s\<lparr>byteval := v\<rparr>) b r = ready s b r"
  "ready (s\<lparr>kinderr := e\<rparr>) b r = ready s b r"
  "ready (s\<lparr>ssize := z\<rparr>) b r = ready s b r"
  by (simp_all add: ready_def)

lemma readUint_ready:
  assumes "ready s (a @ b) r" and "a \<noteq> []" and "length a \<le> 8" and "hd a \<noteq> 0"
  shows "\<exists>s'. stream_readUint (of_nat (length a)) s = (Ok (of_nat (be_val a)), s') \<and>
    moved (length a) s s' \<and> skind s' = None"
proof -
  define sz where "sz = (of_nat (length a) :: u8)"
  have sz: "unat sz = length a" using assms by (simp add: sz_def unat_of_nat_u8)
  show ?thesis
  proof (cases "length a = 1")
    case True
    then obtain x where a: "a = [x]" by (auto simp: length_Suc_conv)
    with assms readByte_ready [of s x b r] show ?thesis
      by (auto simp: stream_readUint_def be_val_def)
  next
    case False
    have "sz \<noteq> 0" "sz \<noteq> 1" "\<not> 8 < sz"
      using False assms sz by (auto simp: word_unat_eq_iff word_less_nat_alt)
    moreover have "a ! 0 \<noteq> 0" using assms by (simp add: hd_conv_nth)
    ultimately show ?thesis
      using readFull_ready [OF assms(1)] sz by (auto simp: stream_readUint_def sz_def [symmetric])
  qed
qed

text \<open>What \<open>Kind\<close> finds at the start of a piece.\<close>

fun piece_size :: "kind \<times> bytes \<Rightarrow> u64" where
  "piece_size (KByte, c) = 0"
| "piece_size (_, c) = of_nat (length c)"

fun piece_body :: "kind \<times> bytes \<Rightarrow> bytes" where
  "piece_body (KByte, c) = []"
| "piece_body (_, c) = c"

fun piece_head :: "kind \<times> bytes \<Rightarrow> bytes" where
  "piece_head (KByte, c) = c"
| "piece_head (KString, c) = puthead 0x80 0xB7 (of_nat (length c))"
| "piece_head (KList, c) = puthead 0xC0 0xF7 (of_nat (length c))"

lemma enc_piece_split: "enc_piece p = piece_head p @ piece_body p"
  by (cases p rule: enc_piece.cases) simp_all

definition kinded :: "kind \<times> bytes \<Rightarrow> Stream \<Rightarrow> bool" where
  "kinded p s \<longleftrightarrow> skind s = Some (fst p) \<and> ssize s = piece_size p \<and> kinderr s = None \<and>
     (fst p = KByte \<longrightarrow> snd p = [byteval s])"

lemma Kind_kinded: "kinded p s \<Longrightarrow> Kind s = (Ok (fst p, piece_size p), s)"
  by (simp add: kinded_def Kind_def Kind_cached_def)

lemma stream_readKind_small:
  assumes "ready s ((y + ucast sz) # b) r" and "sz < 56" and "y = 0x80 \<and> k = KString \<or> y = 0xC0 \<and> k = KList"
  shows "\<exists>s'. stream_readKind s = (Ok (k, sz, None), s') \<and> moved 1 s s'"
proof -
  have n: "unat sz < 56" using assms by (simp add: word_less_nat_alt)
  have u: "unat (ucast sz :: u8) = unat sz" using n by (simp add: unat_ucast_u8)
  have t: "unat (y + ucast sz :: u8) = unat y + unat sz"
    using n u assms(3) by (auto simp: unat_u8_plus)
  have c: "ucast (ucast sz :: u8) = sz"
    using u by (simp only: word_unat_eq_iff unat_ucast_u64)
  from readByte_ready [OF assms(1)] obtain s' where
    "readByte s = (Ok (y + ucast sz), s')" "moved 1 s s'" by blast
  with assms(3) t n c show ?thesis
    by (auto simp: stream_readKind_def Let_def word_less_nat_alt)
qed

lemma stream_readKind_large:
  assumes "ready s ((y + of_nat (length (putint sz))) # putint sz @ b) r" and "56 \<le> sz"
    and "y = 0xB7 \<and> k = KString \<or> y = 0xF7 \<and> k = KList"
  shows "\<exists>s'. stream_readKind s = (Ok (k, sz, None), s') \<and> moved (1 + length (putint sz)) s s'"
proof -
  define n where "n = length (putint sz)"
  have n: "1 \<le> n" "n \<le> 8" using intsize_bounds [of sz] by (simp_all add: n_def length_putint)
  have nz: "sz \<noteq> 0" using assms by auto
  have t: "unat (y + of_nat n :: u8) = unat y + n"
    using n assms(3) by (auto simp: unat_u8_plus unat_of_nat_u8)
  from readByte_ready [OF assms(1)] obtain s1 where
    1: "readByte s = (Ok (y + of_nat n), s1)" "moved 1 s s1" by (auto simp: n_def)
  then have "ready (s1\<lparr>byteval := 0\<rparr>) (putint sz @ b) r"
    using ready_moved [of s "[y + of_nat n]" "putint sz @ b" r s1] assms(1) by (simp add: n_def)
  moreover have "putint sz \<noteq> []" "hd (putint sz) \<noteq> 0"
    using n nz by (auto simp: n_def putint_min_be min_be_hd unat_gt_0)
  ultimately obtain s2 where
    2: "stream_readUint (of_nat n) (s1\<lparr>byteval := 0\<rparr>) = (Ok sz, s2)" "moved n s1 s2"
    using readUint_ready [of "s1\<lparr>byteval := 0\<rparr>" "putint sz" b r] n nz
    by (auto simp: n_def putint_min_be byte_simps)
  have "moved (1 + n) s s2" using moved_trans [OF 1(2) 2(2)] .
  with 1 2 t n assms(2,3) show ?thesis
    by (auto simp: stream_readKind_def Let_def word_less_nat_alt word_le_nat_alt n_def [symmetric])
qed

lemma stream_readKind_piece:
  assumes "ready s (enc_piece p @ b) r" and "piece_ok p"
  shows "\<exists>s'. stream_readKind s = (Ok (fst p, piece_size p, None), s') \<and>
    moved (length (piece_head p)) s s' \<and> (fst p = KByte \<longrightarrow> snd p = [byteval s'])"
proof (cases p rule: enc_piece.cases)
  case (1 c)
  with assms obtain x where "c = [x]" "x < 0x80" by (auto simp: length_Suc_conv)
  with 1 assms readByte_ready [of s x b r] show ?thesis
    by (auto simp: stream_readKind_def Let_def)
next
  case (2 c)
  define sz where "sz = (of_nat (length c) :: u64)"
  show ?thesis
  proof (cases "sz < 56")
    case True
    with 2 assms(1) stream_readKind_small [of s "0x80" sz "c @ b" r KString] show ?thesis
      by (simp add: puthead_small sz_def [symmetric])
  next
    case False
    with 2 assms(1) stream_readKind_large [of s "0xB7" sz "c @ b" r KString] show ?thesis
      by (simp add: puthead_large sz_def [symmetric])
  qed
next
  case (3 c)
  define sz where "sz = (of_nat (length c) :: u64)"
  show ?thesis
  proof (cases "sz < 56")
    case True
    with 3 assms(1) stream_readKind_small [of s "0xC0" sz "c @ b" r KList] show ?thesis
      by (simp add: puthead_small sz_def [symmetric])
  next
    case False
    with 3 assms(1) stream_readKind_large [of s "0xF7" sz "c @ b" r KList] show ?thesis
      by (simp add: puthead_large sz_def [symmetric])
  qed
qed

lemma Kind_piece:
  assumes "ready s (enc_piece p @ b) r" and "piece_ok p" and "skind s = None"
  shows "\<exists>s'. Kind s = (Ok (fst p, piece_size p), s') \<and> kinded p s' \<and>
    moved (length (piece_head p)) s s' \<and> ready s' (piece_body p @ b) r"
proof -
  define s0 where "s0 = s\<lparr>kinderr := None\<rparr>"
  have r0: "ready s0 (enc_piece p @ b) r" using assms by (simp add: s0_def)
  have "1 \<le> length (enc_piece p)"
    using assms(2) by (cases p rule: piece_ok.cases) (auto simp: length_puthead headsize_def)
  then have top: "\<not> (case stack s0 of [] \<Rightarrow> False | tos # _ \<Rightarrow> lp_pos tos = lp_size tos)"
    using r0 by (auto simp: ready_def split: list.splits)
  from stream_readKind_piece [OF r0 assms(2)] obtain s1 where
    1: "stream_readKind s0 = (Ok (fst p, piece_size p, None), s1)"
    "moved (length (piece_head p)) s0 s1" "fst p = KByte \<longrightarrow> snd p = [byteval s1]" by blast
  have r1: "ready s1 (piece_body p @ b) r"
    using ready_moved [OF _ 1(2)] r0 by (simp add: enc_piece_split)
  have sz: "unat (piece_size p) \<le> length (piece_body p)"
    by (cases p rule: piece_size.cases) (simp_all add: unat_of_nat)
  then have rem: "\<not> remaining s1 < piece_size p" if "limited s1"
    using r1 that by (auto simp: ready_def word_less_nat_alt)
  have pos: "\<not> lp_size t - lp_pos t < piece_size p" if "stack s1 = t # ts" for t ts
    using r1 that sz by (auto simp: ready_def word_less_nat_alt unat_sub word_le_nat_alt)
  have "Kind s = (Ok (fst p, piece_size p),
      s1\<lparr>skind := Some (fst p), ssize := piece_size p, kinderr := None\<rparr>)"
    using assms(3) top 1(1) rem pos
    by (auto simp: Kind_def Let_def s0_def [symmetric] Kind_cached_def split: list.splits)
  moreover have "kinded p (s1\<lparr>skind := Some (fst p), ssize := piece_size p, kinderr := None\<rparr>)"
    using 1(3) by (simp add: kinded_def)
  ultimately show ?thesis using 1(2) r1 by (simp add: s0_def)
qed

fun piece_of :: "rlp_item \<Rightarrow> kind \<times> bytes" where
  "piece_of (RStr bs) = (if length bs = 1 \<and> bs ! 0 < 0x80 then KByte else KString, bs)"
| "piece_of (RList xs) = (KList, enc_items xs)"

lemma enc_piece_of: "enc_piece (piece_of x) = enc_item x"
  by (cases x) (simp_all add: enc_string_def)

lemma piece_ok_of: "length (enc_item x) < 2 ^ 64 \<Longrightarrow> piece_ok (piece_of x)"
  using length_enc_string by (cases x) (auto intro: le_less_trans)

lemma piece_of_string:
  obtains y where "bs = [y]" "y < 0x80" "piece_of (RStr bs) = (KByte, [y])"
  | "\<not> (length bs = 1 \<and> bs ! 0 < 0x80)" "piece_of (RStr bs) = (KString, bs)"
proof (cases "length bs = 1 \<and> bs ! 0 < 0x80")
  case True
  then obtain y where "bs = [y]" by (auto simp: length_Suc_conv)
  with True show ?thesis by (intro that(1) [of y]) simp_all
next
  case False
  then show ?thesis by (intro that(2)) auto
qed

lemma Bytes_ready:
  assumes "kinded (piece_of (RStr bs)) s" and "ready s (piece_body (piece_of (RStr bs)) @ b) r"
  shows "\<exists>s'. stream_Bytes s = (Ok bs, s') \<and> moved (length (piece_body (piece_of (RStr bs)))) s s' \<and>
    skind s' = None"
proof (cases bs rule: piece_of_string)
  case (1 y)
  with assms show ?thesis
    by (simp add: stream_Bytes_def Kind_kinded [OF assms(1)] kinded_def moved_0 del: piece_of.simps)
next
  case 2
  have len: "length bs < 2 ^ 64" using assms(2) 2 by (simp add: ready_def del: piece_of.simps)
  then have one: "(of_nat (length bs) :: u64) = 1 \<longleftrightarrow> length bs = 1"
    by (simp add: word_unat_eq_iff unat_of_nat_u64)
  have "ready s (bs @ b) r" using assms(2) 2 by (simp del: piece_of.simps)
  from readFull_ready [OF this] len one 2 show ?thesis
    by (auto simp: stream_Bytes_def Kind_kinded [OF assms(1)] unat_of_nat_u64 simp del: piece_of.simps)
qed

lemma uint_ready:
  fixes i :: u64
  defines "bs \<equiv> min_be (unat i)"
  assumes "kinded (piece_of (RStr bs)) s" and "ready s (piece_body (piece_of (RStr bs)) @ b) r"
    and "length bs \<le> maxbits div 8"
  shows "\<exists>s'. stream_uint maxbits s = (Ok i, s') \<and>
    moved (length (piece_body (piece_of (RStr bs)))) s s' \<and> skind s' = None"
proof (cases bs rule: piece_of_string)
  case (1 y)
  have y: "y \<noteq> 0" using 1(1) min_be_hd [of "unat i"] by (cases "i = 0") (auto simp: bs_def unat_gt_0)
  have "unat i = unat y" using 1(1) be_val_min_be [of "unat i"] by (simp add: bs_def be_val_def)
  then have "ucast y = i" by (simp add: word_unat_eq_iff unat_ucast_u64)
  with 1 y assms(2) show ?thesis
    by (simp add: stream_uint_def Kind_kinded [OF assms(2)] kinded_def moved_0 del: piece_of.simps)
next
  case 2
  have len: "length bs \<le> 8" unfolding bs_def by (rule length_min_be [OF unat_u64_bound])
  then have u: "unat (of_nat (length bs) :: u64) = length bs" by (simp add: unat_of_nat)
  have v: "of_nat (be_val bs) = i" by (simp add: bs_def byte_simps)
  have r: "ready s (bs @ b) r" using assms(3) 2 by (simp del: piece_of.simps)
  show ?thesis
  proof (cases "bs = []")
    case True
    then have "i = 0" by (simp add: bs_def unat_eq_0)
    with True 2 show ?thesis
      by (simp add: stream_uint_def Kind_kinded [OF assms(2)] stream_readUint_def moved_0)
  next
    case False
    then have "hd bs \<noteq> 0" by (simp add: bs_def min_be_hd)
    from readUint_ready [OF r False len this] obtain s' where
      s': "stream_readUint (of_nat (length bs)) s = (Ok i, s')" "moved (length bs) s s'" "skind s' = None"
      using v by auto
    have "\<not> i < 128"
    proof
      assume "i < 128"
      then have "unat i < 128" by (simp add: word_less_nat_alt)
      moreover have "unat i \<noteq> 0" using False by (simp add: bs_def)
      ultimately have "bs = [of_nat (unat i)]"
        by (simp add: bs_def min_be.simps [of "unat i"])
      moreover have "unat (of_nat (unat i) :: u8) = unat i"
        using \<open>unat i < 128\<close> by (simp add: unat_ucast_u8)
      ultimately show False using 2(1) \<open>unat i < 128\<close> by (simp add: word_less_nat_alt)
    qed
    with s' 2 u assms(4) show ?thesis
      by (auto simp: stream_uint_def Kind_kinded [OF assms(2)] ucast_of_nat_u8 simp del: piece_of.simps)
  qed
qed

lemma ByteArray_ready:
  assumes "kinded (piece_of (RStr bs)) s" and "ready s (piece_body (piece_of (RStr bs)) @ b) r"
    and "bs \<noteq> [0]"
  shows "\<exists>s'. decodeByteArray n (length bs) s = (Ok (VByteArray bs), s') \<and>
    moved (length (piece_body (piece_of (RStr bs)))) s s' \<and> skind s' = None"
proof (cases bs rule: piece_of_string)
  case (1 y)
  with assms have k: "kinded (KByte, [y]) s" "y \<noteq> 0" by (simp_all del: piece_of.simps)
  then have "byteval s = y" by (simp add: kinded_def)
  with 1 k show ?thesis
    by (simp add: decodeByteArray_def stream_Uint_def stream_uint_def Kind_kinded [OF k(1)] moved_0
        del: piece_of.simps)
next
  case 2
  have len: "length bs < 2 ^ 64" using assms(2) 2 by (simp add: ready_def del: piece_of.simps)
  then have one: "(of_nat (length bs) :: u64) = 1 \<longleftrightarrow> length bs = 1"
    by (simp add: word_unat_eq_iff unat_of_nat_u64)
  have "ready s (bs @ b) r" using assms(2) 2 by (simp del: piece_of.simps)
  from readFull_ready [OF this] len one 2 show ?thesis
    by (auto simp: decodeByteArray_def Kind_kinded [OF assms(1)] unat_of_nat_u64
        simp del: piece_of.simps)
qed

text \<open>
  The values of a type that come back as they were. A nil pointer does so in a field tagged
  \<open>nil\<close> only, and only if no other value of the element type is written as the empty string or
  list. An array of one zero byte does not.
\<close>

fun empty_item :: "rlp_item \<Rightarrow> bool" where
  "empty_item (RStr bs) = (bs = [])"
| "empty_item (RList xs) = (xs = [])"

inductive has_type :: "rlptype \<Rightarrow> rlpval \<Rightarrow> bool"
  and has_types :: "(string \<times> rlptype) list \<Rightarrow> rlpval list \<Rightarrow> bool" where
  ty_uint: "8 \<le> bits \<Longrightarrow> unat i < 256 ^ (bits div 8) \<Longrightarrow> has_type (TUint bits) (VUint i)"
| ty_bool: "has_type TBool (VBool b)"
| ty_big: "0 \<le> i \<Longrightarrow> has_type TBigInt (VBigInt (Some i))"
| ty_bytes: "has_type TBytes (VBytes b)"
| ty_array: "length b = vlen \<Longrightarrow> b \<noteq> [0] \<Longrightarrow> has_type (TByteArray n vlen) (VByteArray b)"
| ty_string: "has_type TString (VString b)"
| ty_ptr: "has_type t v \<Longrightarrow> has_type (TPtr k t) (VPtr k (Some v))"
| ty_nil: "k \<noteq> KByte \<Longrightarrow> has_type (TNilPtr k t) (VPtr k None)"
| ty_some: "has_type t v \<Longrightarrow> items_of v = Some [x] \<Longrightarrow> \<not> empty_item x \<Longrightarrow>
    has_type (TNilPtr k t) (VPtr k (Some v))"
| ty_struct: "has_types fs vs \<Longrightarrow> has_type (TStruct n fs) (VStruct vs)"
| ty_Nil: "has_types [] []"
| ty_Cons: "has_type t v \<Longrightarrow> has_types fs vs \<Longrightarrow> has_types ((n, t) # fs) (v # vs)"

lemmas has_type_intros = has_type_has_types.intros

definition decodes :: "(Stream \<Rightarrow> rlpval res \<times> Stream) \<Rightarrow> rlpval \<Rightarrow> rlp_item \<Rightarrow> bool" where
  "decodes dec v x \<longleftrightarrow> (\<forall>s b r. kinded (piece_of x) s \<longrightarrow> ready s (piece_body (piece_of x) @ b) r \<longrightarrow>
     (\<exists>s'. dec s = (Ok v, s') \<and> moved (length (piece_body (piece_of x))) s s' \<and> skind s' = None))"

definition decodes_list :: "(Stream \<Rightarrow> rlpval list res \<times> Stream) \<Rightarrow> rlpval list \<Rightarrow> rlp_item list \<Rightarrow> bool" where
  "decodes_list dec vs xs \<longleftrightarrow> (\<forall>s b r. skind s = None \<longrightarrow> ready s (enc_items xs @ b) r \<longrightarrow>
     (\<exists>s'. dec s = (Ok vs, s') \<and> moved (length (enc_items xs)) s s' \<and> skind s' = None))"

lemma decoder_Kind: "Kind s = (Ok x, s1) \<Longrightarrow> Kind s1 = (Ok x, s1) \<Longrightarrow> decoder t s = decoder t s1"
  by (induction t) (simp_all add: decodeUint_def stream_uint_def decodeBool_def stream_Bool_def
    decodeBigInt_def stream_Bytes_def decodeByteSlice_def decodeByteArray_def decodeString_def
    stream_List_def split: prod.split)

lemma decodes_fresh:
  assumes "decodes (decoder t) v x" and "skind s = None" and "ready s (enc_item x @ b) r"
  shows "\<exists>s'. decoder t s = (Ok v, s') \<and> moved (length (enc_item x)) s s' \<and> skind s' = None"
proof -
  let ?p = "piece_of x"
  have "length (enc_item x) < 2 ^ 64" using assms(3) by (simp add: ready_def)
  then have ok: "piece_ok ?p" by (rule piece_ok_of)
  have "ready s (enc_piece ?p @ b) r" using assms(3) by (simp only: enc_piece_of)
  from Kind_piece [OF this ok assms(2)] obtain s1 where
    1: "Kind s = (Ok (fst ?p, piece_size ?p), s1)" "kinded ?p s1" "moved (length (piece_head ?p)) s s1"
    "ready s1 (piece_body ?p @ b) r" by blast
  from assms(1) 1(2,4) obtain s2 where
    2: "decoder t s1 = (Ok v, s2)" "moved (length (piece_body ?p)) s1 s2" "skind s2 = None"
    unfolding decodes_def by blast
  have "length (enc_item x) = length (piece_head ?p) + length (piece_body ?p)"
    by (simp flip: enc_piece_of add: enc_piece_split)
  with moved_trans [OF 1(3) 2(2)] 2 decoder_Kind [OF 1(1) Kind_kinded [OF 1(2)], of t]
  show ?thesis by simp
qed

lemma decodes_Cons:
  assumes "decodes (decoder t) v x" and "decodes_list (decodeFields n fs) vs xs"
  shows "decodes_list (decodeFields n ((name, t) # fs)) (v # vs) (x # xs)"
  unfolding decodes_list_def
proof (intro allI impI)
  fix s b r
  assume k: "skind s = None" and rd: "ready s (enc_items (x # xs) @ b) r"
  then have "ready s (enc_item x @ enc_items xs @ b) r" by simp
  from decodes_fresh [OF assms(1) k this] obtain s1 where
    1: "decoder t s = (Ok v, s1)" "moved (length (enc_item x)) s s1" "skind s1 = None" by blast
  have "ready s1 (enc_items xs @ b) r" using ready_moved [OF _ 1(2)] rd by simp
  with assms(2) 1(3) obtain s2 where
    2: "decodeFields n fs s1 = (Ok vs, s2)" "moved (length (enc_items xs)) s1 s2" "skind s2 = None"
    unfolding decodes_list_def by blast
  from moved_trans [OF 1(2) 2(2)] 1(1) 2 show "\<exists>s'. decodeFields n ((name, t) # fs) s = (Ok (v # vs), s') \<and>
      moved (length (enc_items (x # xs))) s s' \<and> skind s' = None" by simp
qed

lemma decodes_Struct:
  assumes "decodes_list (decodeFields n fs) vs xs"
  shows "decodes (decoder (TStruct n fs)) (VStruct vs) (RList xs)"
  unfolding decodes_def
proof (intro allI impI)
  fix s b r
  let ?body = "enc_items xs" and ?sz = "of_nat (length (enc_items xs)) :: u64"
  assume k: "kinded (piece_of (RList xs)) s" and "ready s (piece_body (piece_of (RList xs)) @ b) r"
  then have rd: "ready s (?body @ b) r" by simp
  define s1 where
    "s1 = s\<lparr>stack := \<lparr>lp_pos = 0, lp_size = ?sz\<rparr> # stack s, skind := None, ssize := 0\<rparr>"
  have len: "length ?body < 2 ^ 64" using rd by (simp add: ready_def)
  have List: "stream_List s = (Ok ?sz, s1)"
    by (simp add: stream_List_def Kind_kinded [OF k] s1_def)
  have "ready s1 (?body @ []) (b @ r)"
    using ready_prefix [OF rd] len by (simp add: ready_def s1_def unat_of_nat_u64)
  moreover have "skind s1 = None" by (simp add: s1_def)
  ultimately obtain s2 where
    2: "decodeFields n fs s1 = (Ok vs, s2)" "moved (length ?body) s1 s2" "skind s2 = None"
    using assms unfolding decodes_list_def by blast
  have st2: "stack s2 = \<lparr>lp_pos = ?sz, lp_size = ?sz\<rparr> # stack s"
    using 2(2) by (simp add: moved_def s1_def)
  define s3 where "s3 = snd (ListEnd s2)"
  have End: "ListEnd s2 = (Ok (), s3)" "skind s3 = None"
    using st2 by (simp_all add: ListEnd_def s3_def Let_def)
  have "moved (length ?body) s s3"
    using 2(2) st2 by (simp add: moved_def s1_def s3_def ListEnd_def Let_def split: list.split)
  with List 2(1) End show "\<exists>s'. decoder (TStruct n fs) s = (Ok (VStruct vs), s') \<and>
      moved (length (piece_body (piece_of (RList xs)))) s s' \<and> skind s' = None" by simp
qed

lemma nil_piece: "k \<noteq> KByte \<Longrightarrow> piece_of (if k = KString then RStr [] else RList []) = (k, [])"
  by (cases k) simp_all

lemma nonempty_piece:
  assumes "\<not> empty_item x" and "length (piece_body (piece_of x)) < 2 ^ 64"
  shows "fst (piece_of x) = KByte \<or> piece_size (piece_of x) \<noteq> 0"
proof (cases x)
  case (RStr bs)
  with assms show ?thesis by (cases bs rule: piece_of_string) (auto simp: word_unat_eq_iff unat_of_nat_u64)
next
  case (RList xs)
  have "0 < length (enc_item y)" for y
    by (cases y) (auto simp: enc_string_def puthead_def Let_def)
  with RList assms have "length (enc_items xs) \<noteq> 0" by (cases xs) auto
  with RList assms show ?thesis by (auto simp: word_unat_eq_iff unat_of_nat_u64)
qed

lemma decodes_uint:
  assumes "unat i < 256 ^ (bits div 8)"
  shows "decodes (decoder (TUint bits)) (VUint i) (RStr (min_be (unat i)))"
  unfolding decodes_def using uint_ready [of i _ _ _ bits] length_min_be [OF assms]
  by (fastforce simp: decodeUint_def simp del: piece_of.simps)

lemma decodes_bool: "decodes (decoder TBool) (VBool b) (RStr (if b then [1] else []))"
  unfolding decodes_def using uint_ready [of "if b then 1 else 0" _ _ _ 8]
  by (fastforce simp: decodeBool_def stream_Bool_def min_be.simps simp del: piece_of.simps)

lemma decodes_big:
  assumes "0 \<le> i"
  shows "decodes (decoder TBigInt) (VBigInt (Some i)) (RStr (min_be (nat i)))"
proof -
  have "\<not> (0 < length (min_be (nat i)) \<and> min_be (nat i) ! 0 = 0)"
    using min_be_hd [of "nat i"] by (auto simp: hd_conv_nth)
  then show ?thesis
    unfolding decodes_def using Bytes_ready [of "min_be (nat i)"] assms
    by (fastforce simp: decodeBigInt_def byte_simps simp del: piece_of.simps)
qed

lemma decodes_bytes: "decodes (decoder TBytes) (VBytes b) (RStr b)"
  unfolding decodes_def using Bytes_ready [of b]
  by (fastforce simp: decodeByteSlice_def simp del: piece_of.simps)

lemma decodes_string: "decodes (decoder TString) (VString b) (RStr b)"
  unfolding decodes_def using Bytes_ready [of b]
  by (fastforce simp: decodeString_def simp del: piece_of.simps)

lemma decodes_array:
  "b \<noteq> [0] \<Longrightarrow> decodes (decoder (TByteArray n (length b))) (VByteArray b) (RStr b)"
  unfolding decodes_def using ByteArray_ready [of b] by (fastforce simp del: piece_of.simps)

lemma decodes_nil:
  assumes "k \<noteq> KByte"
  shows "decodes (decoder (TNilPtr k t)) (VPtr k None) (if k = KString then RStr [] else RList [])"
  unfolding decodes_def nil_piece [OF assms]
proof (intro allI impI)
  fix s b r
  assume k: "kinded (k, []) s"
  have "piece_size (k, []) = 0" "piece_body (k, []) = []" by (cases k; simp)+
  then show "\<exists>s'. decoder (TNilPtr k t) s = (Ok (VPtr k None), s') \<and>
      moved (length (piece_body (k, []))) s s' \<and> skind s' = None"
    using assms by (auto simp: Kind_kinded [OF k] moved_0)
qed

lemma decodes_some:
  assumes "decodes (decoder t) v x" and "\<not> empty_item x"
  shows "decodes (decoder (TNilPtr k t)) (VPtr k (Some v)) x"
  unfolding decodes_def
proof (intro allI impI)
  fix s b r
  assume k: "kinded (piece_of x) s" and rd: "ready s (piece_body (piece_of x) @ b) r"
  have "length (piece_body (piece_of x)) < 2 ^ 64" using rd by (simp add: ready_def)
  from nonempty_piece [OF assms(2) this]
  have "\<not> (fst (piece_of x) \<noteq> KByte \<and> piece_size (piece_of x) = 0)" by blast
  moreover from assms(1) k rd obtain s' where "decoder t s = (Ok v, s')"
    "moved (length (piece_body (piece_of x))) s s'" "skind s' = None"
    unfolding decodes_def by blast
  ultimately show "\<exists>s'. decoder (TNilPtr k t) s = (Ok (VPtr k (Some v)), s') \<and>
      moved (length (piece_body (piece_of x))) s s' \<and> skind s' = None"
    by (auto simp: Kind_kinded [OF k])
qed

lemma decodes_ptr: "decodes (decoder t) v x \<Longrightarrow> decodes (decoder (TPtr k t)) (VPtr k (Some v)) x"
  by (fastforce simp: decodes_def)

lemma decodes_Nil: "decodes_list (decodeFields n []) [] []"
  by (simp add: decodes_list_def moved_0)

lemmas decodes_intros = decodes_uint decodes_bool decodes_big decodes_bytes decodes_string
  decodes_array decodes_nil decodes_some decodes_ptr decodes_Nil decodes_Cons decodes_Struct

lemma decodes_decoder:
  "has_type t v \<Longrightarrow> \<exists>x. items_of v = Some [x] \<and> decodes (decoder t) v x"
  "has_types fs vs \<Longrightarrow>
     \<exists>xs. items_of_list vs = Some xs \<and> (\<forall>n. decodes_list (decodeFields n fs) vs xs)"
proof (induction rule: has_type_has_types.inducts)
  case (ty_struct fs vs n)
  then show ?case by (auto intro: decodes_intros simp del: decoder.simps)
next
  case (ty_Cons t v fs vs n)
  then show ?case by (auto intro!: decodes_Cons simp del: decoder.simps decodeFields.simps)
next
  case (ty_bool b)
  then show ?case using decodes_bool [of b] by (simp del: decoder.simps)
next
  case (ty_nil k t)
  then show ?case using decodes_nil [of k t] by (simp del: decoder.simps)
qed (auto intro: decodes_intros simp del: decoder.simps decodeFields.simps)

text \<open>The encoding a value has, if it has one.\<close>

definition rlp_bytes :: "rlpval \<Rightarrow> bytes" where
  "rlp_bytes v = (case items_of v of Some xs \<Rightarrow> enc_items xs | None \<Rightarrow> [])"

lemma has_type_encodes:
  assumes "has_type t v" and "length (rlp_bytes v) < 2 ^ 64"
  shows "EncodeToBytes v = Ok (rlp_bytes v)" "Encode v = Ok (rlp_bytes v)"
  using decodes_decoder(1) [OF assms(1)] assms(2) EncodeToBytes_items [of v]
  by (auto simp: rlp_bytes_def)

lemma stream_Decode_rlp_bytes:
  assumes "has_type t v" and "skind s = None" and "ready s (rlp_bytes v @ b) r"
  shows "\<exists>s'. stream_Decode t s = (Ok v, s') \<and> moved (length (rlp_bytes v)) s s' \<and> skind s' = None"
proof -
  from decodes_decoder(1) [OF assms(1)] obtain x where
    x: "items_of v = Some [x]" "decodes (decoder t) v x" by blast
  then have "rlp_bytes v = enc_item x" by (simp add: rlp_bytes_def)
  with decodes_fresh [OF x(2) assms(2)] assms(3) show ?thesis
    by (fastforce simp: stream_Decode_def)
qed

lemma ready_NewStream:
  assumes "length b < 2 ^ 64" and "unat lim = length b"
  shows "ready (NewStream sized (b @ r) lim) b r" "skind (NewStream sized (b @ r) lim) = None"
proof -
  show "skind (NewStream sized (b @ r) lim) = None" by (simp add: NewStream_def Reset_def)
  show "ready (NewStream sized (b @ r) lim) b r"
  proof (cases "lim = 0")
    case True
    with assms show ?thesis by (simp add: ready_def NewStream_def Reset_def)
  next
    case False
    with assms show ?thesis by (simp add: ready_def NewStream_def Reset_def word_gt_0)
  qed
qed

lemma DecodeBytes_EncodeToBytes:
  assumes "has_type t v" and "length (rlp_bytes v) < 2 ^ 64"
  shows "res_bind (EncodeToBytes v) (DecodeBytes t) = Ok v"
proof -
  let ?b = "rlp_bytes v"
  let ?s = "NewStream True ?b (of_nat (length ?b))"
  have "ready ?s (?b @ []) []" "skind ?s = None"
    using ready_NewStream [OF assms(2), of "of_nat (length ?b)" True "[]"] assms(2)
    by (simp_all add: unat_of_nat_u64)
  from stream_Decode_rlp_bytes [OF assms(1) this(2) this(1)] obtain s' where
    "stream_Decode t ?s = (Ok v, s')" "moved (length ?b) ?s s'" by blast
  moreover from this have "sr s' = []" by (simp add: moved_def NewStream_def Reset_def)
  ultimately show ?thesis
    by (simp add: has_type_encodes [OF assms] DecodeBytes_def)
qed

lemma decodeByteArray_zero:
  "skind s = Some KByte \<Longrightarrow> kinderr s = None \<Longrightarrow> byteval s = 0 \<Longrightarrow> decodeByteArray arr 1 s = (Ok (VByteArray [0]), s)"
  by (simp add: decodeByteArray_def Kind_def Kind_cached_def stream_Uint_def stream_uint_def)

text \<open>A decoder that does not move can be used any number of times.\<close>

lemma decodeFields_stuck:
  assumes "decoder t s = (Ok v, s)"
  shows "decodeFields tname (replicate n (name, t)) s = (Ok (replicate n v), s)"
  by (induction n) (simp_all add: assms)

section \<open>Properties\<close>

text \<open>
  C8: For unsigned integers, booleans, non-negative big integers, byte slices, byte arrays, strings, pointers
  and structs of these, nested in any way, encoding a value and decoding the bytes with the streaming
  decoder gives the value back, with the whole input consumed. Left out by \<open>has_type\<close> are the values the
  code does not read back: arrays of one zero byte, nil big integers, nil pointers in fields without a
  \<open>nil\<close> tag, and in fields with one, pointers to values written as the empty string or list.
\<close>

theorem rlp_roundtrip:
  assumes "has_type t v" and "length (rlp_bytes v) < 2 ^ 64"
  shows "res_bind (EncodeToBytes v) (DecodeBytes t) = Ok v"
  using assms by (rule DecodeBytes_EncodeToBytes)

theorem rlp_roundtrip_witness:
  "res_bind (EncodeToBytes (VStruct [VUint 5, VPtr KString None]))
     (DecodeBytes (TStruct ''T'' [(''a'', TUint 64), (''b'', TNilPtr KString (TUint 8))])) =
   Ok (VStruct [VUint 5, VPtr KString None])"
proof (rule rlp_roundtrip)
  show "has_type (TStruct ''T'' [(''a'', TUint 64), (''b'', TNilPtr KString (TUint 8))])
      (VStruct [VUint 5, VPtr KString None])"
    by (intro has_type_intros) simp_all
  have "min_be 5 = [5]" by (simp add: min_be.simps)
  then show "length (rlp_bytes (VStruct [VUint 5, VPtr KString None])) < 2 ^ 64"
    by (simp add: rlp_bytes_def enc_string_def puthead_def)
qed

text \<open>
  C40: A list with a single zero byte is accepted for a struct with any positive number of fields that are
  arrays of one byte, and all of them come out as that byte: reading such an array drops the error of the
  integer reader and keeps the byte as the next value of the stream.
\<close>

theorem zero_byte_array_stuck:
  "DecodeBytes (TStruct tname (replicate (Suc n) (name, TByteArray arr 1))) [0xC1, 0] =
     Ok (VStruct (replicate (Suc n) (VByteArray [0])))"
proof -
  let ?s0 = "\<lparr>sr = [0], remaining = 1, limited = True, skind = None, ssize = 0, byteval = 0, kinderr = None,
    stack = [\<lparr>lp_pos = 0, lp_size = 1\<rparr>]\<rparr>"
  let ?s1 = "\<lparr>sr = [], remaining = 0, limited = True, skind = Some KByte, ssize = 0, byteval = 0, kinderr = None,
    stack = [\<lparr>lp_pos = 1, lp_size = 1\<rparr>]\<rparr>"
  have l: "stream_List (NewStream True [0xC1, 0] 2) = (Ok 1, ?s0)" by code_simp
  have k: "Kind ?s0 = (Ok (KByte, 0), ?s1)" "Kind ?s1 = (Ok (KByte, 0), ?s1)" by code_simp+
  have "decoder (TByteArray arr 1) ?s0 = decoder (TByteArray arr 1) ?s1" by (rule decoder_Kind [OF k])
  moreover have z: "decoder (TByteArray arr 1) ?s1 = (Ok (VByteArray [0]), ?s1)" unfolding decoder.simps by (rule decodeByteArray_zero) simp_all
  ultimately have "decodeFields tname (replicate (Suc n) (name, TByteArray arr 1)) ?s0 =
      (Ok (replicate (Suc n) (VByteArray [0])), ?s1)"
    using decodeFields_stuck [OF z, of tname n name] by simp
  moreover have "ListEnd ?s1 = (Ok (), ?s1\<lparr>stack := [], skind := None\<rparr>)" by (simp add: ListEnd_def)
  ultimately show ?thesis using l by (simp add: DecodeBytes_def stream_Decode_def)
qed

end
