(* ===== verification/Transaction.thy ===== *)
theory Transaction
  imports TxMeta RLP_Roundtrip
begin

text \<open>
  Transactions: \<open>l2geth/core/types/transaction.go\<close> and \<open>deriveChainId\<close> of
  \<open>transaction_signing.go\<close>. The big integers of a transaction are not nil
  (\<open>newTransaction\<close> and the decoder allocate them). The caches for hash, size and sender are not
  modelled; recovering a sender from a signature and hashing are parameters where they occur.
\<close>

section \<open>Data\<close>

record txdata =
  AccountNonce :: u64
  Price :: int
  GasLimit :: u64
  Recipient :: "addr option"
  Amount :: int
  Payload :: bytes
  SigV :: int
  SigR :: int
  SigS :: int

record Transaction =
  tx_data :: txdata
  tx_meta :: TransactionMeta

definition newTransaction ::
    "u64 \<Rightarrow> addr option \<Rightarrow> int option \<Rightarrow> u64 \<Rightarrow> int option \<Rightarrow> bytes \<Rightarrow> Transaction" where
  "newTransaction nonce to amount gasLimit gasPrice data =
     (let meta = NewTransactionMeta None 0 (Some [0]) None QueueOriginSequencer None None None;
          d = \<lparr>AccountNonce = nonce,
               Price = (case gasPrice of None \<Rightarrow> 0 | Some p \<Rightarrow> p),
               GasLimit = gasLimit, Recipient = to,
               Amount = (case amount of None \<Rightarrow> 0 | Some a \<Rightarrow> a),
               Payload = data, SigV = 0, SigR = 0, SigS = 0\<rparr>
      in \<lparr>tx_data = d, tx_meta = meta\<rparr>)"

definition NewTransaction ::
    "u64 \<Rightarrow> addr \<Rightarrow> int option \<Rightarrow> u64 \<Rightarrow> int option \<Rightarrow> bytes \<Rightarrow> Transaction" where
  "NewTransaction nonce to amount gasLimit gasPrice data =
     newTransaction nonce (Some to) amount gasLimit gasPrice data"

definition NewContractCreation ::
    "u64 \<Rightarrow> int option \<Rightarrow> u64 \<Rightarrow> int option \<Rightarrow> bytes \<Rightarrow> Transaction" where
  "NewContractCreation nonce amount gasLimit gasPrice data =
     newTransaction nonce None amount gasLimit gasPrice data"

definition SetTransactionMeta :: "TransactionMeta option \<Rightarrow> Transaction \<Rightarrow> Transaction" where
  "SetTransactionMeta meta t = (case meta of None \<Rightarrow> t | Some m \<Rightarrow> t\<lparr>tx_meta := m\<rparr>)"

definition GetMeta :: "Transaction \<Rightarrow> TransactionMeta" where
  "GetMeta t = tx_meta t"

definition SetIndex :: "u64 \<Rightarrow> Transaction \<Rightarrow> Transaction" where
  "SetIndex i t = t\<lparr>tx_meta := (tx_meta t)\<lparr>Index := Some i\<rparr>\<rparr>"

definition SetL1Timestamp :: "u64 \<Rightarrow> Transaction \<Rightarrow> Transaction" where
  "SetL1Timestamp ts t = t\<lparr>tx_meta := (tx_meta t)\<lparr>L1Timestamp := ts\<rparr>\<rparr>"

definition SetL1BlockNumber :: "u64 \<Rightarrow> Transaction \<Rightarrow> Transaction" where
  "SetL1BlockNumber bn t = t\<lparr>tx_meta := (tx_meta t)\<lparr>L1BlockNumber := Some (uint bn)\<rparr>\<rparr>"

text \<open>\<open>common.CopyBytes\<close> of nil is nil.\<close>

definition SetL1Turing :: "bytes option \<Rightarrow> Transaction \<Rightarrow> Transaction" where
  "SetL1Turing turing t = t\<lparr>tx_meta := (tx_meta t)\<lparr>L1Turing := turing\<rparr>\<rparr>"

definition SetData :: "bytes \<Rightarrow> Transaction \<Rightarrow> Transaction" where
  "SetData data t = t\<lparr>tx_data := (tx_data t)\<lparr>Payload := data\<rparr>\<rparr>"

definition SetNonce :: "u64 \<Rightarrow> Transaction \<Rightarrow> Transaction" where
  "SetNonce nonce t = t\<lparr>tx_data := (tx_data t)\<lparr>AccountNonce := nonce\<rparr>\<rparr>"

definition Cost :: "Transaction \<Rightarrow> int" where
  "Cost tx = Price (tx_data tx) * uint (GasLimit (tx_data tx)) + Amount (tx_data tx)"

text \<open>
  \<open>BitLen\<close> and \<open>Uint64\<close> look at the absolute value of the integer. The subtraction in
  \<open>deriveChainId\<close> is one of \<open>uint64\<close> and wraps around; \<open>Div\<close> rounds down for a
  positive divisor.
\<close>

definition isProtectedV :: "int \<Rightarrow> bool" where
  "isProtectedV V =
     (if nat \<bar>V\<bar> < 2 ^ 8 then let v = (of_int \<bar>V\<bar> :: u64) in v \<noteq> 27 \<and> v \<noteq> 28 else True)"

definition deriveChainId :: "int \<Rightarrow> int" where
  "deriveChainId v =
     (if nat \<bar>v\<bar> < 2 ^ 64 then
        let v' = (of_int \<bar>v\<bar> :: u64) in
        if v' = 27 \<or> v' = 28 then 0 else uint ((v' - 35) div 2)
      else (v - 35) div 2)"

definition WithSignature ::
    "(Transaction \<Rightarrow> bytes \<Rightarrow> (int \<times> int \<times> int) res) \<Rightarrow> Transaction \<Rightarrow> bytes \<Rightarrow> Transaction res" where
  "WithSignature signatureValues tx sig =
     res_map (\<lambda>(r, s, v). tx\<lparr>tx_data := (tx_data tx)\<lparr>SigR := r, SigS := s, SigV := v\<rparr>\<rparr>)
       (signatureValues tx sig)"

text \<open>\<open>TxDifference\<close> compares transactions by their hash.\<close>

definition TxDifference :: "(Transaction \<Rightarrow> hash) \<Rightarrow> Transaction list \<Rightarrow> Transaction list \<Rightarrow> Transaction list" where
  "TxDifference txHash a b =
     (let remove = set (map txHash b) in filter (\<lambda>tx. txHash tx \<notin> remove) a)"

section \<open>Messages\<close>

record Message =
  msg_to :: "addr option"
  msg_from :: addr
  msg_nonce :: u64
  msg_amount :: int
  msg_gasLimit :: u64
  msg_gasPrice :: int
  msg_data :: bytes
  msg_checkNonce :: bool
  msg_l1Timestamp :: u64
  msg_l1BlockNumber :: "int option"
  msg_l1Turing :: "bytes option"
  msg_queueOrigin :: queue_origin

text \<open>
  The sender of a transaction from L1 is the sender of the L1 message; any other sender is
  recovered from the signature (\<open>Sender\<close>, a parameter). Message and error are returned together;
  callers drop the message when there is an error.
\<close>

definition AsMessage :: "bool \<Rightarrow> (Transaction \<Rightarrow> addr res) \<Rightarrow> Transaction \<Rightarrow> Message res" where
  "AsMessage usingOVM sender tx =
     (let d = tx_data tx; m = tx_meta tx in
      res_map (\<lambda>from.
          \<lparr>msg_to = Recipient d, msg_from = from, msg_nonce = AccountNonce d,
           msg_amount = Amount d, msg_gasLimit = GasLimit d, msg_gasPrice = Price d,
           msg_data = Payload d, msg_checkNonce = True,
           msg_l1Timestamp = L1Timestamp m, msg_l1BlockNumber = L1BlockNumber m,
           msg_l1Turing = L1Turing m, msg_queueOrigin = QueueOrigin m\<rparr>)
        (if usingOVM then
           case L1MessageSender m of
             Some a \<Rightarrow> if QueueOrigin m = QueueOriginL1ToL2 then Ok a else sender tx
           | None \<Rightarrow> sender tx
         else sender tx))"

section \<open>Wire encoding\<close>

text \<open>The shape of \<open>txdata\<close> that reflection finds, and the conversions to and from it.\<close>

definition txdata_type :: rlptype where
  "txdata_type = TStruct ''types.txdata''
     [(''AccountNonce'', TUint 64), (''Price'', TBigInt), (''GasLimit'', TUint 64),
      (''Recipient'', TNilPtr KString (TByteArray ''common.Address'' 20)),
      (''Amount'', TBigInt), (''Payload'', TBytes), (''V'', TBigInt), (''R'', TBigInt),
      (''S'', TBigInt)]"

definition txdata_val :: "txdata \<Rightarrow> rlpval" where
  "txdata_val d = VStruct
     [VUint (AccountNonce d), VBigInt (Some (Price d)), VUint (GasLimit d),
      VPtr KString (map_option (\<lambda>a. VByteArray (addr_bytes a)) (Recipient d)),
      VBigInt (Some (Amount d)), VBytes (Payload d), VBigInt (Some (SigV d)),
      VBigInt (Some (SigR d)), VBigInt (Some (SigS d))]"

fun val_uint :: "rlpval \<Rightarrow> u64" where
  "val_uint (VUint i) = i"
| "val_uint _ = 0"

fun val_big :: "rlpval \<Rightarrow> int" where
  "val_big (VBigInt (Some i)) = i"
| "val_big _ = 0"

fun val_bytes :: "rlpval \<Rightarrow> bytes" where
  "val_bytes (VBytes b) = b"
| "val_bytes _ = []"

fun val_addr :: "rlpval \<Rightarrow> addr option" where
  "val_addr (VPtr _ (Some (VByteArray b))) = Some (of_nat (be_val b))"
| "val_addr _ = None"

fun val_fields :: "rlpval \<Rightarrow> rlpval list" where
  "val_fields (VStruct vs) = vs"
| "val_fields _ = []"

definition val_txdata :: "rlpval \<Rightarrow> txdata" where
  "val_txdata v =
     (let vs = val_fields v in
      \<lparr>AccountNonce = val_uint (vs ! 0), Price = val_big (vs ! 1), GasLimit = val_uint (vs ! 2),
       Recipient = val_addr (vs ! 3), Amount = val_big (vs ! 4), Payload = val_bytes (vs ! 5),
       SigV = val_big (vs ! 6), SigR = val_big (vs ! 7), SigS = val_big (vs ! 8)\<rparr>)"

definition Tx_EncodeRLP :: "Transaction \<Rightarrow> bytes res" where
  "Tx_EncodeRLP tx = Encode (txdata_val (tx_data tx))"

text \<open>
  \<open>DecodeRLP\<close> on a stream; the result is a transaction with zero metadata
  (\<open>new(types.Transaction)\<close>).
\<close>

definition zeroMeta :: TransactionMeta where
  "zeroMeta = NewTransactionMeta None 0 None None 0 None None None"

definition Tx_DecodeRLP :: "Stream \<Rightarrow> Transaction res \<times> Stream" where
  "Tx_DecodeRLP s =
     (let (_, s1) = Kind s in
      andThen (stream_Decode txdata_type s1) (\<lambda>v s2.
        (Ok \<lparr>tx_data = val_txdata v, tx_meta = zeroMeta\<rparr>, s2)))"

section \<open>Round trip\<close>

text \<open>The transactions that have an encoding: no negative integer, and of a size below \<open>2 ^ 64\<close>.\<close>

definition encodable :: "txdata \<Rightarrow> bool" where
  "encodable d \<longleftrightarrow> 0 \<le> Price d \<and> 0 \<le> Amount d \<and> 0 \<le> SigV d \<and> 0 \<le> SigR d \<and> 0 \<le> SigS d \<and>
     length (rlp_bytes (txdata_val d)) < 2 ^ 64"

lemma length_addr_bytes [simp]: "length (addr_bytes a) = 20"
  by (simp add: addr_bytes_def)

lemma be_val_addr_bytes [simp]: "of_nat (be_val (addr_bytes a)) = a"
  using unat_addr_bound [of a] by (simp add: addr_bytes_def byte_simps)

lemma addr_bytes_neq [simp]: "addr_bytes a \<noteq> [0]" "addr_bytes a \<noteq> []"
  by (auto dest: arg_cong [of _ _ length])

lemma val_txdata_txdata_val [simp]: "val_txdata (txdata_val d) = d"
  by (cases "Recipient d") (simp_all add: val_txdata_def txdata_val_def Let_def)

lemma has_type_recipient:
  "has_type (TNilPtr KString (TByteArray n 20))
     (VPtr KString (map_option (\<lambda>a. VByteArray (addr_bytes a)) to))"
  by (cases to) (auto intro: ty_nil intro!: ty_some [of _ _ "RStr (addr_bytes _)"] ty_array)

lemma has_type_txdata:
  assumes "encodable d"
  shows "has_type txdata_type (txdata_val d)"
  using assms unat_u64_bound [of "AccountNonce d"] unat_u64_bound [of "GasLimit d"]
  unfolding txdata_type_def txdata_val_def encodable_def
  by (intro has_type_intros has_type_recipient) simp_all

lemma Tx_EncodeRLP_Ok:
  "encodable (tx_data tx) \<Longrightarrow> Tx_EncodeRLP tx = Ok (rlp_bytes (txdata_val (tx_data tx)))"
  by (simp add: Tx_EncodeRLP_def has_type_encodes(2) [OF has_type_txdata] encodable_def)

lemma stream_Decode_Kind:
  "Kind s = (Ok x, s1) \<Longrightarrow> Kind s1 = (Ok x, s1) \<Longrightarrow> stream_Decode t s1 = stream_Decode t s"
  using decoder_Kind [of s x s1 t] by (simp add: stream_Decode_def)

lemma Tx_DecodeRLP_ready:
  assumes "encodable d" and "skind s = None" and "ready s (rlp_bytes (txdata_val d) @ b) r"
  shows "\<exists>s'. Tx_DecodeRLP s = (Ok \<lparr>tx_data = d, tx_meta = zeroMeta\<rparr>, s') \<and>
    moved (length (rlp_bytes (txdata_val d))) s s'"
proof -
  have ht: "has_type txdata_type (txdata_val d)" using assms(1) by (rule has_type_txdata)
  from decodes_decoder(1) [OF this] obtain x where x: "items_of (txdata_val d) = Some [x]" by blast
  then have b: "rlp_bytes (txdata_val d) = enc_piece (piece_of x)"
    by (simp add: rlp_bytes_def enc_piece_of)
  have "piece_ok (piece_of x)"
    using assms(1) b by (intro piece_ok_of) (simp add: encodable_def enc_piece_of)
  from Kind_piece [OF assms(3) [unfolded b] this assms(2)] obtain s1 where
    1: "Kind s = (Ok (fst (piece_of x), piece_size (piece_of x)), s1)" "kinded (piece_of x) s1"
    by blast
  with stream_Decode_Kind [OF 1(1) Kind_kinded [OF 1(2)], of txdata_type]
    stream_Decode_rlp_bytes [OF ht assms(2,3)]
  show ?thesis by (auto simp: Tx_DecodeRLP_def)
qed

text \<open>On a stream without a limit the encoder and the decoder are a prefix codec.\<close>

definition tx_dec :: "bytes \<Rightarrow> (txdata \<times> bytes) res" where
  "tx_dec r = (case Tx_DecodeRLP (NewStream False r 0) of
      (Ok tx, s) \<Rightarrow> Ok (tx_data tx, sr s)
    | (Err e, _) \<Rightarrow> Err e
    | (Panic p, _) \<Rightarrow> Panic p)"

interpretation tx_rlp: prefix_codec "\<lambda>d. rlp_bytes (txdata_val d)" tx_dec encodable
proof
  fix d r
  let ?b = "rlp_bytes (txdata_val d)" and ?s = "NewStream False (rlp_bytes (txdata_val d) @ r) 0"
  assume d: "encodable d"
  then have "ready ?s (?b @ []) r" "skind ?s = None"
    by (simp_all add: ready_def NewStream_def Reset_def encodable_def)
  from Tx_DecodeRLP_ready [OF d this(2,1)] obtain s' where
    "Tx_DecodeRLP ?s = (Ok \<lparr>tx_data = d, tx_meta = zeroMeta\<rparr>, s')" "moved (length ?b) ?s s'"
    by blast
  then show "tx_dec (?b @ r) = Ok (d, r)"
    by (simp add: tx_dec_def moved_def NewStream_def Reset_def)
qed

section \<open>Properties\<close>

text \<open>
  C7: A transaction without negative integers is read back from its wire encoding, whatever
  follows in the stream, and the stream is left right behind it. The metadata are not part of
  the wire encoding.
\<close>

theorem tx_roundtrip:
  assumes "encodable d"
  shows "\<exists>b. Tx_EncodeRLP \<lparr>tx_data = d, tx_meta = m\<rparr> = Ok b \<and> tx_dec (b @ r) = Ok (d, r)"
  using Tx_EncodeRLP_Ok [of "\<lparr>tx_data = d, tx_meta = m\<rparr>"] tx_rlp.dec_enc [OF assms] assms by simp

definition witnessTx :: txdata where
  "witnessTx = \<lparr>AccountNonce = 1, Price = 2, GasLimit = 3, Recipient = None, Amount = 4,
     Payload = [5, 6], SigV = 27, SigR = 7, SigS = 8\<rparr>"

lemma length_witnessTx: "length (rlp_bytes (txdata_val witnessTx)) < 100"
proof -
  have "min_be 1 = [1]" "min_be 2 = [2]" "min_be 3 = [3]" "min_be 4 = [4]" "min_be 27 = [27]"
    "min_be 7 = [7]" "min_be 8 = [8]" by (simp_all add: min_be.simps)
  then show ?thesis
    by (simp add: witnessTx_def txdata_val_def rlp_bytes_def enc_string_def puthead_def enc_items_def)
qed

lemma encodable_witnessTx: "encodable witnessTx"
  using length_witnessTx by (simp add: encodable_def) (simp add: witnessTx_def)

theorem tx_roundtrip_witness:
  "\<exists>b. Tx_EncodeRLP \<lparr>tx_data = witnessTx, tx_meta = zeroMeta\<rparr> = Ok b \<and>
     tx_dec (b @ [9]) = Ok (witnessTx, [9])"
  by (rule tx_roundtrip) (rule encodable_witnessTx)

end
