(* ===== verification/RLP_Progress.thy ===== *)
theory RLP_Progress
  imports RLP_Stream
begin

text \<open>
  Progress of the streaming decoder: no operation puts bytes back into the input. Loops that read
  one value after the other therefore end.
\<close>

section \<open>Decoding never gives bytes back\<close>

definition shrinks :: "(Stream \<Rightarrow> 'a res \<times> Stream) \<Rightarrow> bool" where
  "shrinks f \<longleftrightarrow> (\<forall>s. length (sr (snd (f s))) \<le> length (sr s))"

lemma shrinks_andThen:
  assumes "shrinks f" and "\<And>x. shrinks (g x)"
  shows "shrinks (\<lambda>s. andThen (f s) g)"
  unfolding shrinks_def
proof
  fix s
  obtain r s1 where f: "f s = (r, s1)" by (cases "f s")
  with assms(1) have "length (sr s1) \<le> length (sr s)" unfolding shrinks_def by (metis snd_conv)
  moreover have "length (sr (snd (g x s1))) \<le> length (sr s1)" for x
    using assms(2) unfolding shrinks_def by blast
  ultimately show "length (sr (snd (andThen (f s) g))) \<le> length (sr s)"
    using f by (cases r) (auto intro: order_trans)
qed

lemma shrinks_onErr: "shrinks f \<Longrightarrow> shrinks (\<lambda>s. onErr g (f s))"
  unfolding shrinks_def
proof
  fix s
  assume "\<forall>s. length (sr (snd (f s))) \<le> length (sr s)"
  then show "length (sr (snd (onErr g (f s)))) \<le> length (sr s)"
    by (cases "f s"; cases "fst (f s)") (metis fst_conv onErr.simps snd_conv)+
qed

lemma sr_willRead: "sr (snd (willRead n s)) = sr s"
  by (auto simp: willRead_def Let_def split: list.split)

lemma shrinks_readFull: "shrinks (stream_readFull n)"
  unfolding shrinks_def stream_readFull_def
proof
  fix s
  show "length (sr (snd (andThen (willRead (of_nat n) s) (\<lambda>_ s.
       if length (sr s) < n then (Err ErrUnexpectedEOF, s\<lparr>sr := []\<rparr>)
       else (Ok (take n (sr s)), s\<lparr>sr := drop n (sr s)\<rparr>))))) \<le> length (sr s)"
    using sr_willRead [of "of_nat n" s]
    by (cases "willRead (of_nat n) s"; cases "fst (willRead (of_nat n) s)") auto
qed

lemma shrinks_readByte: "shrinks readByte"
  unfolding shrinks_def readByte_def
proof
  fix s
  show "length (sr (snd (andThen (willRead 1 s) (\<lambda>_ s. case sr s of
         [] \<Rightarrow> (Err ErrUnexpectedEOF, s)
       | b # r \<Rightarrow> (Ok b, s\<lparr>sr := r\<rparr>))))) \<le> length (sr s)"
    using sr_willRead [of 1 s]
    by (cases "willRead 1 s"; cases "fst (willRead 1 s)") (auto split: list.split)
qed

lemma shrinks_same: "(\<And>s. sr (snd (f s)) = sr s) \<Longrightarrow> shrinks f"
  by (simp add: shrinks_def)

lemma shrinks_if: "shrinks f \<Longrightarrow> shrinks g \<Longrightarrow> shrinks (\<lambda>s. if P s then f s else g s)"
  by (simp add: shrinks_def)

lemma shrinks_readUint: "shrinks (stream_readUint n)"
proof -
  have 1: "shrinks (\<lambda>s. andThen (readByte s) (\<lambda>b s. (Ok (ucast b :: u64), s)))"
    by (intro shrinks_andThen shrinks_readByte shrinks_same) simp
  have "shrinks (\<lambda>s. andThen (stream_readFull (unat n) s) (\<lambda>buf s.
        if buf ! 0 = 0 then (Err ErrCanonSize, s) else (Ok (of_nat (be_val buf) :: u64), s)))"
    by (intro shrinks_andThen shrinks_readFull shrinks_same) simp
  with 1 show ?thesis by (simp add: shrinks_def stream_readUint_def)
qed

lemma shrinksD: "shrinks f \<Longrightarrow> f s = (r, s') \<Longrightarrow> length (sr s') \<le> length (sr s)"
  unfolding shrinks_def by (metis snd_conv)

lemma shrinks_readKind: "shrinks stream_readKind"
  unfolding shrinks_def
proof
  fix s
  obtain r s1 where 1: "readByte s = (r, s1)" by (cases "readByte s")
  have l1: "length (sr s1) \<le> length (sr s)" using shrinksD [OF shrinks_readByte 1] .
  have l2: "length (sr s2) \<le> length (sr s)" if "stream_readUint n (s1\<lparr>byteval := 0\<rparr>) = (x, s2)" for n x s2
    using shrinksD [OF shrinks_readUint that] l1 by simp
  show "length (sr (snd (stream_readKind s))) \<le> length (sr s)"
    using 1 l1 l2 by (auto simp: stream_readKind_def Let_def split: res.split prod.split)
qed

lemma sr_Kind_cached: "sr (snd (Kind_cached s k)) = sr s"
  by (simp add: Kind_cached_def split: option.split)

lemma shrinks_Kind: "shrinks Kind"
  unfolding shrinks_def
proof
  fix s :: Stream
  define s0 where "s0 = s\<lparr>kinderr := None\<rparr>"
  obtain r s1 where 1: "stream_readKind s0 = (r, s1)" by (cases "stream_readKind s0")
  have l1: "length (sr s1) \<le> length (sr s)" using shrinksD [OF shrinks_readKind 1] by (simp add: s0_def)
  show "length (sr (snd (Kind s))) \<le> length (sr s)"
  proof (cases "skind s")
    case (Some k)
    then show ?thesis by (simp add: Kind_def sr_Kind_cached)
  next
    case None
    then show ?thesis
      using 1 l1 unfolding Kind_def Let_def s0_def [symmetric]
      by (cases r) (auto simp: sr_Kind_cached s0_def)
  qed
qed

lemma shrinks_kind_case:
  "shrinks f \<Longrightarrow> shrinks g \<Longrightarrow> shrinks h \<Longrightarrow>
   shrinks (\<lambda>s. case k of KByte \<Rightarrow> f s | KString \<Rightarrow> g s | KList \<Rightarrow> h s)"
  by (cases k) simp_all

lemmas shrinks_intros = shrinks_andThen shrinks_onErr shrinks_if shrinks_kind_case shrinks_Kind
  shrinks_readFull shrinks_readUint

lemma shrinks_Bytes: "shrinks stream_Bytes"
  unfolding stream_Bytes_def split_beta by (intro shrinks_intros; simp add: shrinks_def)

lemma shrinks_uint: "shrinks (stream_uint n)"
proof -
  have "shrinks (\<lambda>s. case stream_readUint m s of
               (Ok v, s) \<Rightarrow> if 0 < sz \<and> v < 128 then (Err ErrCanonSize, s) else (Ok v, s)
             | (Err e, s) \<Rightarrow> (Err (if e = ErrCanonSize then ErrCanonInt else e), s)
             | (Panic p, s) \<Rightarrow> (Panic p, s))" for m and sz :: u64
    using shrinksD [OF shrinks_readUint, of m]
    by (auto simp: shrinks_def split: prod.split res.split)
  then show ?thesis
    unfolding stream_uint_def split_beta by (intro shrinks_intros; simp add: shrinks_def)
qed

lemma shrinks_Bool: "shrinks stream_Bool"
  unfolding stream_Bool_def by (intro shrinks_andThen shrinks_uint) (simp add: shrinks_def)

lemma shrinks_List: "shrinks stream_List"
  unfolding stream_List_def split_beta by (intro shrinks_intros; simp add: shrinks_def)

lemma shrinks_ListEnd: "shrinks ListEnd"
  by (simp add: shrinks_def ListEnd_def Let_def split: list.split)

lemma shrinks_ByteArray: "shrinks (decodeByteArray n len)"
proof -
  have "shrinks (\<lambda>s. case stream_Uint s of
               (Ok bv, s) \<Rightarrow> (Ok (VByteArray [ucast bv]), s)
             | (Err _, s) \<Rightarrow> (Ok (VByteArray [0]), s)
             | (Panic p, s) \<Rightarrow> (Panic p, s))"
    using shrinksD [OF shrinks_uint, of 64]
    by (auto simp: shrinks_def stream_Uint_def split: prod.split res.split)
  then show ?thesis
    unfolding decodeByteArray_def split_beta by (intro shrinks_intros; simp add: shrinks_def)
qed


lemma shrinks_fields:
  "(\<And>n t. (n, t) \<in> set fs \<Longrightarrow> shrinks (decoder t)) \<Longrightarrow> shrinks (decodeFields typ fs)"
proof (induction fs)
  case Nil
  show ?case by (simp add: shrinks_def)
next
  case (Cons f fs)
  obtain n t where f: "f = (n, t)" by (cases f)
  with Cons have t: "shrinks (decoder t)" and fs: "shrinks (decodeFields typ fs)" by auto
  show ?case unfolding f decodeFields.simps
    by (intro shrinks_andThen shrinks_onErr t fs) (simp add: shrinks_def)
qed

lemma shrinks_decoder: "shrinks (decoder t)"
proof (induction t)
  case (TStruct n fs)
  then have "shrinks (decodeFields n fs)" by (intro shrinks_fields) force
  then show ?case
    unfolding decoder.simps
    by (intro shrinks_andThen shrinks_onErr shrinks_List shrinks_ListEnd) (simp_all add: shrinks_def)
next
  case (TNilPtr k t)
  then show ?case
    unfolding decoder.simps split_beta
    by (intro shrinks_intros) (simp_all add: shrinks_def)
next
  case (TPtr k t)
  then show ?case unfolding decoder.simps by (intro shrinks_andThen) (simp_all add: shrinks_def)
next
  case (TUint n)
  show ?case unfolding decoder.simps decodeUint_def
    by (intro shrinks_andThen shrinks_onErr shrinks_uint) (simp add: shrinks_def)
next
  case TBool
  show ?case unfolding decoder.simps decodeBool_def
    by (intro shrinks_andThen shrinks_onErr shrinks_Bool) (simp add: shrinks_def)
next
  case TBigInt
  show ?case unfolding decoder.simps decodeBigInt_def
    by (intro shrinks_andThen shrinks_onErr shrinks_Bytes) (simp add: shrinks_def)
next
  case TBytes
  show ?case unfolding decoder.simps decodeByteSlice_def
    by (intro shrinks_andThen shrinks_onErr shrinks_Bytes) (simp add: shrinks_def)
next
  case (TByteArray n len)
  show ?case unfolding decoder.simps by (rule shrinks_ByteArray)
next
  case TString
  show ?case unfolding decoder.simps decodeString_def
    by (intro shrinks_andThen shrinks_onErr shrinks_Bytes) (simp add: shrinks_def)
qed

lemma shrinks_Decode: "shrinks (stream_Decode t)"
  unfolding stream_Decode_def by (intro shrinks_onErr shrinks_decoder)

end
