(* ===== verification/BatchEncoding.thy ===== *)
theory BatchEncoding
  imports Transaction RLP_Progress
begin

text \<open>
  The calldata of a sequencer batch:
  \<open>go/batch-submitter/drivers/sequencer/encoding.go\<close> and \<open>cached_tx.go\<close>. A \<open>bytes.Buffer\<close> is
  the bytes written to it; readers are the bytes left, and they read byte-wise
  (\<open>bytes.Reader\<close>). Brotli is not part of the repository: compression and decompression are
  parameters. Decompression returns the bytes produced before the end of its input or its first
  error, because the caller drops the error.
\<close>

section \<open>Fixed-width integers\<close>

definition TxLenSize :: nat where
  "TxLenSize = 3"

definition ErrMalformedBatch :: go_error where
  "ErrMalformedBatch = GoErr ''malformed batch''"

definition writeUint64 :: "u64 \<Rightarrow> nat \<Rightarrow> bytes res" where
  "writeUint64 val n =
     (if n < 1 \<or> 8 < n then Panic ''invalid number of bytes''
      else
        let maxVal = drop_bit (8 * (8 - n)) (- 1 :: u64) in
        if maxVal < val then Panic ''cannot encode value''
        else Ok (drop (8 - n) (be_bytes 8 (unat val))))"

text \<open>
  One call of \<open>Read\<close> on the last \<open>n\<close> bytes of an 8-byte buffer of zeros. It is not repeated when
  it returns fewer bytes.
\<close>

definition readUint64 :: "nat \<Rightarrow> bytes \<Rightarrow> (u64 \<times> bytes) res" where
  "readUint64 n r =
     res_map (\<lambda>(b, r').
         (of_nat (be_val (replicate (8 - n) 0 @ b @ replicate (n - length b) 0)), r'))
       (readSome n r)"

section \<open>Contexts\<close>

record BatchContext =
  NumSequencedTxs :: u64
  NumSubsequentQueueTxs :: u64
  ctx_Timestamp :: u64
  ctx_BlockNumber :: u64

definition BatchContext_Write :: "BatchContext \<Rightarrow> bytes res" where
  "BatchContext_Write c =
     res_bind (writeUint64 (NumSequencedTxs c) 3) (\<lambda>a.
     res_bind (writeUint64 (NumSubsequentQueueTxs c) 3) (\<lambda>b.
     res_bind (writeUint64 (ctx_Timestamp c) 5) (\<lambda>d.
     res_bind (writeUint64 (ctx_BlockNumber c) 5) (\<lambda>e.
       Ok (a @ b @ d @ e)))))"

definition BatchContext_Read :: "bytes \<Rightarrow> (BatchContext \<times> bytes) res" where
  "BatchContext_Read r =
     res_bind (readUint64 3 r) (\<lambda>(a, r).
     res_bind (readUint64 3 r) (\<lambda>(b, r).
     res_bind (readUint64 5 r) (\<lambda>(d, r).
     res_bind (readUint64 5 r) (\<lambda>(e, r).
       Ok (\<lparr>NumSequencedTxs = a, NumSubsequentQueueTxs = b, ctx_Timestamp = d,
            ctx_BlockNumber = e\<rparr>, r)))))"

datatype BatchType = BatchTypeLegacy | BatchTypeBrotli

definition MarkerContext :: BatchContext where
  "MarkerContext =
     \<lparr>NumSequencedTxs = 0, NumSubsequentQueueTxs = 0, ctx_Timestamp = 0, ctx_BlockNumber = 0\<rparr>"

section \<open>Cached transactions\<close>

record CachedTx =
  cached_tx :: Transaction
  rawTx :: bytes

definition NewCachedTx :: "Transaction \<Rightarrow> CachedTx res" where
  "NewCachedTx tx =
     (case Tx_EncodeRLP tx of
        Ok b \<Rightarrow> Ok \<lparr>cached_tx = tx, rawTx = b\<rparr>
      | Err e \<Rightarrow> Panic (''Unable to encode tx: '' @ errorText e)
      | Panic p \<Rightarrow> Panic p)"

definition CachedTx_Size :: "CachedTx \<Rightarrow> nat" where
  "CachedTx_Size t = length (rawTx t)"

section \<open>Batches\<close>

record AppendSequencerBatchParams =
  ShouldStartAtElement :: u64
  TotalElementsToAppend :: u64
  Contexts :: "BatchContext list"
  Txs :: "CachedTx list"

fun writeContexts :: "BatchContext list \<Rightarrow> bytes res" where
  "writeContexts [] = Ok []"
| "writeContexts (c # cs) =
     res_bind (BatchContext_Write c) (\<lambda>b. res_map ((@) b) (writeContexts cs))"

fun writeTxs :: "CachedTx list \<Rightarrow> bytes res" where
  "writeTxs [] = Ok []"
| "writeTxs (t # ts) =
     res_bind (writeUint64 (of_nat (CachedTx_Size t)) TxLenSize) (\<lambda>b.
       res_map (\<lambda>bs. b @ rawTx t @ bs) (writeTxs ts))"

definition Batch_Write :: "(bytes \<Rightarrow> bytes) \<Rightarrow> AppendSequencerBatchParams \<Rightarrow> bytes res" where
  "Batch_Write compress p =
     res_bind (writeUint64 (ShouldStartAtElement p) 5) (\<lambda>a.
     res_bind (writeUint64 (TotalElementsToAppend p) 3) (\<lambda>b.
       if length (Contexts p) = 0 \<and> length (Txs p) \<noteq> 0 then Err ErrMalformedBatch
       else if length (Txs p) = 0 \<and> length (Contexts p) \<noteq> 0 then Err ErrMalformedBatch
       else
         let cs = MarkerContext # Contexts p in
         res_bind (writeUint64 (of_nat (length cs)) 3) (\<lambda>c.
         res_bind (writeContexts cs) (\<lambda>d.
         res_map (\<lambda>txs. a @ b @ c @ d @ compress txs) (writeTxs (Txs p))))))"

definition Serialize :: "(bytes \<Rightarrow> bytes) \<Rightarrow> AppendSequencerBatchParams \<Rightarrow> bytes res" where
  "Serialize compress p = Batch_Write compress p"

text \<open>
  Reading. The contexts after the first are all kept; the first one is a marker if its timestamp
  is zero.
\<close>

fun readContexts :: "nat \<Rightarrow> bytes \<Rightarrow> (BatchContext list \<times> bytes) res" where
  "readContexts 0 r = Ok ([], r)"
| "readContexts (Suc n) r =
     res_bind (BatchContext_Read r) (\<lambda>(c, r).
       res_map (\<lambda>(cs, r). (c # cs, r)) (readContexts n r))"

lemma readUint64_shorter:
  "readUint64 n r = Ok (v, r') \<Longrightarrow> 0 < n \<Longrightarrow> length r' < length r"
  by (auto simp: readUint64_def readSome_def res_map_eq_Ok split: if_splits)

lemma Tx_DecodeRLP_shorter:
  "Tx_DecodeRLP s = (x, s') \<Longrightarrow> length (sr s') \<le> length (sr s)"
proof -
  assume d: "Tx_DecodeRLP s = (x, s')"
  obtain k s1 where 1: "Kind s = (k, s1)" by (cases "Kind s")
  obtain v s2 where 2: "stream_Decode txdata_type s1 = (v, s2)"
    by (cases "stream_Decode txdata_type s1")
  have "s' = s2" using d 1 2 by (cases v) (auto simp: Tx_DecodeRLP_def)
  with shrinksD [OF shrinks_Kind 1] shrinksD [OF shrinks_Decode 2] show ?thesis by simp
qed

text \<open>
  The number of transactions is not written, so they are read until a length meets the end of the
  input. Every round reads at least one byte.
\<close>

function readTxs :: "bytes \<Rightarrow> CachedTx list res" where
  "readTxs r =
     (case readUint64 TxLenSize r of
        Err e \<Rightarrow> if e = EOF then Ok [] else Err e
      | Panic p \<Rightarrow> Panic p
      | Ok (txLen, r1) \<Rightarrow>
          (case Tx_DecodeRLP (NewStream True r1 txLen) of
             (Err e, _) \<Rightarrow> Err e
           | (Panic p, _) \<Rightarrow> Panic p
           | (Ok tx, s) \<Rightarrow>
               res_bind (NewCachedTx tx) (\<lambda>t. res_map ((#) t) (readTxs (sr s)))))"
  by pat_completeness auto
termination
proof (relation "measure length", simp)
  fix r x txLen r1 y z tx s
  assume "readUint64 TxLenSize r = Ok x" "(txLen, r1) = x"
    "(z, s) = Tx_DecodeRLP (NewStream True r1 txLen)"
  then have "length r1 < length r" "length (sr s) \<le> length r1"
    using readUint64_shorter [of TxLenSize r txLen r1]
      Tx_DecodeRLP_shorter [of "NewStream True r1 txLen" z s]
    by (auto simp: TxLenSize_def NewStream_def Reset_def)
  then show "(sr s, r) \<in> measure length" by simp
qed

declare readTxs.simps [simp del]

definition Batch_Read ::
    "(bytes \<Rightarrow> bytes) \<Rightarrow> AppendSequencerBatchParams \<Rightarrow> bytes \<Rightarrow> AppendSequencerBatchParams res" where
  "Batch_Read decompress p r =
     res_bind (readUint64 5 r) (\<lambda>(start, r).
     res_bind (readUint64 3 r) (\<lambda>(total, r).
     res_bind (readUint64 3 r) (\<lambda>(numContexts, r).
     res_bind (readContexts (unat numContexts) r) (\<lambda>(cs, r).
       let (batchType, kept) =
             (case cs of
                c # cs' \<Rightarrow> if ctx_Timestamp c = 0 then (BatchTypeBrotli, cs') else (BatchTypeLegacy, cs)
              | [] \<Rightarrow> (BatchTypeLegacy, []));
           r' = (if batchType = BatchTypeBrotli then decompress r else r)
       in res_bind (readTxs r') (\<lambda>txs.
            let all = Txs p @ txs in
            if length kept = 0 \<and> length all \<noteq> 0 then Err ErrMalformedBatch
            else if length all = 0 \<and> length kept \<noteq> 0 then Err ErrMalformedBatch
            else Ok \<lparr>ShouldStartAtElement = start, TotalElementsToAppend = total,
                     Contexts = kept, Txs = all\<rparr>)))))"

section \<open>Round trip\<close>

lemma drop_be_bytes: "drop k (be_bytes (k + n) v) = be_bytes n v"
  by (induction n arbitrary: v) simp_all

lemma maxVal:
  assumes "1 \<le> n" and "n \<le> 8"
  shows "unat (drop_bit (8 * (8 - n)) (- 1 :: u64)) = 256 ^ n - 1"
proof -
  have "unat (- 1 :: u64) = 18446744073709551615"
    by (simp add: unsigned_minus_1_eq_mask mask_eq_exp_minus_1)
  moreover have "n \<in> {1, 2, 3, 4, 5, 6, 7, 8}" using assms by auto
  ultimately show ?thesis unfolding unat_drop_bit_u64 by auto
qed

lemma writeUint64_Ok:
  assumes "1 \<le> n" and "n \<le> 8" and "unat val < 256 ^ n"
  shows "writeUint64 val n = Ok (be_bytes n (unat val))"
proof -
  have "\<not> drop_bit (8 * (8 - n)) (- 1 :: u64) < val"
    unfolding word_less_nat_alt maxVal [OF assms(1,2)] using assms(3) by simp
  moreover have "drop (8 - n) (be_bytes 8 (unat val)) = be_bytes n (unat val)"
    using drop_be_bytes [of "8 - n" n "unat val"] assms by simp
  ultimately show ?thesis using assms by (simp add: writeUint64_def)
qed

lemma writeUint64_panic:
  assumes "1 \<le> n" and "n \<le> 8" and "256 ^ n \<le> unat val"
  shows "\<exists>m. writeUint64 val n = Panic m"
proof -
  have "drop_bit (8 * (8 - n)) (- 1 :: u64) < val"
    unfolding word_less_nat_alt maxVal [OF assms(1,2)] using assms(3)
    by (simp add: Suc_le_lessD less_le_trans [OF diff_less])
  then show ?thesis using assms by (simp add: writeUint64_def)
qed

lemma be_val_zeros [simp]: "be_val (replicate n 0 @ bs) = be_val bs"
proof -
  have "be_val (replicate n 0) = 0" by (induction n) (simp_all add: be_val_Cons)
  then show ?thesis by (simp add: be_val_append)
qed

lemma readUint64_be_bytes [reader_simps]:
  assumes "1 \<le> n" and "n \<le> 8" and "unat val < 256 ^ n"
  shows "readUint64 n (be_bytes n (unat val) @ r) = Ok (val, r)"
  using assms by (simp add: readUint64_def reader_simps byte_simps)

lemma take_be_bytes: "take k (be_bytes (k + m) v) = be_bytes k (v div 256 ^ m)"
proof (induction m arbitrary: v)
  case 0
  show ?case by simp
next
  case (Suc m)
  then show ?case by (simp add: div_mult2_eq)
qed

text \<open>A read that ends early leaves zeros in the low bytes.\<close>

lemma readUint64_short:
  assumes "0 < k" and "k < n" and "n \<le> 8" and "v < 256 ^ k" and "v * 256 ^ (n - k) < 256 ^ n"
  shows "\<exists>w. readUint64 n (be_bytes k v) = Ok (w, []) \<and> unat w = v * 256 ^ (n - k)"
proof -
  have z: "be_val (replicate m 0) = 0" for m by (induction m) (simp_all add: be_val_Cons)
  have "v * 256 ^ (n - k) < 2 ^ 64"
    using assms(3,5) by (intro less_le_trans [OF assms(5)]) (simp add: power_increasing [of n 8 256, simplified])
  moreover have "be_bytes k v \<noteq> []" using assms(1) by (auto dest: arg_cong [of _ _ length])
  ultimately show ?thesis
    using assms
    by (simp add: readUint64_def readSome_def be_val_append byte_simps z unat_of_nat_u64
        del: of_nat_mult of_nat_power)
qed

text \<open>The contexts and batches whose fields fit their encoding.\<close>

definition ctx_fits :: "BatchContext \<Rightarrow> bool" where
  "ctx_fits c \<longleftrightarrow> unat (NumSequencedTxs c) < 256 ^ 3 \<and> unat (NumSubsequentQueueTxs c) < 256 ^ 3 \<and>
     unat (ctx_Timestamp c) < 256 ^ 5 \<and> unat (ctx_BlockNumber c) < 256 ^ 5"

definition ctx_bytes :: "BatchContext \<Rightarrow> bytes" where
  "ctx_bytes c = be_bytes 3 (unat (NumSequencedTxs c)) @ be_bytes 3 (unat (NumSubsequentQueueTxs c)) @
     be_bytes 5 (unat (ctx_Timestamp c)) @ be_bytes 5 (unat (ctx_BlockNumber c))"

lemma BatchContext_Write_Ok: "ctx_fits c \<Longrightarrow> BatchContext_Write c = Ok (ctx_bytes c)"
  by (simp add: ctx_fits_def BatchContext_Write_def writeUint64_Ok ctx_bytes_def)

lemma BatchContext_Read_bytes: "ctx_fits c \<Longrightarrow> BatchContext_Read (ctx_bytes c @ r) = Ok (c, r)"
  by (simp add: ctx_fits_def BatchContext_Read_def ctx_bytes_def reader_simps)

interpretation batch_context: prefix_codec ctx_bytes BatchContext_Read ctx_fits
  by unfold_locales (rule BatchContext_Read_bytes)

lemma writeContexts_Ok:
  "\<forall>c \<in> set cs. ctx_fits c \<Longrightarrow> writeContexts cs = Ok (concat (map ctx_bytes cs))"
  by (induction cs) (simp_all add: BatchContext_Write_Ok)

lemma readContexts_bytes:
  "\<forall>c \<in> set cs. ctx_fits c \<Longrightarrow>
   readContexts (length cs) (concat (map ctx_bytes cs) @ r) = Ok (cs, r)"
  by (induction cs) (simp_all add: batch_context.dec_enc)

text \<open>
  A cached transaction holds its own encoding, and its length fits into three bytes. Reading it
  back gives the transaction without metadata.
\<close>

definition tx_fits :: "CachedTx \<Rightarrow> bool" where
  "tx_fits t \<longleftrightarrow> encodable (tx_data (cached_tx t)) \<and> NewCachedTx (cached_tx t) = Ok t \<and>
     length (rawTx t) < 256 ^ 3"

definition strip :: "CachedTx \<Rightarrow> CachedTx" where
  "strip t = t\<lparr>cached_tx := (cached_tx t)\<lparr>tx_meta := zeroMeta\<rparr>\<rparr>"

definition tx_bytes :: "CachedTx \<Rightarrow> bytes" where
  "tx_bytes t = be_bytes 3 (length (rawTx t)) @ rawTx t"

lemma rawTx_rlp: "tx_fits t \<Longrightarrow> rawTx t = rlp_bytes (txdata_val (tx_data (cached_tx t)))"
  by (cases t) (auto simp: tx_fits_def NewCachedTx_def Tx_EncodeRLP_Ok)

lemma NewCachedTx_strip:
  assumes "tx_fits t"
  shows "NewCachedTx \<lparr>tx_data = tx_data (cached_tx t), tx_meta = zeroMeta\<rparr> = Ok (strip t)"
  using assms rawTx_rlp [OF assms]
  by (simp add: NewCachedTx_def Tx_EncodeRLP_Ok tx_fits_def strip_def)

lemma writeTxs_Ok:
  "\<forall>t \<in> set ts. tx_fits t \<Longrightarrow> writeTxs ts = Ok (concat (map tx_bytes ts))"
proof (induction ts)
  case Nil
  show ?case by simp
next
  case (Cons t ts)
  have "unat (of_nat (CachedTx_Size t) :: u64) = length (rawTx t)" "length (rawTx t) < 256 ^ 3"
    using Cons.prems by (simp_all add: CachedTx_Size_def tx_fits_def unat_of_nat)
  with Cons show ?case
    by (simp add: writeUint64_Ok TxLenSize_def tx_bytes_def)
qed

lemma readTxs_Cons:
  assumes "tx_fits t"
  shows "readTxs (tx_bytes t @ r) = res_map ((#) (strip t)) (readTxs r)"
proof -
  let ?d = "tx_data (cached_tx t)" and ?n = "of_nat (length (rawTx t)) :: u64"
  have len: "unat ?n = length (rawTx t)" "length (rawTx t) < 256 ^ 3"
    using assms by (simp_all add: tx_fits_def unat_of_nat)
  have d: "encodable ?d" using assms by (simp add: tx_fits_def)
  have raw: "rawTx t = rlp_bytes (txdata_val ?d)" by (rule rawTx_rlp [OF assms])
  let ?s = "NewStream True (rawTx t @ r) ?n"
  have "ready ?s (rlp_bytes (txdata_val ?d) @ []) r" "skind ?s = None"
    using ready_NewStream [of "rawTx t" ?n True r] len raw by simp_all
  from Tx_DecodeRLP_ready [OF d this(2,1)] obtain s' where
    s': "Tx_DecodeRLP ?s = (Ok \<lparr>tx_data = ?d, tx_meta = zeroMeta\<rparr>, s')" "sr s' = r"
    by (auto simp: moved_def NewStream_def Reset_def raw)
  have "readUint64 TxLenSize (tx_bytes t @ r) = Ok (?n, rawTx t @ r)"
    using readUint64_be_bytes [of 3 ?n "rawTx t @ r"] len by (simp add: tx_bytes_def TxLenSize_def)
  with s' NewCachedTx_strip [OF assms] show ?thesis
    by (simp add: readTxs.simps [of "tx_bytes t @ r"])
qed

lemma readTxs_Nil [simp]: "readTxs [] = Ok []"
  by (simp add: readTxs.simps readUint64_def readSome_def TxLenSize_def)

lemma readTxs_bytes:
  "\<forall>t \<in> set ts. tx_fits t \<Longrightarrow> readTxs (concat (map tx_bytes ts)) = Ok (map strip ts)"
  by (induction ts) (simp_all add: readTxs_Cons)

definition batch_fits :: "AppendSequencerBatchParams \<Rightarrow> bool" where
  "batch_fits p \<longleftrightarrow> unat (ShouldStartAtElement p) < 256 ^ 5 \<and>
     unat (TotalElementsToAppend p) < 256 ^ 3 \<and> length (Contexts p) + 1 < 256 ^ 3 \<and>
     (\<forall>c \<in> set (Contexts p). ctx_fits c) \<and> (\<forall>t \<in> set (Txs p). tx_fits t) \<and>
     (Contexts p = [] \<longleftrightarrow> Txs p = [])"

definition emptyBatch :: AppendSequencerBatchParams where
  "emptyBatch = \<lparr>ShouldStartAtElement = 0, TotalElementsToAppend = 0, Contexts = [], Txs = []\<rparr>"

definition batch_bytes :: "(bytes \<Rightarrow> bytes) \<Rightarrow> AppendSequencerBatchParams \<Rightarrow> bytes" where
  "batch_bytes compress p =
     be_bytes 5 (unat (ShouldStartAtElement p)) @ be_bytes 3 (unat (TotalElementsToAppend p)) @
     be_bytes 3 (Suc (length (Contexts p))) @ concat (map ctx_bytes (MarkerContext # Contexts p)) @
     compress (concat (map tx_bytes (Txs p)))"

lemma ctx_fits_marker: "ctx_fits MarkerContext"
  by (simp add: ctx_fits_def MarkerContext_def)

lemma marker_timestamp [simp]: "ctx_Timestamp MarkerContext = 0"
  by (simp add: MarkerContext_def)

lemma Serialize_bytes:
  assumes "batch_fits p"
  shows "Serialize compress p = Ok (batch_bytes compress p)"
proof -
  have "unat (of_nat (Suc (length (Contexts p))) :: u64) = Suc (length (Contexts p))"
    using assms by (intro unat_of_nat_u64) (simp add: batch_fits_def)
  then have n: "writeUint64 (of_nat (Suc (length (Contexts p)))) 3 = Ok (be_bytes 3 (Suc (length (Contexts p))))"
    using assms writeUint64_Ok [of 3 "of_nat (Suc (length (Contexts p)))"] by (simp add: batch_fits_def)
  have "writeContexts (MarkerContext # Contexts p) = Ok (concat (map ctx_bytes (MarkerContext # Contexts p)))"
    using assms ctx_fits_marker by (intro writeContexts_Ok) (simp add: batch_fits_def)
  with n assms show ?thesis
    by (auto simp: Serialize_def Batch_Write_def batch_fits_def writeUint64_Ok writeTxs_Ok batch_bytes_def
        Let_def simp del: writeContexts.simps be_bytes.simps of_nat_Suc)
qed

lemma Batch_Read_bytes:
  assumes "batch_fits p" and "decompress (compress (concat (map tx_bytes (Txs p)))) = concat (map tx_bytes (Txs p))"
  shows "Batch_Read decompress emptyBatch (batch_bytes compress p) = Ok (p\<lparr>Txs := map strip (Txs p)\<rparr>)"
proof -
  let ?n = "of_nat (Suc (length (Contexts p))) :: u64"
  have n: "unat ?n = Suc (length (Contexts p))" "Suc (length (Contexts p)) < 256 ^ 3"
    using assms by (simp_all add: batch_fits_def unat_of_nat_u64 del: of_nat_Suc)
  have num: "readUint64 3 (be_bytes 3 (Suc (length (Contexts p))) @ r) = Ok (?n, r)" for r
    using readUint64_be_bytes [of 3 ?n r] n by (simp del: of_nat_Suc be_bytes.simps)
  have ctxs: "readContexts (Suc (length (Contexts p)))
      (concat (map ctx_bytes (MarkerContext # Contexts p)) @ r) = Ok (MarkerContext # Contexts p, r)" for r
    using readContexts_bytes [of "MarkerContext # Contexts p" r] assms ctx_fits_marker
    by (simp add: batch_fits_def del: readContexts.simps)
  have txs: "readTxs (concat (map tx_bytes (Txs p))) = Ok (map strip (Txs p))"
    using assms by (intro readTxs_bytes) (simp add: batch_fits_def)
  show ?thesis
    using assms num ctxs txs n
    by (auto simp: Batch_Read_def batch_bytes_def emptyBatch_def batch_fits_def reader_simps Let_def
        simp del: readContexts.simps be_bytes.simps of_nat_Suc)
qed

section \<open>Properties\<close>

text \<open>
  C10: A batch whose fields fit their widths, and which has contexts exactly if it has
  transactions, is serialized without an error, and reading the bytes gives the batch back
  (transactions without their local metadata), provided that decompression undoes compression.
\<close>

theorem Batch_roundtrip:
  assumes "batch_fits p" and "\<And>x. decompress (compress x) = x"
  shows "res_bind (Serialize compress p) (Batch_Read decompress emptyBatch) =
    Ok (p\<lparr>Txs := map strip (Txs p)\<rparr>)"
  using assms by (simp add: Serialize_bytes Batch_Read_bytes)

definition witnessCachedTx :: CachedTx where
  "witnessCachedTx = \<lparr>cached_tx = \<lparr>tx_data = witnessTx, tx_meta = zeroMeta\<rparr>,
     rawTx = rlp_bytes (txdata_val witnessTx)\<rparr>"

definition witnessBatch :: AppendSequencerBatchParams where
  "witnessBatch = \<lparr>ShouldStartAtElement = 9, TotalElementsToAppend = 2,
     Contexts = [\<lparr>NumSequencedTxs = 1, NumSubsequentQueueTxs = 1, ctx_Timestamp = 100, ctx_BlockNumber = 7\<rparr>],
     Txs = [witnessCachedTx]\<rparr>"

lemma tx_fits_witness: "tx_fits witnessCachedTx"
proof -
  have "length (rlp_bytes (txdata_val witnessTx)) < 256 ^ 3"
    using length_witnessTx by simp
  then show ?thesis
    using encodable_witnessTx Tx_EncodeRLP_Ok [of "\<lparr>tx_data = witnessTx, tx_meta = zeroMeta\<rparr>"]
    by (simp add: tx_fits_def witnessCachedTx_def NewCachedTx_def)
qed

lemma batch_fits_witness: "batch_fits witnessBatch"
  using tx_fits_witness by (simp add: batch_fits_def witnessBatch_def ctx_fits_def)

theorem Batch_roundtrip_witness:
  "res_bind (Serialize rev witnessBatch) (Batch_Read rev emptyBatch) =
     Ok (witnessBatch\<lparr>Txs := map strip (Txs witnessBatch)\<rparr>)"
  by (rule Batch_roundtrip) (simp_all add: batch_fits_witness)

text \<open>
  A context that is cut off inside its last field is read without an error, although fewer
  than 16 bytes remain: the missing low bytes of the block number are taken as zeros.
\<close>

theorem BatchContext_short_read:
  assumes "ctx_fits c" and "0 < k" and "k < 5"
  shows "\<exists>c'. BatchContext_Read (take (11 + k) (ctx_bytes c)) = Ok (c', []) \<and>
    unat (ctx_BlockNumber c') = unat (ctx_BlockNumber c) div 256 ^ (5 - k) * 256 ^ (5 - k)"
proof -
  let ?v = "unat (ctx_BlockNumber c)"
  have t: "take (11 + k) (ctx_bytes c) = be_bytes 3 (unat (NumSequencedTxs c)) @
      be_bytes 3 (unat (NumSubsequentQueueTxs c)) @ be_bytes 5 (unat (ctx_Timestamp c)) @
      be_bytes k (?v div 256 ^ (5 - k))"
    using take_be_bytes [of k "5 - k" ?v] assms(3) by (simp add: ctx_bytes_def)
  have le: "?v div 256 ^ (5 - k) * 256 ^ (5 - k) < 256 ^ 5"
    using assms(1) by (intro le_less_trans [OF div_times_less_eq_dividend]) (simp add: ctx_fits_def)
  have lt: "?v div 256 ^ (5 - k) < 256 ^ k"
    using assms(1,3) by (simp add: ctx_fits_def div_less_iff_less_mult flip: power_add)
  obtain w where w: "readUint64 5 (be_bytes k (?v div 256 ^ (5 - k))) = Ok (w, [])"
    "unat w = ?v div 256 ^ (5 - k) * 256 ^ (5 - k)"
    using assms(2,3) le lt readUint64_short [of k 5 "?v div 256 ^ (5 - k)"] by auto
  show ?thesis
    unfolding t using assms(1) w
    by (simp add: ctx_fits_def BatchContext_Read_def reader_simps)
qed

theorem BatchContext_short_read_witness:
  "\<exists>c'. BatchContext_Read [0, 0, 1, 0, 0, 0, 0, 0, 0, 0, 100, 0, 2] = Ok (c', [])"
proof -
  let ?c = "\<lparr>NumSequencedTxs = 1, NumSubsequentQueueTxs = 0, ctx_Timestamp = 100, ctx_BlockNumber = 0x20000aa\<rparr>"
  have "take (11 + 2) (ctx_bytes ?c) = [0, 0, 1, 0, 0, 0, 0, 0, 0, 0, 100, 0, 2]"
    by (simp add: ctx_bytes_def be_bytes_map upt_rec)
  moreover have "ctx_fits ?c" by (simp add: ctx_fits_def)
  ultimately show ?thesis using BatchContext_short_read [of ?c 2] by auto
qed

end
