(* ===== verification/SequencerBatch.thy ===== *)
theory SequencerBatch
  imports BatchEncoding
begin

text \<open>
  Building a sequencer batch from L2 blocks:
  \<open>go/batch-submitter/drivers/sequencer/batch.go\<close>. Of an L2 block the code looks at the time
  and the transactions.
\<close>

section \<open>Elements\<close>

record BatchElement =
  el_Timestamp :: u64
  el_BlockNumber :: u64
  el_Tx :: "CachedTx option"

definition IsSequencerTx :: "BatchElement \<Rightarrow> bool" where
  "IsSequencerTx b \<longleftrightarrow> el_Tx b \<noteq> None"

record L2Block =
  blk_Time :: u64
  blk_Txs :: "Transaction list"

definition ErrBlockWithInvalidContext :: go_error where
  "ErrBlockWithInvalidContext =
     GoErr ''attempted to generate batch context with 0 queued and 0 sequenced txs''"

text \<open>
  The calldata of a transaction is replaced by a version byte, the length of the Turing data in two
  bytes, the old calldata and the Turing data. The replacement is done in the block's own
  transaction, so the block is returned as well. A missing L1 block number is a nil pointer.
\<close>

definition turingData :: "bytes option \<Rightarrow> bytes" where
  "turingData t = (case t of None \<Rightarrow> [] | Some b \<Rightarrow> b)"

definition graftTuring :: "bytes option \<Rightarrow> bytes \<Rightarrow> bytes" where
  "graftTuring l1Turing txData =
     (let ret = [1] in
      if 1 < length (turingData l1Turing) then
        ret @ be_bytes 2 (length (turingData l1Turing)) @ txData @ turingData l1Turing
      else ret @ [0, 0] @ txData)"

definition BatchElementFromBlock :: "L2Block \<Rightarrow> (BatchElement \<times> L2Block) res" where
  "BatchElementFromBlock block =
     (case blk_Txs block of
        [tx0] \<Rightarrow>
          let tx = SetData (graftTuring (L1Turing (GetMeta tx0)) (Payload (tx_data tx0))) tx0 in
          (case L1BlockNumber (tx_meta tx) of
             None \<Rightarrow> Panic ''invalid memory address or nil pointer dereference''
           | Some n \<Rightarrow>
               let l1BlockNumber = of_int \<bar>n\<bar>;
                   element = (\<lambda>t. (\<lparr>el_Timestamp = blk_Time block, el_BlockNumber = l1BlockNumber,
                     el_Tx = t\<rparr>, block\<lparr>blk_Txs := [tx]\<rparr>))
               in if QueueOrigin (tx_meta tx) = QueueOriginSequencer
                  then res_map (\<lambda>t. element (Some t)) (NewCachedTx tx)
                  else Ok (element None))
      | _ \<Rightarrow> Panic ''attempting to create batch element from block, found other than 1 txs'')"

section \<open>Grouping\<close>

record groupedBlock =
  sequenced :: "BatchElement list"
  queued :: "BatchElement list"

record groupState =
  groupedBlocks :: "groupedBlock list"
  group_txs :: "CachedTx list"
  lastBlockIsSequencerTx :: bool
  lastTimestamp :: u64
  lastBlockNumber :: u64

definition groupInit :: groupState where
  "groupInit = \<lparr>groupedBlocks = [], group_txs = [], lastBlockIsSequencerTx = False,
     lastTimestamp = 0, lastBlockNumber = 0\<rparr>"

definition needsNewGroup :: "groupState \<Rightarrow> BatchElement \<Rightarrow> bool" where
  "needsNewGroup gs el \<longleftrightarrow>
     length (groupedBlocks gs) = 0 \<or> el_Timestamp el \<noteq> lastTimestamp gs \<or>
     (IsSequencerTx el \<and>
      (\<not> lastBlockIsSequencerTx gs \<or> el_BlockNumber el \<noteq> lastBlockNumber gs))"

text \<open>One round of the loop over the elements.\<close>

definition groupStep :: "groupState \<Rightarrow> BatchElement \<Rightarrow> groupState" where
  "groupStep gs el =
     (let groups = (if needsNewGroup gs el
                    then groupedBlocks gs @ [\<lparr>sequenced = [], queued = []\<rparr>]
                    else groupedBlocks gs);
          cur = length groups - 1;
          g = groups ! cur
      in case el_Tx el of
           Some t \<Rightarrow>
             gs\<lparr>groupedBlocks := groups[cur := g\<lparr>sequenced := sequenced g @ [el]\<rparr>],
                group_txs := group_txs gs @ [t],
                lastBlockIsSequencerTx := True,
                lastTimestamp := el_Timestamp el, lastBlockNumber := el_BlockNumber el\<rparr>
         | None \<Rightarrow>
             gs\<lparr>groupedBlocks := groups[cur := g\<lparr>queued := queued g @ [el]\<rparr>],
                lastBlockIsSequencerTx := False,
                lastTimestamp := el_Timestamp el, lastBlockNumber := el_BlockNumber el\<rparr>)"

definition groupContext :: "groupedBlock \<Rightarrow> BatchContext res" where
  "groupContext block =
     (let numSequencedTxs = of_nat (length (sequenced block)) :: u64;
          numSubsequentQueueTxs = of_nat (length (queued block)) :: u64
      in if numSequencedTxs = 0 \<and> numSubsequentQueueTxs = 0 then Err ErrBlockWithInvalidContext
         else
           let first = (if 0 < numSequencedTxs then sequenced block ! 0 else queued block ! 0)
           in Ok \<lparr>NumSequencedTxs = numSequencedTxs,
                  NumSubsequentQueueTxs = numSubsequentQueueTxs,
                  ctx_Timestamp = el_Timestamp first, ctx_BlockNumber = el_BlockNumber first\<rparr>)"

fun groupContexts :: "groupedBlock list \<Rightarrow> BatchContext list res" where
  "groupContexts [] = Ok []"
| "groupContexts (g # gs) = res_bind (groupContext g) (\<lambda>c. res_map ((#) c) (groupContexts gs))"

definition GenSequencerBatchParams ::
    "u64 \<Rightarrow> u64 \<Rightarrow> BatchElement list \<Rightarrow> AppendSequencerBatchParams res" where
  "GenSequencerBatchParams shouldStartAtElement blockOffset batch =
     (let gs = foldl groupStep groupInit batch in
      res_map (\<lambda>cs.
          \<lparr>ShouldStartAtElement = shouldStartAtElement - blockOffset,
           TotalElementsToAppend = of_nat (length batch), Contexts = cs, Txs = group_txs gs\<rparr>)
        (groupContexts (groupedBlocks gs)))"

section \<open>What the contexts say\<close>

text \<open>
  The view of a batch that a reader of the calldata reconstructs from contexts and transactions:
  for each context its sequencer transactions with the context's timestamp and block number, then
  its queued transactions, of which only the timestamp is known.
\<close>

type_synonym element_view = "u64 \<times> (u64 \<times> CachedTx) option"

definition view :: "BatchElement \<Rightarrow> element_view" where
  "view el = (el_Timestamp el, map_option (Pair (el_BlockNumber el)) (el_Tx el))"

fun expand :: "BatchContext list \<Rightarrow> CachedTx list \<Rightarrow> element_view list" where
  "expand [] txs = []"
| "expand (c # cs) txs =
     map (\<lambda>t. (ctx_Timestamp c, Some (ctx_BlockNumber c, t))) (take (unat (NumSequencedTxs c)) txs) @
     replicate (unat (NumSubsequentQueueTxs c)) (ctx_Timestamp c, None) @
     expand cs (drop (unat (NumSequencedTxs c)) txs)"

text \<open>A group is well formed: not empty, one timestamp, and one block number for its sequencer part.\<close>

definition group_elements :: "groupedBlock \<Rightarrow> BatchElement list" where
  "group_elements g = sequenced g @ queued g"

definition group_ts :: "groupedBlock \<Rightarrow> u64" where
  "group_ts g = el_Timestamp (hd (group_elements g))"

definition group_bn :: "groupedBlock \<Rightarrow> u64" where
  "group_bn g = el_BlockNumber (hd (group_elements g))"

definition group_ok :: "groupedBlock \<Rightarrow> bool" where
  "group_ok g \<longleftrightarrow> group_elements g \<noteq> [] \<and>
     (\<forall>e \<in> set (group_elements g). el_Timestamp e = group_ts g) \<and>
     (\<forall>e \<in> set (sequenced g). IsSequencerTx e \<and> el_BlockNumber e = group_bn g) \<and>
     (\<forall>e \<in> set (queued g). \<not> IsSequencerTx e)"

definition seq_txs :: "BatchElement list \<Rightarrow> CachedTx list" where
  "seq_txs els = List.map_filter el_Tx els"

definition group_inv :: "BatchElement list \<Rightarrow> groupState \<Rightarrow> bool" where
  "group_inv els gs \<longleftrightarrow>
     concat (map group_elements (groupedBlocks gs)) = els \<and>
     (\<forall>g \<in> set (groupedBlocks gs). group_ok g) \<and>
     group_txs gs = seq_txs els \<and>
     (groupedBlocks gs \<noteq> [] \<longrightarrow>
       (let g = last (groupedBlocks gs) in
        lastTimestamp gs = group_ts g \<and>
        (lastBlockIsSequencerTx gs \<longleftrightarrow> queued g = []) \<and>
        (queued g = [] \<longrightarrow> lastBlockNumber gs = group_bn g)))"

definition openGroups :: "groupState \<Rightarrow> BatchElement \<Rightarrow> groupedBlock list" where
  "openGroups gs el =
     (if needsNewGroup gs el then groupedBlocks gs @ [\<lparr>sequenced = [], queued = []\<rparr>]
      else groupedBlocks gs)"

definition addTo :: "groupedBlock \<Rightarrow> BatchElement \<Rightarrow> groupedBlock" where
  "addTo g el = (if IsSequencerTx el then g\<lparr>sequenced := sequenced g @ [el]\<rparr>
     else g\<lparr>queued := queued g @ [el]\<rparr>)"

lemma openGroups_not_Nil: "openGroups gs el \<noteq> []"
  by (auto simp: openGroups_def needsNewGroup_def)

lemma groupStep_last:
  "groupStep gs el =
     gs\<lparr>groupedBlocks := butlast (openGroups gs el) @ [addTo (last (openGroups gs el)) el],
        group_txs := group_txs gs @ seq_txs [el],
        lastBlockIsSequencerTx := IsSequencerTx el,
        lastTimestamp := el_Timestamp el, lastBlockNumber := el_BlockNumber el\<rparr>"
proof -
  have upd: "xs[length xs - Suc 0 := y] = butlast xs @ [y]" "xs ! (length xs - Suc 0) = last xs"
    if "xs \<noteq> []" for xs :: "groupedBlock list" and y
    using that by (cases xs rule: rev_cases; simp)+
  show ?thesis
    using openGroups_not_Nil [of gs el]
    unfolding groupStep_def openGroups_def [symmetric] Let_def
    by (cases "el_Tx el")
      (simp_all add: upd addTo_def IsSequencerTx_def seq_txs_def
        map_filter_simps)
qed

lemma seq_txs_append [simp]: "seq_txs (xs @ ys) = seq_txs xs @ seq_txs ys"
  by (simp add: seq_txs_def List.map_filter_def)

lemma group_new:
  fixes el
  defines "g \<equiv> addTo \<lparr>sequenced = [], queued = []\<rparr> el"
  shows "group_ok g" "group_elements g = [el]" "group_ts g = el_Timestamp el"
    "group_bn g = el_BlockNumber el" "queued g = [] \<longleftrightarrow> IsSequencerTx el"
  by (simp_all add: g_def group_ok_def addTo_def group_elements_def group_ts_def group_bn_def)

lemma group_addTo:
  assumes "group_ok g" and "el_Timestamp el = group_ts g"
    and "IsSequencerTx el \<Longrightarrow> queued g = [] \<and> el_BlockNumber el = group_bn g"
  shows "group_ok (addTo g el)" "group_elements (addTo g el) = group_elements g @ [el]"
    "group_ts (addTo g el) = group_ts g" "group_bn (addTo g el) = group_bn g"
    "queued (addTo g el) = [] \<longleftrightarrow> IsSequencerTx el"
proof -
  show els: "group_elements (addTo g el) = group_elements g @ [el]"
    using assms(3) by (simp add: addTo_def group_elements_def)
  have "group_elements g \<noteq> []" using assms(1) by (simp add: group_ok_def)
  then show ts: "group_ts (addTo g el) = group_ts g" and bn: "group_bn (addTo g el) = group_bn g"
    by (simp_all add: group_ts_def group_bn_def els)
  show "queued (addTo g el) = [] \<longleftrightarrow> IsSequencerTx el"
    using assms(3) by (auto simp: addTo_def)
  show "group_ok (addTo g el)"
    unfolding group_ok_def ts bn els using assms by (auto simp: group_ok_def addTo_def)
qed

lemma group_inv_step:
  assumes "group_inv els gs"
  shows "group_inv (els @ [el]) (groupStep gs el)"
proof (cases "needsNewGroup gs el")
  case True
  then have "butlast (openGroups gs el) = groupedBlocks gs"
    and "last (openGroups gs el) = \<lparr>sequenced = [], queued = []\<rparr>"
    by (simp_all add: openGroups_def)
  with assms group_new [of el] show ?thesis
    by (auto simp: group_inv_def groupStep_last Let_def)
next
  case False
  then obtain xs g where gs: "groupedBlocks gs = xs @ [g]"
    by (cases "groupedBlocks gs" rule: rev_cases) (auto simp: needsNewGroup_def)
  have inv: "group_ok g" "lastTimestamp gs = group_ts g"
    "lastBlockIsSequencerTx gs \<longleftrightarrow> queued g = []"
    "queued g = [] \<Longrightarrow> lastBlockNumber gs = group_bn g"
    using assms gs by (simp_all add: group_inv_def Let_def)
  have ts: "el_Timestamp el = group_ts g"
    using False inv(2) by (simp add: needsNewGroup_def)
  have sq: "queued g = [] \<and> el_BlockNumber el = group_bn g" if "IsSequencerTx el"
    using False that inv(3,4) by (simp add: needsNewGroup_def)
  have "butlast (openGroups gs el) = xs" "last (openGroups gs el) = g"
    using False gs by (simp_all add: openGroups_def)
  with assms gs group_addTo [OF inv(1) ts sq] ts sq show ?thesis
    by (auto simp: group_inv_def groupStep_last Let_def)
qed

lemma group_inv_foldl: "group_inv els (foldl groupStep groupInit els)"
proof (induction els rule: rev_induct)
  case Nil
  show ?case by (simp add: group_inv_def groupInit_def seq_txs_def map_filter_simps)
next
  case (snoc el els)
  then show ?case by (simp add: group_inv_step)
qed

section \<open>The contexts describe the batch\<close>

lemma seq_txs_sequenced:
  assumes "\<forall>e \<in> set els. IsSequencerTx e"
  shows "map Some (seq_txs els) = map el_Tx els"
  using assms by (induction els) (auto simp: seq_txs_def map_filter_simps IsSequencerTx_def)

lemma seq_txs_queued:
  assumes "\<forall>e \<in> set els. \<not> IsSequencerTx e"
  shows "seq_txs els = []"
  using assms by (induction els) (auto simp: seq_txs_def map_filter_simps IsSequencerTx_def)

definition context_of :: "groupedBlock \<Rightarrow> BatchContext" where
  "context_of g = \<lparr>NumSequencedTxs = of_nat (length (sequenced g)),
     NumSubsequentQueueTxs = of_nat (length (queued g)),
     ctx_Timestamp = group_ts g, ctx_BlockNumber = group_bn g\<rparr>"

lemma groupContext_ok:
  assumes "group_ok g" and "length (group_elements g) < 2 ^ 64"
  shows "groupContext g = Ok (context_of g)"
proof -
  have z: "(of_nat (length xs) :: u64) = 0 \<longleftrightarrow> xs = []" if "length xs < 2 ^ 64" for xs :: "BatchElement list"
    using that by (simp add: word_unat_eq_iff unat_of_nat_u64)
  have "group_elements g \<noteq> []" using assms(1) by (simp add: group_ok_def)
  then show ?thesis
    using assms(2) z [of "sequenced g"] z [of "queued g"]
    by (auto simp: groupContext_def context_of_def group_elements_def group_ts_def group_bn_def
        hd_append word_gt_0 hd_conv_nth Let_def)
qed

lemma expand_context_of:
  assumes "group_ok g" and "length (group_elements g) < 2 ^ 64"
  shows "expand (context_of g # cs) (seq_txs (group_elements g) @ txs) =
    map view (group_elements g) @ expand cs txs"
proof -
  have n: "unat (of_nat (length (sequenced g)) :: u64) = length (sequenced g)"
    "unat (of_nat (length (queued g)) :: u64) = length (queued g)"
    using assms(2) by (simp_all add: group_elements_def unat_of_nat_u64)
  have sq: "map Some (seq_txs (sequenced g)) = map el_Tx (sequenced g)"
    using assms(1) by (intro seq_txs_sequenced) (simp add: group_ok_def)
  have qu: "seq_txs (queued g) = []"
    using assms(1) by (intro seq_txs_queued) (simp add: group_ok_def)
  have len: "length (seq_txs (sequenced g)) = length (sequenced g)"
    using arg_cong [OF sq, of length] by simp
  have "map (\<lambda>t. (group_ts g, Some (group_bn g, t))) (seq_txs (sequenced g)) =
      map (\<lambda>t. (group_ts g, map_option (Pair (group_bn g)) t)) (map Some (seq_txs (sequenced g)))"
    by simp
  also have "\<dots> = map view (sequenced g)"
    unfolding sq using assms(1) by (auto simp: view_def group_ok_def group_elements_def)
  finally have 1: "map (\<lambda>t. (group_ts g, Some (group_bn g, t))) (seq_txs (sequenced g)) =
      map view (sequenced g)" .
  have 2: "replicate (length (queued g)) (group_ts g, None) = map view (queued g)"
    using assms(1)
    by (auto simp: view_def group_ok_def group_elements_def IsSequencerTx_def map_replicate_const [symmetric])
  show ?thesis
    using 1 2 n len by (simp add: context_of_def group_elements_def qu)
qed

lemma groupContexts_ok:
  "\<forall>g \<in> set gs. group_ok g \<Longrightarrow> length (concat (map group_elements gs)) < 2 ^ 64 \<Longrightarrow>
     groupContexts gs = Ok (map context_of gs)"
  by (induction gs) (simp_all add: groupContext_ok)

lemma expand_contexts:
  "\<forall>g \<in> set gs. group_ok g \<Longrightarrow> length (concat (map group_elements gs)) < 2 ^ 64 \<Longrightarrow>
     expand (map context_of gs) (seq_txs (concat (map group_elements gs))) =
       map view (concat (map group_elements gs))"
proof (induction gs)
  case Nil
  show ?case by simp
next
  case (Cons g gs)
  then show ?case
    using expand_context_of [of g "map context_of gs"] by (simp del: expand.simps)
qed

lemma GenSequencerBatchParams_groups:
  assumes "length batch < 2 ^ 64"
  obtains gs where "GenSequencerBatchParams s off batch =
      Ok \<lparr>ShouldStartAtElement = s - off, TotalElementsToAppend = of_nat (length batch),
          Contexts = map context_of gs, Txs = seq_txs batch\<rparr>"
    "\<forall>g \<in> set gs. group_ok g" "concat (map group_elements gs) = batch"
proof -
  let ?gs = "foldl groupStep groupInit batch"
  have inv: "group_inv batch ?gs" by (rule group_inv_foldl)
  then have "\<forall>g \<in> set (groupedBlocks ?gs). group_ok g"
    "concat (map group_elements (groupedBlocks ?gs)) = batch" "group_txs ?gs = seq_txs batch"
    by (simp_all add: group_inv_def)
  with assms groupContexts_ok [of "groupedBlocks ?gs"] show ?thesis
    by (intro that [of "groupedBlocks ?gs"]) (simp_all add: GenSequencerBatchParams_def Let_def)
qed

section \<open>Properties\<close>

text \<open>
  C11: Generating a batch never fails, the announced number of elements is the number of blocks,
  and contexts and transactions together describe the blocks exactly: replaying the contexts
  against the transactions gives, in order, every block's timestamp, and for sequencer
  transactions the L1 block number and the transaction.
\<close>

theorem GenSequencerBatchParams_replay:
  assumes "length batch < 2 ^ 64"
  shows "\<exists>p. GenSequencerBatchParams s off batch = Ok p \<and>
    expand (Contexts p) (Txs p) = map view batch \<and>
    unat (TotalElementsToAppend p) = length batch"
proof -
  from GenSequencerBatchParams_groups [OF assms, of s off] obtain gs where
    "GenSequencerBatchParams s off batch =
      Ok \<lparr>ShouldStartAtElement = s - off, TotalElementsToAppend = of_nat (length batch),
          Contexts = map context_of gs, Txs = seq_txs batch\<rparr>"
    "\<forall>g \<in> set gs. group_ok g" "concat (map group_elements gs) = batch" .
  with assms expand_contexts [of gs] show ?thesis by (auto simp: unat_of_nat_u64)
qed

theorem GenSequencerBatchParams_replay_witness:
  "\<exists>p. GenSequencerBatchParams 5 1
      [\<lparr>el_Timestamp = 10, el_BlockNumber = 3, el_Tx = Some witnessCachedTx\<rparr>,
       \<lparr>el_Timestamp = 10, el_BlockNumber = 4, el_Tx = None\<rparr>] = Ok p \<and>
    expand (Contexts p) (Txs p) = [(10, Some (3, witnessCachedTx)), (10, None)]"
  using GenSequencerBatchParams_replay [of
      "[\<lparr>el_Timestamp = 10, el_BlockNumber = 3, el_Tx = Some witnessCachedTx\<rparr>,
        \<lparr>el_Timestamp = 10, el_BlockNumber = 4, el_Tx = None\<rparr>]" 5 1]
  by (auto simp: view_def)

text \<open>
  A batch without any sequencer transaction cannot be serialized: its contexts are there, but
  the encoder refuses contexts without transactions.
\<close>

theorem queued_only_batch_refused:
  assumes "length batch < 256 ^ 3" and "batch \<noteq> []" and "\<forall>e \<in> set batch. \<not> IsSequencerTx e"
    and "unat (s - off) < 256 ^ 5"
  shows "res_bind (GenSequencerBatchParams s off batch) (Serialize compress) = Err ErrMalformedBatch"
proof -
  from assms(1) have "length batch < 2 ^ 64" by simp
  from GenSequencerBatchParams_groups [OF this, of s off] obtain gs where
    gs: "GenSequencerBatchParams s off batch =
      Ok \<lparr>ShouldStartAtElement = s - off, TotalElementsToAppend = of_nat (length batch),
          Contexts = map context_of gs, Txs = seq_txs batch\<rparr>"
    "concat (map group_elements gs) = batch" .
  have "seq_txs batch = []" using assms(3) by (rule seq_txs_queued)
  moreover have "gs \<noteq> []" using gs(2) assms(2) by auto
  moreover have "unat (of_nat (length batch) :: u64) < 256 ^ 3" using assms(1) by (simp add: unat_of_nat)
  ultimately show ?thesis
    using gs(1) assms(4) by (simp add: Serialize_def Batch_Write_def writeUint64_Ok)
qed

theorem queued_only_batch_refused_witness:
  "res_bind (GenSequencerBatchParams 5 1 [\<lparr>el_Timestamp = 10, el_BlockNumber = 4, el_Tx = None\<rparr>])
     (Serialize id) = Err ErrMalformedBatch"
  by (rule queued_only_batch_refused) (simp_all add: IsSequencerTx_def)

text \<open>
  C32: The calldata of a transaction can be recovered from its grafted form: the two bytes after
  the version give the length of the Turing data, which is the end of the payload, as long as
  the Turing data are shorter than 65536 bytes. Turing data of more than one byte are recovered too;
  a single byte, which marks a transaction without a Turing call, is dropped and leaves nothing.
\<close>

theorem graftTuring_recover:
  assumes "length (turingData turing) < 65536"
  shows "let p = graftTuring turing txData; n = be_val (take 2 (drop 1 p)) in
    p ! 0 = 1 \<and> take (length p - 3 - n) (drop 3 p) = txData \<and>
    drop (length p - n) p = (if 1 < length (turingData turing) then turingData turing else [])"
proof (cases "1 < length (turingData turing)")
  case True
  have "be_val (be_bytes 2 (length (turingData turing))) = length (turingData turing)"
    using assms by (simp add: byte_simps)
  moreover have "drop (3 + n) (1 # be_bytes 2 m @ xs) = drop n xs" for n m and xs :: bytes
  proof -
    have "drop 3 (1 # be_bytes 2 m @ xs) = xs" by (simp add: be_bytes_map upt_rec)
    then show ?thesis using drop_drop [of n 3 "1 # be_bytes 2 m @ xs"] by (simp only: add.commute)
  qed
  ultimately show ?thesis using True by (simp add: graftTuring_def Let_def del: be_bytes.simps)
next
  case False
  then show ?thesis by (simp add: graftTuring_def Let_def be_val_def)
qed

theorem graftTuring_recover_witness:
  "graftTuring (Some [8, 9]) [5, 6, 7] = [1, 0, 2, 5, 6, 7, 8, 9] \<and>
   take 3 (drop 3 (graftTuring (Some [8, 9]) [5, 6, 7])) = [5, 6, 7]"
proof -
  have g: "graftTuring (Some [8, 9]) [5, 6, 7] = [1, 0, 2, 5, 6, 7, 8, 9]"
    by (simp add: graftTuring_def turingData_def be_bytes_map upt_rec)
  moreover have "be_val [0, 2] = 2" by (simp add: be_val_def)
  ultimately show ?thesis
    using graftTuring_recover [of "Some [8, 9]" "[5, 6, 7]"] by (simp add: turingData_def Let_def)
qed

end
