(* ===== verification/TxManager.thy ===== *)
theory TxManager
  imports Go_Prelude
begin

text \<open>
  Publishing transactions on L1: \<open>go/bss-core/txmgr/txmgr.go\<close>. The L1 backend is a parameter:
  its answers are functions of the number of the query. \<open>Send\<close> runs one goroutine per publication
  next to its event loop; it is a state machine whose events are the steps of the goroutines and
  the cases of the event loop's \<open>select\<close>, in any order the scheduler may choose.
\<close>

section \<open>Error messages\<close>

fun stringsContains :: "string \<Rightarrow> string \<Rightarrow> bool" where
  "stringsContains [] sub = (sub = [])"
| "stringsContains (c # s) sub = (take (length sub) (c # s) = sub \<or> stringsContains s sub)"

lemma stringsContains_iff: "stringsContains s sub \<longleftrightarrow> (\<exists>a b. s = a @ sub @ b)"
proof (induction s)
  case Nil
  show ?case by auto
next
  case (Cons c s)
  have "take (length sub) (c # s) = sub \<longleftrightarrow> (\<exists>b. c # s = sub @ b)"
    by (metis append_eq_conv_conj append_take_drop_id)
  moreover have "(\<exists>a b. c # s = a @ sub @ b) \<longleftrightarrow> (\<exists>b. c # s = sub @ b) \<or> (\<exists>a b. s = a @ sub @ b)"
    by (auto simp: Cons_eq_append_conv)
  ultimately show ?case using Cons.IH by simp
qed

definition ErrNonceTooLow :: go_error where
  "ErrNonceTooLow = GoErr ''nonce too low''"

definition contextCanceled :: go_error where
  "contextCanceled = GoErr ''context canceled''"

definition shouldAbortImmediately :: "go_error \<Rightarrow> bool" where
  "shouldAbortImmediately err = stringsContains (errorText err) (errorText ErrNonceTooLow)"

section \<open>Configuration and fees\<close>

record TxMgrConfig =
  NumConfirmations :: u64

record SimpleTxManager =
  txm_name :: string
  txm_cfg :: TxMgrConfig

definition NewSimpleTxManager :: "string \<Rightarrow> TxMgrConfig \<Rightarrow> SimpleTxManager res" where
  "NewSimpleTxManager name cfg =
     (if NumConfirmations cfg = 0 then Panic ''txmgr: NumConfirmations cannot be zero''
      else Ok \<lparr>txm_name = name, txm_cfg = cfg\<rparr>)"

definition CalcGasFeeCap :: "int \<Rightarrow> int \<Rightarrow> int" where
  "CalcGasFeeCap baseFee gasTipCap = gasTipCap + baseFee * 2"

section \<open>Waiting for confirmations\<close>

record Receipt =
  rcpt_BlockNumber :: int
  rcpt_TxHash :: hash
  rcpt_GasUsed :: u64

text \<open>
  \<open>receipts i\<close> and \<open>tips i\<close> are the backend's answers in round \<open>i\<close>; \<open>ticks i\<close> is the case that the
  \<open>select\<close> at the end of the round takes: the query ticker (\<open>None\<close>) or the end of the context
  with its error.
\<close>

definition txHeight :: "Receipt \<Rightarrow> u64" where
  "txHeight r = of_int \<bar>rcpt_BlockNumber r\<bar>"

definition isConfirmed :: "u64 \<Rightarrow> Receipt \<Rightarrow> u64 \<Rightarrow> bool" where
  "isConfirmed numConfirmations receipt tipHeight \<longleftrightarrow>
     txHeight receipt + numConfirmations \<le> tipHeight + 1"

definition queryRound :: "u64 \<Rightarrow> Receipt option res \<Rightarrow> u64 res \<Rightarrow> Receipt option" where
  "queryRound numConfirmations answer tip =
     (case answer of
        Ok (Some receipt) \<Rightarrow>
          (case tip of
             Ok tipHeight \<Rightarrow> if isConfirmed numConfirmations receipt tipHeight then Some receipt else None
           | _ \<Rightarrow> None)
      | _ \<Rightarrow> None)"

partial_function (option) WaitMined ::
    "(nat \<Rightarrow> Receipt option res) \<Rightarrow> (nat \<Rightarrow> u64 res) \<Rightarrow> (nat \<Rightarrow> go_error option) \<Rightarrow> u64 \<Rightarrow> nat \<Rightarrow>
     Receipt res option" where
  "WaitMined receipts tips ticks numConfirmations i =
     (case queryRound numConfirmations (receipts i) (tips i) of
        Some receipt \<Rightarrow> Some (Ok receipt)
      | None \<Rightarrow>
          (case ticks i of
             Some err \<Rightarrow> Some (Err err)
           | None \<Rightarrow> WaitMined receipts tips ticks numConfirmations (Suc i)))"

section \<open>Sending\<close>

text \<open>
  A goroutine is publishing, waits for the confirmation of what it published, or has ended. The
  event loop has an outcome once it left its loop; the deferred calls then cancel the context and
  wait for the goroutines.
\<close>

datatype 'tx worker = Publishing | Waiting 'tx | Finished

record ('tx, 'r) sendState =
  workers :: "'tx worker list"
  receiptChan :: "'r option"
  ctxErr :: "go_error option"
  outcome :: "'r res option"

datatype ('tx, 'r) sendEvent =
    ResubmissionTimeout
  | Published nat 'tx
  | PublishFailed nat go_error
  | Mined nat 'r
  | WaitAborted nat
  | ParentDone go_error
  | TakeDone
  | TakeReceipt

definition sendInit :: "('tx, 'r) sendState" where
  "sendInit = \<lparr>workers = [Publishing], receiptChan = None, ctxErr = None, outcome = None\<rparr>"

definition cancelCtx :: "go_error \<Rightarrow> ('tx, 'r) sendState \<Rightarrow> ('tx, 'r) sendState" where
  "cancelCtx e s = (case ctxErr s of None \<Rightarrow> s\<lparr>ctxErr := Some e\<rparr> | Some _ \<Rightarrow> s)"

definition workerIs :: "('tx, 'r) sendState \<Rightarrow> nat \<Rightarrow> 'tx worker \<Rightarrow> bool" where
  "workerIs s i w \<longleftrightarrow> i < length (workers s) \<and> workers s ! i = w"

definition setWorker :: "nat \<Rightarrow> 'tx worker \<Rightarrow> ('tx, 'r) sendState \<Rightarrow> ('tx, 'r) sendState" where
  "setWorker i w s = s\<lparr>workers := (workers s)[i := w]\<rparr>"

text \<open>
  \<open>sendStep mined ev s\<close> is the state after the event \<open>ev\<close>, or \<open>None\<close> if the event cannot happen in
  \<open>s\<close>. \<open>mined tx r\<close> says that \<open>WaitMined\<close> returns the receipt \<open>r\<close> for \<open>tx\<close>.
\<close>

fun sendStep :: "('tx \<Rightarrow> 'r \<Rightarrow> bool) \<Rightarrow> ('tx, 'r) sendEvent \<Rightarrow> ('tx, 'r) sendState \<Rightarrow>
    ('tx, 'r) sendState option" where
  "sendStep mined ResubmissionTimeout s =
     (if outcome s = None then Some (s\<lparr>workers := workers s @ [Publishing]\<rparr>) else None)"
| "sendStep mined (Published i tx) s =
     (if workerIs s i Publishing then Some (setWorker i (Waiting tx) s) else None)"
| "sendStep mined (PublishFailed i err) s =
     (if workerIs s i Publishing then
        let s' = setWorker i Finished s in
        Some (if err = contextCanceled \<or> stringsContains (errorText err) ''context canceled'' then s'
              else if shouldAbortImmediately err then cancelCtx contextCanceled s'
              else s')
      else None)"
| "sendStep mined (Mined i r) s =
     (if i < length (workers s) \<and> (case workers s ! i of Waiting tx \<Rightarrow> mined tx r | _ \<Rightarrow> False) then
        let s' = setWorker i Finished s in
        Some (case receiptChan s' of None \<Rightarrow> s'\<lparr>receiptChan := Some r\<rparr> | Some _ \<Rightarrow> s')
      else None)"
| "sendStep mined (WaitAborted i) s =
     (if i < length (workers s) \<and> (case workers s ! i of Waiting tx \<Rightarrow> True | _ \<Rightarrow> False) \<and>
         ctxErr s \<noteq> None
      then Some (setWorker i Finished s) else None)"
| "sendStep mined (ParentDone err) s = Some (cancelCtx err s)"
| "sendStep mined TakeDone s =
     (case (outcome s, ctxErr s) of
        (None, Some err) \<Rightarrow> Some (s\<lparr>outcome := Some (Err err)\<rparr>)
      | _ \<Rightarrow> None)"
| "sendStep mined TakeReceipt s =
     (case (outcome s, receiptChan s) of
        (None, Some r) \<Rightarrow>
          Some (cancelCtx contextCanceled (s\<lparr>outcome := Some (Ok r), receiptChan := None\<rparr>))
      | _ \<Rightarrow> None)"

inductive sendRun :: "('tx \<Rightarrow> 'r \<Rightarrow> bool) \<Rightarrow> ('tx, 'r) sendEvent list \<Rightarrow> ('tx, 'r) sendState \<Rightarrow> bool"
  for mined where
  start: "sendRun mined [] sendInit"
| step: "sendRun mined evs s \<Longrightarrow> sendStep mined ev s = Some s' \<Longrightarrow> sendRun mined (evs @ [ev]) s'"

text \<open>\<open>Send\<close> returns when the loop has an outcome and the wait group is empty.\<close>

definition sendReturns :: "('tx, 'r) sendState \<Rightarrow> 'r res \<Rightarrow> bool" where
  "sendReturns s x \<longleftrightarrow> outcome s = Some x \<and> (\<forall>w \<in> set (workers s). w = Finished)"

section \<open>Confirmation\<close>

lemma isConfirmed_iff:
  assumes "unat (txHeight r) + unat n < 2 ^ 64" and "unat tip + 1 < 2 ^ 64" and "n \<noteq> 0"
  shows "isConfirmed n r tip \<longleftrightarrow> unat (txHeight r) + unat n - 1 \<le> unat tip"
proof -
  have "unat (txHeight r + n) = unat (txHeight r) + unat n"
    using assms(1) by (intro unat_add_lem [THEN iffD1]) simp
  moreover have "unat (tip + 1) = unat tip + 1"
    using assms(2) unat_add_lem [THEN iffD1, of tip 1] by simp
  moreover have "0 < unat n" using assms(3) by (simp add: unat_gt_0)
  ultimately show ?thesis by (auto simp: isConfirmed_def word_le_nat_alt)
qed

text \<open>The first round that ends the wait decides its result.\<close>

definition roundEnds ::
    "(nat \<Rightarrow> Receipt option res) \<Rightarrow> (nat \<Rightarrow> u64 res) \<Rightarrow> (nat \<Rightarrow> go_error option) \<Rightarrow> u64 \<Rightarrow> nat \<Rightarrow>
     Receipt res option" where
  "roundEnds receipts tips ticks n i =
     (case queryRound n (receipts i) (tips i) of
        Some r \<Rightarrow> Some (Ok r)
      | None \<Rightarrow> map_option Err (ticks i))"

lemma WaitMined_unfold:
  "WaitMined receipts tips ticks n i =
     (case roundEnds receipts tips ticks n i of
        Some x \<Rightarrow> Some x
      | None \<Rightarrow> WaitMined receipts tips ticks n (Suc i))"
  by (subst WaitMined.simps) (auto simp: roundEnds_def split: option.split)

lemma WaitMined_sound:
  assumes "WaitMined receipts tips ticks n i = Some x"
  shows "\<exists>j\<ge>i. roundEnds receipts tips ticks n j = Some x \<and>
    (\<forall>k. i \<le> k \<and> k < j \<longrightarrow> roundEnds receipts tips ticks n k = None)"
proof (rule WaitMined.raw_induct [where P = "\<lambda>receipts tips ticks n i x.
    \<exists>j\<ge>i. roundEnds receipts tips ticks n j = Some x \<and>
      (\<forall>k. i \<le> k \<and> k < j \<longrightarrow> roundEnds receipts tips ticks n k = None)", OF _ assms])
  fix W :: "(nat \<Rightarrow> Receipt option res) \<Rightarrow> (nat \<Rightarrow> u64 res) \<Rightarrow> (nat \<Rightarrow> go_error option) \<Rightarrow> u64 \<Rightarrow>
    nat \<Rightarrow> Receipt res option"
    and receipts tips ticks n i x
  assume IH: "\<And>receipts tips ticks n i x. W receipts tips ticks n i = Some x \<Longrightarrow>
      \<exists>j\<ge>i. roundEnds receipts tips ticks n j = Some x \<and>
        (\<forall>k. i \<le> k \<and> k < j \<longrightarrow> roundEnds receipts tips ticks n k = None)"
    and "(case queryRound n (receipts i) (tips i) of
        Some receipt \<Rightarrow> Some (Ok receipt)
      | None \<Rightarrow> (case ticks i of Some err \<Rightarrow> Some (Err err) | None \<Rightarrow> W receipts tips ticks n (Suc i))) = Some x"
  then consider "roundEnds receipts tips ticks n i = Some x"
    | "roundEnds receipts tips ticks n i = None" "W receipts tips ticks n (Suc i) = Some x"
    by (auto simp: roundEnds_def split: option.splits)
  then show "\<exists>j\<ge>i. roundEnds receipts tips ticks n j = Some x \<and>
      (\<forall>k. i \<le> k \<and> k < j \<longrightarrow> roundEnds receipts tips ticks n k = None)"
  proof cases
    case 1
    then show ?thesis by auto
  next
    case 2
    from IH [OF this(2)] obtain j where j: "Suc i \<le> j" "roundEnds receipts tips ticks n j = Some x"
      "\<forall>k. Suc i \<le> k \<and> k < j \<longrightarrow> roundEnds receipts tips ticks n k = None" by blast
    with 2(1) have "roundEnds receipts tips ticks n k = None" if "i \<le> k \<and> k < j" for k
      using that by (cases "k = i") auto
    with j show ?thesis using Suc_leD by blast
  qed
qed

lemma WaitMined_complete:
  assumes "roundEnds receipts tips ticks n j = Some x" and "i \<le> j"
    and "\<forall>k. i \<le> k \<and> k < j \<longrightarrow> roundEnds receipts tips ticks n k = None"
  shows "WaitMined receipts tips ticks n i = Some x"
  using assms(2,1,3)
proof (induction rule: inc_induct)
  case base
  then show ?case by (subst WaitMined_unfold) simp
next
  case (step m)
  then have "WaitMined receipts tips ticks n (Suc m) = Some x" by simp
  moreover have "roundEnds receipts tips ticks n m = None" using step by simp
  ultimately show ?case by (subst WaitMined_unfold) simp
qed

lemma WaitMined_iff:
  "WaitMined receipts tips ticks n i = Some x \<longleftrightarrow>
     (\<exists>j\<ge>i. roundEnds receipts tips ticks n j = Some x \<and>
       (\<forall>k. i \<le> k \<and> k < j \<longrightarrow> roundEnds receipts tips ticks n k = None))"
  using WaitMined_sound WaitMined_complete by blast

lemma roundEnds_Ok:
  "roundEnds receipts tips ticks n i = Some (Ok r) \<longleftrightarrow>
     receipts i = Ok (Some r) \<and> (\<exists>t. tips i = Ok t \<and> isConfirmed n r t)"
  by (auto simp: roundEnds_def queryRound_def split: res.splits option.splits if_splits)

section \<open>Runs of \<open>Send\<close>\<close>

lemmas send_defs = cancelCtx_def workerIs_def setWorker_def

definition published :: "('tx, 'r) sendEvent list \<Rightarrow> 'tx set" where
  "published evs = {tx. \<exists>i. Published i tx \<in> set evs}"

definition cancelReason :: "('tx, 'r) sendEvent list \<Rightarrow> go_error \<Rightarrow> bool" where
  "cancelReason evs e \<longleftrightarrow> ParentDone e \<in> set evs \<or>
     e = contextCanceled \<and> (\<exists>i err. PublishFailed i err \<in> set evs \<and> shouldAbortImmediately err)"

definition send_inv :: "('tx \<Rightarrow> 'r \<Rightarrow> bool) \<Rightarrow> ('tx, 'r) sendEvent list \<Rightarrow> ('tx, 'r) sendState \<Rightarrow> bool" where
  "send_inv mined evs s \<longleftrightarrow>
     (\<forall>tx. Waiting tx \<in> set (workers s) \<longrightarrow> tx \<in> published evs) \<and>
     (\<forall>r. receiptChan s = Some r \<or> outcome s = Some (Ok r) \<longrightarrow> (\<exists>tx \<in> published evs. mined tx r)) \<and>
     (\<forall>e. outcome s = Some (Err e) \<or> outcome s = None \<and> ctxErr s = Some e \<longrightarrow> cancelReason evs e) \<and>
     (outcome s \<noteq> None \<longrightarrow> ctxErr s \<noteq> None) \<and> (\<forall>p. outcome s \<noteq> Some (Panic p))"

lemma published_snoc [simp]:
  "published (evs @ [ev]) = published evs \<union> (case ev of Published i tx \<Rightarrow> {tx} | _ \<Rightarrow> {})"
  by (auto simp: published_def split: sendEvent.splits)

lemma cancelReason_snoc:
  "cancelReason evs e \<Longrightarrow> cancelReason (evs @ [ev]) e"
  by (auto simp: cancelReason_def)

lemma send_inv_step:
  assumes "send_inv mined evs s" and "sendStep mined ev s = Some s'"
  shows "send_inv mined (evs @ [ev]) s'"
proof (cases ev)
  case (Published i tx)
  with assms show ?thesis
    by (auto simp: send_inv_def send_defs cancelReason_snoc dest!: set_update_subset_insert [THEN subsetD] split: if_splits)
next
  case (PublishFailed i err)
  have "cancelReason (evs @ [PublishFailed i err]) contextCanceled" if "shouldAbortImmediately err"
    using that by (auto simp: cancelReason_def)
  with PublishFailed assms show ?thesis
    by (auto simp: send_inv_def send_defs cancelReason_snoc Let_def
        dest!: set_update_subset_insert [THEN subsetD] split: if_splits option.splits)
next
  case (Mined i r)
  have "\<exists>tx \<in> published evs. mined tx r"
    if "i < length (workers s)" "workers s ! i = Waiting tx" "mined tx r" for tx
    using that assms(1) nth_mem [of i "workers s"] by (auto simp: send_inv_def)
  with Mined assms show ?thesis
    by (auto simp: send_inv_def send_defs cancelReason_snoc Let_def
        dest!: set_update_subset_insert [THEN subsetD] split: if_splits option.splits worker.splits)
next
  case (WaitAborted i)
  with assms show ?thesis
    by (auto simp: send_inv_def send_defs cancelReason_snoc
        dest!: set_update_subset_insert [THEN subsetD] split: if_splits worker.splits)
next
  case (ParentDone err)
  moreover have "cancelReason (evs @ [ParentDone err]) err" by (simp add: cancelReason_def)
  ultimately show ?thesis
    using assms by (auto simp: send_inv_def send_defs cancelReason_snoc split: option.splits)
qed (use assms in \<open>auto simp: send_inv_def send_defs cancelReason_snoc split: if_splits option.splits\<close>)

lemma sendRun_inv: "sendRun mined evs s \<Longrightarrow> send_inv mined evs s"
proof (induction rule: sendRun.induct)
  case start
  show ?case by (simp add: send_inv_def sendInit_def)
next
  case (step evs s ev s')
  then show ?case by (blast intro: send_inv_step)
qed

text \<open>What the goroutines still have to do after the loop was left.\<close>

fun weight :: "'tx worker \<Rightarrow> nat" where
  "weight Publishing = 2"
| "weight (Waiting tx) = 1"
| "weight Finished = 0"

definition pending :: "('tx, 'r) sendState \<Rightarrow> nat" where
  "pending s = sum_list (map weight (workers s))"

lemma weight_0 [simp]: "weight w = 0 \<longleftrightarrow> w = Finished"
  by (cases w) auto

lemma pending_setWorker:
  "i < length (workers s) \<Longrightarrow> weight w < weight (workers s ! i) \<Longrightarrow> pending (setWorker i w s) < pending s"
  using member_le_sum_list [of "weight (workers s ! i)" "map weight (workers s)"]
  by (auto simp: pending_def setWorker_def map_update sum_list_update)

lemma pending_cong [simp]:
  "pending (cancelCtx e s) = pending s" "pending (s\<lparr>receiptChan := c\<rparr>) = pending s"
  by (simp_all add: pending_def cancelCtx_def split: option.split)

lemma outcome_simps [simp]:
  "outcome (cancelCtx e s) = outcome s" "outcome (setWorker i w s) = outcome s"
  by (simp_all add: cancelCtx_def setWorker_def split: option.split)

lemma step_after_outcome:
  assumes "outcome s = Some x" and "sendStep mined ev s = Some s'" and "\<And>e. ev \<noteq> ParentDone e"
  shows "outcome s' = Some x \<and> pending s' < pending s"
  using assms
  by (cases ev) (auto simp: workerIs_def Let_def split: if_splits option.splits worker.splits
      intro!: pending_setWorker)

lemma worker_can_end:
  assumes "ctxErr s \<noteq> None" and "i < length (workers s)" and "workers s ! i \<noteq> Finished"
  shows "sendStep mined (PublishFailed i contextCanceled) s \<noteq> None \<or>
    sendStep mined (WaitAborted i) s \<noteq> None"
  using assms by (cases "workers s ! i") (auto simp: workerIs_def Let_def)

lemma pending_0: "pending s = 0 \<longleftrightarrow> (\<forall>w \<in> set (workers s). w = Finished)"
  by (simp add: pending_def)

section \<open>Properties\<close>

text \<open>
  C21: Waiting for a transaction returns a receipt only for a transaction that is buried under the
  configured number of confirmations, and it does return the receipt of the first round in which
  that is so, unless the context ends before; this holds as long as no height is near the end of
  the 64-bit range.
\<close>

theorem WaitMined_confirmed:
  assumes "n \<noteq> 0" and "\<And>j t. tips j = Ok t \<Longrightarrow> unat t + 1 < 2 ^ 64"
    and "\<And>j r. receipts j = Ok (Some r) \<Longrightarrow> unat (txHeight r) + unat n < 2 ^ 64"
  shows "(WaitMined receipts tips ticks n 0 = Some (Ok r) \<longrightarrow>
      (\<exists>j t. receipts j = Ok (Some r) \<and> tips j = Ok t \<and> unat (txHeight r) + unat n - 1 \<le> unat t)) \<and>
    (receipts j = Ok (Some r) \<and> tips j = Ok t \<and> unat (txHeight r) + unat n - 1 \<le> unat t \<and>
      (\<forall>k < j. ticks k = None) \<longrightarrow>
      (\<exists>i \<le> j. \<exists>r'. receipts i = Ok (Some r') \<and> WaitMined receipts tips ticks n 0 = Some (Ok r')))"
proof (intro conjI impI)
  assume "WaitMined receipts tips ticks n 0 = Some (Ok r)"
  then obtain j t where "receipts j = Ok (Some r)" "tips j = Ok t" "isConfirmed n r t"
    by (auto simp: WaitMined_iff roundEnds_Ok)
  with assms isConfirmed_iff [of r n t] show "\<exists>j t. receipts j = Ok (Some r) \<and> tips j = Ok t \<and>
      unat (txHeight r) + unat n - 1 \<le> unat t" by blast
next
  assume a: "receipts j = Ok (Some r) \<and> tips j = Ok t \<and> unat (txHeight r) + unat n - 1 \<le> unat t \<and>
      (\<forall>k < j. ticks k = None)"
  define E where "E k \<longleftrightarrow> roundEnds receipts tips ticks n k \<noteq> None" for k
  have "isConfirmed n r t" using a assms isConfirmed_iff [of r n t] by blast
  with a have "roundEnds receipts tips ticks n j = Some (Ok r)" by (auto simp: roundEnds_Ok)
  then have "E j" by (simp add: E_def)
  define i where "i = (LEAST k. E k)"
  have i: "E i" "i \<le> j" "\<And>k. k < i \<Longrightarrow> \<not> E k"
    unfolding i_def using \<open>E j\<close> by (auto intro: LeastI Least_le dest: not_less_Least)
  obtain x where x: "roundEnds receipts tips ticks n i = Some x" using i(1) by (auto simp: E_def)
  have w: "WaitMined receipts tips ticks n 0 = Some x"
    using x i(3) by (intro WaitMined_complete) (auto simp: E_def)
  have "\<exists>r'. x = Ok r'"
    using x a i(2) \<open>roundEnds receipts tips ticks n j = Some (Ok r)\<close>
    by (cases "i = j") (auto simp: roundEnds_def split: option.splits)
  with w x i(2) show "\<exists>i \<le> j. \<exists>r'. receipts i = Ok (Some r') \<and>
      WaitMined receipts tips ticks n 0 = Some (Ok r')" by (auto simp: roundEnds_Ok)
qed

theorem WaitMined_confirmed_witness:
  "let r = \<lparr>rcpt_BlockNumber = 5, rcpt_TxHash = 1, rcpt_GasUsed = 21000\<rparr> in
   WaitMined (\<lambda>i. Ok (Some r)) (\<lambda>i. Ok (if i = 0 then 6 else 7)) (\<lambda>i. None) 3 0 = Some (Ok r)"
proof -
  let ?r = "\<lparr>rcpt_BlockNumber = 5, rcpt_TxHash = 1, rcpt_GasUsed = 21000\<rparr>"
  have h: "txHeight ?r = 5" by (simp add: txHeight_def)
  have "\<exists>i \<le> (1 :: nat). \<exists>r'. (Ok (Some ?r) :: Receipt option res) = Ok (Some r') \<and>
      WaitMined (\<lambda>i. Ok (Some ?r)) (\<lambda>i. Ok (if i = 0 then 6 else 7)) (\<lambda>i. None) 3 0 = Some (Ok r')"
    by (rule WaitMined_confirmed [where j = 1 and t = 7 and r = ?r and n = 3 and ticks = "\<lambda>i. None" and
          receipts = "\<lambda>i. Ok (Some ?r)" and tips = "\<lambda>i. Ok (if i = 0 then 6 else 7)",
          THEN conjunct2, THEN mp])
      (auto simp: h split: if_splits)
  then show ?thesis by auto
qed

text \<open>
  C6: In every run of the transaction manager, a receipt that \<open>Send\<close> returns is the receipt of a
  transaction that was published in this run and mined; an error means that the caller's context
  ended or a publication failed because its nonce is too low.
\<close>

theorem Send_outcome:
  assumes "sendRun mined evs s" and "sendReturns s x"
  shows "case x of
      Ok r \<Rightarrow> \<exists>tx \<in> published evs. mined tx r
    | Err e \<Rightarrow> ParentDone e \<in> set evs \<or>
        e = contextCanceled \<and> (\<exists>i err. PublishFailed i err \<in> set evs \<and> shouldAbortImmediately err)
    | Panic p \<Rightarrow> False"
  using sendRun_inv [OF assms(1)] assms(2)
  by (auto simp: send_inv_def sendReturns_def cancelReason_def split: res.split)

lemma send_witness_run:
  "sendRun (\<lambda>tx r. r = tx) [PublishFailed 0 (GoErr ''timeout''), ResubmissionTimeout, Published 1 7,
      Mined 1 7, TakeReceipt]
    \<lparr>workers = [Finished, Finished], receiptChan = None, ctxErr = Some contextCanceled,
     outcome = Some (Ok (7 :: nat))\<rparr>"
proof -
  let ?s1 = "\<lparr>workers = [Finished], receiptChan = None, ctxErr = None, outcome = None\<rparr>"
  have "sendRun (\<lambda>tx r. r = tx) ([] @ [PublishFailed 0 (GoErr ''timeout'')]) ?s1"
    by (rule sendRun.step [OF sendRun.start])
      (simp add: sendInit_def send_defs shouldAbortImmediately_def ErrNonceTooLow_def contextCanceled_def)
  from sendRun.step [OF this, of ResubmissionTimeout]
  have "sendRun (\<lambda>tx r. r = tx) [PublishFailed 0 (GoErr ''timeout''), ResubmissionTimeout]
      (?s1\<lparr>workers := [Finished, Publishing]\<rparr>)" by simp
  from sendRun.step [OF this, of "Published 1 7"]
  have "sendRun (\<lambda>tx r. r = tx) [PublishFailed 0 (GoErr ''timeout''), ResubmissionTimeout, Published 1 7]
      (?s1\<lparr>workers := [Finished, Waiting 7]\<rparr>)" by (simp add: send_defs)
  from sendRun.step [OF this, of "Mined 1 7"]
  have "sendRun (\<lambda>tx r. r = tx) [PublishFailed 0 (GoErr ''timeout''), ResubmissionTimeout, Published 1 7,
      Mined 1 7] (?s1\<lparr>workers := [Finished, Finished], receiptChan := Some (7 :: nat)\<rparr>)"
    by (simp add: send_defs)
  from sendRun.step [OF this, of TakeReceipt] show ?thesis by (simp add: send_defs)
qed

theorem Send_outcome_witness:
  "\<exists>tx \<in> published ([PublishFailed 0 (GoErr ''timeout''), ResubmissionTimeout, Published 1 7,
      Mined 1 7, TakeReceipt] :: (nat, nat) sendEvent list). 7 = tx"
  using Send_outcome [OF send_witness_run, of "Ok 7"] by (simp add: sendReturns_def)

text \<open>
  C19: Once the event loop of \<open>Send\<close> is left, the call comes to an end: the outcome no longer
  changes, every further step of a goroutine brings the goroutines closer to their end, a goroutine
  that has not ended can always make a step, and when none is left \<open>Send\<close> returns the outcome.
\<close>

theorem Send_winds_down:
  assumes "sendRun mined evs s" and "outcome s = Some x"
  shows "(\<forall>ev s'. sendStep mined ev s = Some s' \<and> (\<forall>e. ev \<noteq> ParentDone e) \<longrightarrow>
      outcome s' = Some x \<and> pending s' < pending s) \<and>
    (if pending s = 0 then sendReturns s x
     else \<exists>i. sendStep mined (PublishFailed i contextCanceled) s \<noteq> None \<or>
       sendStep mined (WaitAborted i) s \<noteq> None)"
proof -
  have c: "ctxErr s \<noteq> None" using sendRun_inv [OF assms(1)] assms(2) by (simp add: send_inv_def)
  have "\<exists>i. sendStep mined (PublishFailed i contextCanceled) s \<noteq> None \<or>
       sendStep mined (WaitAborted i) s \<noteq> None" if "pending s \<noteq> 0"
    using that worker_can_end [OF c] by (metis pending_0 in_set_conv_nth)
  moreover have "sendReturns s x" if "pending s = 0"
    using that assms(2) by (simp add: sendReturns_def pending_0)
  ultimately show ?thesis
    using step_after_outcome [OF assms(2)] by (simp only: split: if_split) blast
qed

theorem Send_winds_down_witness:
  "sendReturns \<lparr>workers = [Finished, Finished :: nat worker], receiptChan = None,
     ctxErr = Some contextCanceled, outcome = Some (Ok (7 :: nat))\<rparr> (Ok 7)"
  using Send_winds_down [OF send_witness_run, of "Ok 7"] by (simp add: pending_def)

end
