(* ===== verification/BssDrivers.thy ===== *)
theory BssDrivers
  imports TxManager
begin

text \<open>
  What the batch drivers share: \<open>go/bss-core/drivers/max_priority_fee_fallback.go\<close> and
  \<open>clear_pending_tx.go\<close>. The L1 client, the KMS signer and the transaction type of go-ethereum
  are not part of the repository; they are parameters.
\<close>

definition showInt :: "int \<Rightarrow> string" where
  "showInt i = (if i < 0 then CHR ''-'' # showNat (nat (- i)) else showNat (nat i))"

text \<open>The error of both drivers for a block range whose end is before its start.\<close>

definition invalidRange :: "int \<Rightarrow> int \<Rightarrow> go_error" where
  "invalidRange start end =
     GoErr (''invalid range, end('' @ showInt end @ '') < start('' @ showInt start @ '')'')"

section \<open>Fallback for the priority fee\<close>

definition errMaxPriorityFeePerGasNotFound :: go_error where
  "errMaxPriorityFeePerGasNotFound = GoErr ''Method eth_maxPriorityFeePerGas not found''"

definition FallbackGasTipCap :: int where
  "FallbackGasTipCap = 1500000000"

definition IsMaxPriorityFeePerGasNotFoundError :: "go_error \<Rightarrow> bool" where
  "IsMaxPriorityFeePerGasNotFoundError err =
     stringsContains (errorText err) (errorText errMaxPriorityFeePerGasNotFound)"

text \<open>The options of a transaction that the drivers set on what the signer returns.\<close>

record TransactOpts =
  opts_Nonce :: "int option"
  opts_NoSend :: bool
  opts_GasTipCap :: "int option"

text \<open>
  Both drivers, when they craft and when they submit, try a call with the options and repeat it
  with the fallback tip if the backend does not support the query of the tip.
\<close>

definition transactWithFallback :: "TransactOpts \<Rightarrow> (TransactOpts \<Rightarrow> 'tx res) \<Rightarrow> 'tx res" where
  "transactWithFallback opts call =
     (case call opts of
        Ok tx \<Rightarrow> Ok tx
      | Err err \<Rightarrow>
          if IsMaxPriorityFeePerGasNotFoundError err
          then call (opts\<lparr>opts_GasTipCap := Some FallbackGasTipCap\<rparr>)
          else Err err
      | Panic p \<Rightarrow> Panic p)"

section \<open>Clearing pending transactions\<close>

definition ErrClearPendingRetry :: go_error where
  "ErrClearPendingRetry = GoErr ''retry clear pending txn''"

text \<open>The dynamic fee transaction without value and data that clears a nonce.\<close>

record ClearingTx =
  clr_To :: addr
  clr_Nonce :: u64
  clr_Gas :: u64
  clr_GasFeeCap :: int
  clr_GasTipCap :: int

definition CraftClearingTx :: "addr \<Rightarrow> u64 \<Rightarrow> int \<Rightarrow> int \<Rightarrow> u64 \<Rightarrow> ClearingTx" where
  "CraftClearingTx walletAddr nonce gasFeeCap gasTipCap gasLimit =
     \<lparr>clr_To = walletAddr, clr_Nonce = nonce, clr_Gas = gasLimit, clr_GasFeeCap = gasFeeCap,
      clr_GasTipCap = gasTipCap\<rparr>"

text \<open>
  The answers of the L1 client during one attempt. Of the latest header the code uses the base
  fee, which is nil before the London fork; the gas estimate depends on the two caps.
\<close>

record 'tx L1Client =
  SuggestGasTipCap :: "int res"
  HeaderBaseFee :: "int option res"
  EstimateGas :: "addr \<Rightarrow> int \<Rightarrow> int \<Rightarrow> u64 res"
  SendTransaction :: "'tx \<Rightarrow> unit res"

type_synonym 'tx signer = "addr \<Rightarrow> ClearingTx \<Rightarrow> 'tx res"

definition nilDereference :: string where
  "nilDereference = ''invalid memory address or nil pointer dereference''"

text \<open>The error of \<open>sign\<close> is dropped; its options are nil then.\<close>

definition SignClearingTx :: "addr \<Rightarrow> u64 \<Rightarrow> 'tx L1Client \<Rightarrow> 'tx signer res \<Rightarrow> 'tx res" where
  "SignClearingTx walletAddr nonce l1Client sign =
     res_bind
       (case SuggestGasTipCap l1Client of
          Err err \<Rightarrow> if \<not> IsMaxPriorityFeePerGasNotFoundError err then Err err else Ok FallbackGasTipCap
        | x \<Rightarrow> x) (\<lambda>gasTipCap.
     res_bind (HeaderBaseFee l1Client) (\<lambda>head.
       (case head of
          None \<Rightarrow> Panic nilDereference
        | Some baseFee \<Rightarrow>
            let gasFeeCap = CalcGasFeeCap baseFee gasTipCap in
            res_bind (EstimateGas l1Client walletAddr gasFeeCap gasTipCap) (\<lambda>gasLimit.
              let tx = CraftClearingTx walletAddr nonce gasFeeCap gasTipCap gasLimit in
              (case sign of
                 Ok signer \<Rightarrow> signer walletAddr tx
               | Err _ \<Rightarrow> Panic nilDereference
               | Panic p \<Rightarrow> Panic p)))))"

text \<open>The submission closure; the second component says that it cancelled the context.\<close>

definition clearingSendTx ::
    "addr \<Rightarrow> u64 \<Rightarrow> 'tx signer res \<Rightarrow> 'tx L1Client \<Rightarrow> 'tx res \<times> bool" where
  "clearingSendTx walletAddr nonce sign l1Client =
     (case SignClearingTx walletAddr nonce l1Client sign of
        Ok signedTx \<Rightarrow>
          (case SendTransaction l1Client signedTx of
             Ok _ \<Rightarrow> (Ok signedTx, False)
           | Err err \<Rightarrow>
               if stringsContains (errorText err) (errorText ErrNonceTooLow)
               then (Err contextCanceled, True)
               else (Err err, False)
           | Panic p \<Rightarrow> (Panic p, False))
      | x \<Rightarrow> (x, False))"

text \<open>\<open>send\<close> is the transaction manager's \<open>Send\<close>, which may call the closure any number of times.\<close>

definition ClearPendingTx ::
    "u64 res \<Rightarrow> (('tx L1Client \<Rightarrow> 'tx res \<times> bool) \<Rightarrow> 'r res) \<Rightarrow> addr \<Rightarrow> 'tx signer res \<Rightarrow> unit res" where
  "ClearPendingTx nonceAt send walletAddr sign =
     res_bind nonceAt (\<lambda>nonce.
       (case send (clearingSendTx walletAddr nonce sign) of
          Ok receipt \<Rightarrow> Ok ()
        | Err err \<Rightarrow> if err = contextCanceled then Err ErrClearPendingRetry else Err err
        | Panic p \<Rightarrow> Panic p))"

section \<open>Lemmas\<close>

lemma transactWithFallback_Ok:
  "transactWithFallback opts call = Ok tx \<Longrightarrow>
     \<exists>tip. call (opts\<lparr>opts_GasTipCap := tip\<rparr>) = Ok tx"
proof -
  assume "transactWithFallback opts call = Ok tx"
  then consider "call opts = Ok tx" | "call (opts\<lparr>opts_GasTipCap := Some FallbackGasTipCap\<rparr>) = Ok tx"
    by (auto simp: transactWithFallback_def split: res.splits if_splits)
  moreover have "opts\<lparr>opts_GasTipCap := opts_GasTipCap opts\<rparr> = opts" by simp
  ultimately show ?thesis by metis
qed

lemma SignClearingTx_Ok:
  assumes "SignClearingTx w nonce c sign = Ok tx"
  obtains signer tip base gas where "sign = Ok signer" "HeaderBaseFee c = Ok (Some base)"
    "EstimateGas c w (CalcGasFeeCap base tip) tip = Ok gas"
    "signer w (CraftClearingTx w nonce (CalcGasFeeCap base tip) tip gas) = Ok tx"
    "case SuggestGasTipCap c of Ok x \<Rightarrow> tip = x
     | Err e \<Rightarrow> IsMaxPriorityFeePerGasNotFoundError e \<and> tip = FallbackGasTipCap | Panic p \<Rightarrow> False"
proof -
  obtain signer where "sign = Ok signer"
    using assms by (cases sign) (auto simp: SignClearingTx_def res_bind_eq_Ok Let_def split: option.splits)
  with assms that show ?thesis
    by (cases "SuggestGasTipCap c")
      (auto simp: SignClearingTx_def res_bind_eq_Ok Let_def split: if_splits option.splits)
qed

section \<open>Properties\<close>

text \<open>
  A clearing transaction that was signed goes from the wallet to itself at the given nonce,
  and its fee cap still pays the full tip after the base fee doubled; the tip is the client's
  suggestion, or the fallback exactly if the client does not know the query.
\<close>

theorem SignClearingTx_spec:
  assumes "SignClearingTx w nonce c sign = Ok tx"
  shows "\<exists>signer t tip base. sign = Ok signer \<and> signer w t = Ok tx \<and> HeaderBaseFee c = Ok (Some base) \<and>
    clr_To t = w \<and> clr_Nonce t = nonce \<and> clr_GasTipCap t = tip \<and>
    EstimateGas c w (clr_GasFeeCap t) tip = Ok (clr_Gas t) \<and>
    (\<forall>b \<le> 2 * base. min tip (clr_GasFeeCap t - b) = tip) \<and>
    (case SuggestGasTipCap c of Ok x \<Rightarrow> tip = x
     | Err e \<Rightarrow> IsMaxPriorityFeePerGasNotFoundError e \<and> tip = FallbackGasTipCap | Panic p \<Rightarrow> False)"
proof -
  from SignClearingTx_Ok [OF assms] obtain signer tip base gas where
    *: "sign = Ok signer" "HeaderBaseFee c = Ok (Some base)"
    "EstimateGas c w (CalcGasFeeCap base tip) tip = Ok gas"
    "signer w (CraftClearingTx w nonce (CalcGasFeeCap base tip) tip gas) = Ok tx"
    "case SuggestGasTipCap c of Ok x \<Rightarrow> tip = x
     | Err e \<Rightarrow> IsMaxPriorityFeePerGasNotFoundError e \<and> tip = FallbackGasTipCap | Panic p \<Rightarrow> False" .
  show ?thesis
    by (rule exI [of _ signer], rule exI [of _ "CraftClearingTx w nonce (CalcGasFeeCap base tip) tip gas"],
        rule exI [of _ tip], rule exI [of _ base])
      (use * in \<open>simp add: CraftClearingTx_def CalcGasFeeCap_def\<close>)
qed

theorem SignClearingTx_spec_witness:
  "\<exists>t. SignClearingTx 9 3 \<lparr>SuggestGasTipCap = Ok 2, HeaderBaseFee = Ok (Some 10),
      EstimateGas = (\<lambda>w f t. Ok 21000), SendTransaction = (\<lambda>t. Ok ())\<rparr> (Ok (\<lambda>w t. Ok t)) = Ok t \<and>
    clr_Nonce t = 3 \<and> min 2 (clr_GasFeeCap t - 20) = 2"
proof -
  let ?c = "\<lparr>SuggestGasTipCap = Ok 2, HeaderBaseFee = Ok (Some 10),
      EstimateGas = (\<lambda>w f t. Ok 21000), SendTransaction = (\<lambda>t. Ok ())\<rparr>"
  let ?t = "\<lparr>clr_To = 9, clr_Nonce = 3, clr_Gas = 21000, clr_GasFeeCap = 22, clr_GasTipCap = 2\<rparr>"
  have t: "SignClearingTx 9 3 ?c (Ok (\<lambda>w t. Ok t)) = Ok ?t"
    by (simp add: SignClearingTx_def CraftClearingTx_def CalcGasFeeCap_def)
  from SignClearingTx_spec [OF t] have "min 2 (clr_GasFeeCap ?t - 20) = 2" by auto
  with t show ?thesis by (intro exI [of _ ?t]) simp
qed

text \<open>
  Clearing asks for a retry when an earlier transaction took the nonce: the closure answers a
  nonce error of the node by cancelling, and a cancelled \<open>Send\<close> becomes the retry error; every
  other error is passed on.
\<close>

theorem ClearPendingTx_retry:
  assumes "nonceAt = Ok nonce" and "SignClearingTx w nonce c sign = Ok tx"
    and "SendTransaction c tx = Err err" and "shouldAbortImmediately err"
    and "\<And>f. snd (f c) \<Longrightarrow> send f = Err contextCanceled"
  shows "ClearPendingTx nonceAt send w sign = Err ErrClearPendingRetry"
  using assms by (simp add: ClearPendingTx_def clearingSendTx_def shouldAbortImmediately_def)

theorem ClearPendingTx_retry_witness:
  "ClearPendingTx (Ok 3) (\<lambda>f. if snd (f \<lparr>SuggestGasTipCap = Ok 2, HeaderBaseFee = Ok (Some 10),
      EstimateGas = (\<lambda>w f t. Ok 21000), SendTransaction = (\<lambda>t. Err ErrNonceTooLow)\<rparr>)
      then Err contextCanceled else Ok ()) 9 (Ok (\<lambda>w t. Ok t)) = Err ErrClearPendingRetry"
proof -
  let ?c = "\<lparr>SuggestGasTipCap = Ok 2, HeaderBaseFee = Ok (Some 10),
      EstimateGas = (\<lambda>w f t. Ok 21000), SendTransaction = (\<lambda>t. Err ErrNonceTooLow)\<rparr>"
  let ?t = "\<lparr>clr_To = 9, clr_Nonce = 3, clr_Gas = 21000, clr_GasFeeCap = 22, clr_GasTipCap = 2\<rparr>"
  have "SignClearingTx 9 3 ?c (Ok (\<lambda>w t. Ok t)) = Ok ?t"
    by (simp add: SignClearingTx_def CraftClearingTx_def CalcGasFeeCap_def)
  then show ?thesis
    by (rule ClearPendingTx_retry [OF refl, where err = ErrNonceTooLow])
      (simp_all add: shouldAbortImmediately_def ErrNonceTooLow_def)
qed

text \<open>
  When the key service refuses to make a signer, signing a clearing transaction does not
  return that error: it dereferences nil options.
\<close>

theorem SignClearingTx_sign_error:
  assumes "SuggestGasTipCap c = Ok tip" and "HeaderBaseFee c = Ok (Some base)"
    and "EstimateGas c w (CalcGasFeeCap base tip) tip = Ok gas"
  shows "SignClearingTx w nonce c (Err e) = Panic nilDereference"
  using assms by (simp add: SignClearingTx_def)

theorem SignClearingTx_sign_error_witness:
  "SignClearingTx 9 3 \<lparr>SuggestGasTipCap = Ok 2, HeaderBaseFee = Ok (Some 10),
      EstimateGas = (\<lambda>w f t. Ok 21000), SendTransaction = (\<lambda>t. Ok ())\<rparr>
     (Err (GoErr ''kms'') :: ClearingTx signer res) = Panic nilDereference"
  by (rule SignClearingTx_sign_error) simp_all

end
