(* ===== verification/SequencerDriver.thy ===== *)
theory SequencerDriver
  imports SequencerBatch BssDrivers
begin

text \<open>
  The driver that posts L2 transactions to L1:
  \<open>go/batch-submitter/drivers/sequencer/driver.go\<close>. Parameters are the L2 client
  (\<open>blockByNumber\<close>), the chain contract, the method selector, the KMS signer
  (\<open>newTransactor\<close>) and the bound contract (\<open>rawTransact\<close>), with brotli as in the batch encoding.
\<close>

record SequencerConfig =
  BlockOffset :: u64
  MaxTxSize :: u64

definition GetBatchBlockRange :: "SequencerConfig \<Rightarrow> int res \<Rightarrow> int res \<Rightarrow> (int \<times> int) res" where
  "GetBatchBlockRange cfg totalElements latestNumber =
     res_bind totalElements (\<lambda>total.
       let start = total + uint (BlockOffset cfg) in
       res_bind latestNumber (\<lambda>number.
         let end = number + 1 in
         if end < start then Err (invalidRange start end) else Ok (start, end)))"

text \<open>
  The first loop of \<open>CraftBatchTx\<close>, over the blocks that are left, with the running size. The
  size is returned also with an error.
\<close>

fun collectElements ::
    "(int \<Rightarrow> L2Block res) \<Rightarrow> u64 \<Rightarrow> nat \<Rightarrow> int \<Rightarrow> u64 \<Rightarrow> BatchElement list \<Rightarrow> BatchElement list res \<times> u64" where
  "collectElements blockByNumber maxSize 0 i totalTxSize els = (Ok els, totalTxSize)"
| "collectElements blockByNumber maxSize (Suc left) i totalTxSize els =
     (case blockByNumber i of
        Err err \<Rightarrow> (Err err, totalTxSize)
      | Panic p \<Rightarrow> (Panic p, totalTxSize)
      | Ok block \<Rightarrow>
          (case BatchElementFromBlock block of
             Err err \<Rightarrow> (Err err, totalTxSize)
           | Panic p \<Rightarrow> (Panic p, totalTxSize)
           | Ok (el, _) \<Rightarrow>
               (case el_Tx el of
                  Some tx \<Rightarrow>
                    let size = of_nat (TxLenSize + CachedTx_Size tx) :: u64 in
                    if maxSize < totalTxSize + size then (Ok els, totalTxSize)
                    else collectElements blockByNumber maxSize left (i + 1) (totalTxSize + size) (els @ [el])
                | None \<Rightarrow>
                    collectElements blockByNumber maxSize left (i + 1) totalTxSize (els @ [el]))))"

text \<open>
  The second loop drops the last tenth of the elements until the calldata fits. It has no other
  exit, so it is a partial function: \<open>None\<close> means that it runs forever.
\<close>

partial_function (option) pruneBatch ::
    "(bytes \<Rightarrow> bytes) \<Rightarrow> bytes \<Rightarrow> SequencerConfig \<Rightarrow> u64 \<Rightarrow> BatchElement list \<Rightarrow>
     (bytes \<times> BatchElement list) res option" where
  "pruneBatch compress methodID cfg shouldStartAt els =
     (case res_bind (GenSequencerBatchParams shouldStartAt (BlockOffset cfg) els) (Serialize compress) of
        Err err \<Rightarrow> Some (Err err)
      | Panic p \<Rightarrow> Some (Panic p)
      | Ok batchArguments \<Rightarrow>
          if MaxTxSize cfg < of_nat (length (methodID @ batchArguments))
          then pruneBatch compress methodID cfg shouldStartAt (take (length els * 9 div 10) els)
          else Some (Ok (methodID @ batchArguments, els)))"

definition CraftBatchTx ::
    "SequencerConfig \<Rightarrow> (int \<Rightarrow> L2Block res) \<Rightarrow> (bytes \<Rightarrow> bytes) \<Rightarrow> bytes \<Rightarrow> TransactOpts res \<Rightarrow>
     (TransactOpts \<Rightarrow> bytes \<Rightarrow> 'tx res) \<Rightarrow> int \<Rightarrow> int \<Rightarrow> int \<Rightarrow> ('tx res \<times> u64) option" where
  "CraftBatchTx cfg blockByNumber compress methodID newTransactor rawTransact start end nonce =
     (case collectElements blockByNumber (MaxTxSize cfg) (nat (end - start)) start 0 [] of
        (Err err, totalTxSize) \<Rightarrow> Some (Err err, totalTxSize)
      | (Panic p, totalTxSize) \<Rightarrow> Some (Panic p, totalTxSize)
      | (Ok els, totalTxSize) \<Rightarrow>
          map_option (\<lambda>pruned.
              (res_bind pruned (\<lambda>(batchCallData, _).
               res_bind newTransactor (\<lambda>opts.
                 transactWithFallback (opts\<lparr>opts_Nonce := Some nonce, opts_NoSend := True\<rparr>)
                   (\<lambda>opts. rawTransact opts batchCallData))), totalTxSize))
            (pruneBatch compress methodID cfg (of_int \<bar>start\<bar>) els))"

definition SubmitBatchTx ::
    "TransactOpts res \<Rightarrow> (TransactOpts \<Rightarrow> bytes \<Rightarrow> 'tx res) \<Rightarrow> ('tx \<Rightarrow> u64) \<Rightarrow> ('tx \<Rightarrow> bytes) \<Rightarrow> 'tx \<Rightarrow> 'tx res" where
  "SubmitBatchTx newTransactor rawTransact txNonce txData tx =
     res_bind newTransactor (\<lambda>opts.
       transactWithFallback (opts\<lparr>opts_Nonce := Some (uint (txNonce tx))\<rparr>)
         (\<lambda>opts. rawTransact opts (txData tx)))"

section \<open>Collecting\<close>

text \<open>The elements of \<open>n\<close> consecutive blocks.\<close>

fun blockElements :: "(int \<Rightarrow> L2Block res) \<Rightarrow> nat \<Rightarrow> int \<Rightarrow> BatchElement list option" where
  "blockElements blockByNumber 0 i = Some []"
| "blockElements blockByNumber (Suc n) i =
     (case res_bind (blockByNumber i) BatchElementFromBlock of
        Ok (el, _) \<Rightarrow> map_option ((#) el) (blockElements blockByNumber n (i + 1))
      | _ \<Rightarrow> None)"

definition elementsSize :: "BatchElement list \<Rightarrow> nat" where
  "elementsSize els = sum_list (map (\<lambda>t. TxLenSize + CachedTx_Size t) (seq_txs els))"

lemma elementsSize_simps [simp]:
  "elementsSize [] = 0"
  "elementsSize (el # els) =
     (case el_Tx el of Some t \<Rightarrow> TxLenSize + CachedTx_Size t | None \<Rightarrow> 0) + elementsSize els"
  by (simp_all add: elementsSize_def seq_txs_def map_filter_simps split: option.split)

text \<open>No transaction of the chain is so large that its size wraps around.\<close>

definition sizes_small :: "(int \<Rightarrow> L2Block res) \<Rightarrow> bool" where
  "sizes_small blockByNumber \<longleftrightarrow> (\<forall>j b el b' t. blockByNumber j = Ok b \<longrightarrow>
     BatchElementFromBlock b = Ok (el, b') \<longrightarrow> el_Tx el = Some t \<longrightarrow> CachedTx_Size t < 2 ^ 62)"

lemma sizes_smallD:
  "sizes_small blockByNumber \<Longrightarrow> blockByNumber j = Ok b \<Longrightarrow> BatchElementFromBlock b = Ok (el, b') \<Longrightarrow>
     el_Tx el = Some t \<Longrightarrow> TxLenSize + CachedTx_Size t < 2 ^ 63"
  by (fastforce simp: sizes_small_def TxLenSize_def)

lemma collectElements_Ok:
  "collectElements blockByNumber maxSize left i tot els = (Ok els', tot') \<Longrightarrow>
   sizes_small blockByNumber \<Longrightarrow>
   unat maxSize < 2 ^ 63 \<Longrightarrow> tot \<le> maxSize \<Longrightarrow>
   \<exists>n new. n \<le> left \<and> blockElements blockByNumber n i = Some new \<and> els' = els @ new \<and>
     unat tot' = unat tot + elementsSize new \<and> tot' \<le> maxSize"
proof (induction left arbitrary: i tot els)
  case 0
  then show ?case by (intro exI [of _ 0] exI [of _ "[]"]) simp
next
  case (Suc left)
  note bound = sizes_smallD [OF Suc.prems(2)] and max = Suc.prems(3,4)
  obtain block where block: "blockByNumber i = Ok block" using Suc.prems(1) by (cases "blockByNumber i") auto
  obtain el b' where el: "BatchElementFromBlock block = Ok (el, b')"
    using Suc.prems(1) block by (cases "BatchElementFromBlock block") auto
  show ?case
  proof (cases "el_Tx el")
    case None
    then have "collectElements blockByNumber maxSize left (i + 1) tot (els @ [el]) = (Ok els', tot')"
      using Suc.prems(1) block el by simp
    from Suc.IH [OF this Suc.prems(2) max] obtain n new where
      "n \<le> left" "blockElements blockByNumber n (i + 1) = Some new" "els' = (els @ [el]) @ new"
      "unat tot' = unat tot + elementsSize new" "tot' \<le> maxSize" by blast
    with block el None show ?thesis by (intro exI [of _ "Suc n"] exI [of _ "el # new"]) simp
  next
    case (Some t)
    let ?size = "of_nat (TxLenSize + CachedTx_Size t) :: u64"
    have "unat ?size = TxLenSize + CachedTx_Size t" "unat tot < 2 ^ 63"
      using bound [OF block el Some] max by (simp_all add: unat_of_nat_u64 word_le_nat_alt del: of_nat_add)
    then have sum: "unat (tot + ?size) = unat tot + (TxLenSize + CachedTx_Size t)"
      using unat_add_lem [THEN iffD1, of tot ?size] bound [OF block el Some] by simp
    show ?thesis
    proof (cases "maxSize < tot + ?size")
      case True
      with Suc.prems(1) block el Some have "els' = els" "tot' = tot" by (simp_all add: Let_def)
      with max show ?thesis by (intro exI [of _ 0] exI [of _ "[]"]) simp
    next
      case False
      then have "collectElements blockByNumber maxSize left (i + 1) (tot + ?size) (els @ [el]) = (Ok els', tot')"
        using Suc.prems(1) block el Some by (simp add: Let_def)
      moreover have "tot + ?size \<le> maxSize" using False by simp
      ultimately obtain n new where
        "n \<le> left" "blockElements blockByNumber n (i + 1) = Some new" "els' = (els @ [el]) @ new"
        "unat tot' = unat (tot + ?size) + elementsSize new" "tot' \<le> maxSize"
        using Suc.IH [OF _ Suc.prems(2) max(1)] by blast
      with block el Some sum show ?thesis by (intro exI [of _ "Suc n"] exI [of _ "el # new"]) simp
    qed
  qed
qed

section \<open>Pruning\<close>

abbreviation batchArgs :: "(bytes \<Rightarrow> bytes) \<Rightarrow> SequencerConfig \<Rightarrow> u64 \<Rightarrow> BatchElement list \<Rightarrow> bytes res" where
  "batchArgs compress cfg s els \<equiv>
     res_bind (GenSequencerBatchParams s (BlockOffset cfg) els) (Serialize compress)"

definition pruned_ok ::
    "(bytes \<Rightarrow> bytes) \<Rightarrow> bytes \<Rightarrow> SequencerConfig \<Rightarrow> u64 \<Rightarrow> BatchElement list \<Rightarrow>
     (bytes \<times> BatchElement list) res \<Rightarrow> bool" where
  "pruned_ok compress methodID cfg s els x \<longleftrightarrow> (case x of
     Ok (callData, els') \<Rightarrow> \<exists>n args. els' = take n els \<and> callData = methodID @ args \<and>
       batchArgs compress cfg s els' = Ok args \<and> of_nat (length callData) \<le> MaxTxSize cfg
   | _ \<Rightarrow> True)"

lemma pruned_ok_take:
  "pruned_ok compress methodID cfg s (take k els) x \<Longrightarrow> pruned_ok compress methodID cfg s els x"
  unfolding pruned_ok_def by (auto split: res.splits)

lemma pruneBatch_Ok:
  assumes "pruneBatch compress methodID cfg s els = Some x"
  shows "pruned_ok compress methodID cfg s els x"
proof (rule pruneBatch.raw_induct [where P = pruned_ok, OF _ assms])
  fix P :: "(bytes \<Rightarrow> bytes) \<Rightarrow> bytes \<Rightarrow> SequencerConfig \<Rightarrow> u64 \<Rightarrow> BatchElement list \<Rightarrow>
      (bytes \<times> BatchElement list) res option"
    and compress methodID cfg s els x
  assume IH: "\<And>compress methodID cfg s els x. P compress methodID cfg s els = Some x \<Longrightarrow>
      pruned_ok compress methodID cfg s els x"
    and r: "(case batchArgs compress cfg s els of
        Err err \<Rightarrow> Some (Err err) | Panic p \<Rightarrow> Some (Panic p)
      | Ok batchArguments \<Rightarrow> if MaxTxSize cfg < of_nat (length (methodID @ batchArguments))
          then P compress methodID cfg s (take (length els * 9 div 10) els)
          else Some (Ok (methodID @ batchArguments, els))) = Some x"
  show "pruned_ok compress methodID cfg s els x"
  proof (cases "batchArgs compress cfg s els")
    case (Ok args)
    show ?thesis
    proof (cases "MaxTxSize cfg < of_nat (length (methodID @ args))")
      case True
      with r Ok have "P compress methodID cfg s (take (length els * 9 div 10) els) = Some x"
        by (simp only: res.case if_True)
      from pruned_ok_take [OF IH [OF this]] show ?thesis .
    next
      case False
      with r Ok have "x = Ok (methodID @ args, els)" by (simp only: res.case if_False option.inject)
      with False Ok show ?thesis
        by (simp add: pruned_ok_def not_less exI [of _ "length els"] del: length_append)
    qed
  qed (use r in \<open>auto simp: pruned_ok_def\<close>)
qed

lemma batchArgs_Nil:
  "batchArgs compress cfg s [] =
     (if unat (s - BlockOffset cfg) < 256 ^ 5
      then Ok (batch_bytes compress \<lparr>ShouldStartAtElement = s - BlockOffset cfg, TotalElementsToAppend = 0,
        Contexts = [], Txs = []\<rparr>)
      else Panic ''cannot encode value'')"
proof (cases "unat (s - BlockOffset cfg) < 256 ^ 5")
  case True
  then show ?thesis
    by (simp add: GenSequencerBatchParams_def groupInit_def Serialize_bytes batch_fits_def)
next
  case False
  then have "writeUint64 (s - BlockOffset cfg) 5 = Panic ''cannot encode value''"
    using writeUint64_panic [of 5 "s - BlockOffset cfg"]
    by (auto simp: writeUint64_def Let_def split: if_splits)
  with False show ?thesis
    by (simp add: GenSequencerBatchParams_def groupInit_def Serialize_def Batch_Write_def)
qed

lemma length_batch_bytes_Nil:
  "length (batch_bytes compress \<lparr>ShouldStartAtElement = a, TotalElementsToAppend = b, Contexts = [], Txs = []\<rparr>)
     = 27 + length (compress [])"
  by (simp add: batch_bytes_def ctx_bytes_def del: be_bytes.simps)

lemma pruneBatch_terminates:
  assumes "length methodID + 27 + length (compress []) \<le> unat (MaxTxSize cfg)"
  shows "\<exists>x. pruneBatch compress methodID cfg s els = Some x"
proof (induction "length els" arbitrary: els rule: less_induct)
  case less
  show ?case
  proof (cases els)
    case Nil
    have "unat (of_nat (length methodID + (27 + length (compress []))) :: u64) =
        length methodID + (27 + length (compress []))"
      using assms unat_u64_bound [of "MaxTxSize cfg"] by (intro unat_of_nat_u64) simp
    then have "\<not> MaxTxSize cfg < of_nat (length methodID + (27 + length (compress [])))"
      using assms by (simp add: word_less_nat_alt del: of_nat_add)
    then show ?thesis
      unfolding Nil by (subst pruneBatch.simps)
        (simp add: batchArgs_Nil length_batch_bytes_Nil del: of_nat_add)
  next
    case (Cons e es)
    then have "length (take (length els * 9 div 10) els) < length els" by simp
    from less [OF this] show ?thesis
      by (subst pruneBatch.simps) (auto split: res.split)
  qed
qed

lemma pruneBatch_diverges:
  assumes "unat (MaxTxSize cfg) < length methodID + 27 + length (compress [])"
    and "length methodID + 27 + length (compress []) < 2 ^ 64"
    and "unat (s - BlockOffset cfg) < 256 ^ 5"
  shows "pruneBatch compress methodID cfg s [] = None"
proof -
  have "unat (of_nat (length methodID + (27 + length (compress []))) :: u64) =
      length methodID + (27 + length (compress []))"
    using assms(2) by (intro unat_of_nat_u64) simp
  then have big: "MaxTxSize cfg < of_nat (length methodID + (27 + length (compress [])))"
    using assms(1) by (simp add: word_less_nat_alt del: of_nat_add)
  define P where "P c m f t els x \<longleftrightarrow> \<not> (c = compress \<and> m = methodID \<and> f = cfg \<and> t = s \<and> els = [])"
    for c m f t and els :: "BatchElement list" and x :: "(bytes \<times> BatchElement list) res"
  have "P compress methodID cfg s [] x" if x: "pruneBatch compress methodID cfg s [] = Some x" for x
  proof (rule pruneBatch.raw_induct [where P = P, OF _ x])
    fix F :: "(bytes \<Rightarrow> bytes) \<Rightarrow> bytes \<Rightarrow> SequencerConfig \<Rightarrow> u64 \<Rightarrow> BatchElement list \<Rightarrow>
        (bytes \<times> BatchElement list) res option" and c m f t els x
    assume IH: "\<And>c m f t els x. F c m f t els = Some x \<Longrightarrow> P c m f t els x"
      and r: "(case batchArgs c f t els of
          Err err \<Rightarrow> Some (Err err) | Panic p \<Rightarrow> Some (Panic p)
        | Ok batchArguments \<Rightarrow> if MaxTxSize f < of_nat (length (m @ batchArguments))
            then F c m f t (take (length els * 9 div 10) els)
            else Some (Ok (m @ batchArguments, els))) = Some x"
    have "F compress methodID cfg s [] = Some x" if "\<not> P c m f t els x"
      using r that big assms(3)
      by (simp add: P_def batchArgs_Nil length_batch_bytes_Nil del: of_nat_add)
    with IH [of compress methodID cfg s "[]" x] show "P c m f t els x" by (simp only: P_def) blast
  qed
  then have "pruneBatch compress methodID cfg s [] \<noteq> Some x" for x by (auto simp: P_def)
  then show ?thesis by (cases "pruneBatch compress methodID cfg s []") auto
qed

section \<open>What was serialized fits\<close>

lemma writeUint64_fits: "writeUint64 v n = Ok b \<Longrightarrow> 1 \<le> n \<Longrightarrow> n \<le> 8 \<Longrightarrow> unat v < 256 ^ n"
  using writeUint64_panic [of n v] by (fastforce simp: not_less)

lemma writeContexts_fits: "writeContexts cs = Ok b \<Longrightarrow> c \<in> set cs \<Longrightarrow> ctx_fits c"
proof (induction cs arbitrary: b)
  case (Cons a cs)
  then consider b' where "c = a" "BatchContext_Write a = Ok b'" | b' where "c \<in> set cs" "writeContexts cs = Ok b'"
    by (auto simp: res_bind_eq_Ok res_map_eq_Ok)
  then show ?case
  proof cases
    case 1
    then obtain a1 a2 a3 a4 where "writeUint64 (NumSequencedTxs c) 3 = Ok a1"
      "writeUint64 (NumSubsequentQueueTxs c) 3 = Ok a2" "writeUint64 (ctx_Timestamp c) 5 = Ok a3"
      "writeUint64 (ctx_BlockNumber c) 5 = Ok a4"
      by (auto simp: BatchContext_Write_def res_bind_eq_Ok)
    from this [THEN writeUint64_fits] show ?thesis by (simp add: ctx_fits_def)
  qed (use Cons.IH in blast)
qed simp

lemma writeTxs_fits:
  "writeTxs ts = Ok b \<Longrightarrow> t \<in> set ts \<Longrightarrow> unat (of_nat (CachedTx_Size t) :: u64) < 256 ^ TxLenSize"
proof (induction ts arbitrary: b)
  case (Cons a ts)
  then consider b' where "t = a" "writeUint64 (of_nat (CachedTx_Size a)) TxLenSize = Ok b'"
    | b' where "t \<in> set ts" "writeTxs ts = Ok b'"
    by (auto simp: res_bind_eq_Ok res_map_eq_Ok)
  then show ?case
  proof cases
    case 1
    then show ?thesis using writeUint64_fits [OF 1(2)] by (simp add: TxLenSize_def)
  qed (use Cons.IH in blast)
qed simp

definition tx_ok :: "CachedTx \<Rightarrow> bool" where
  "tx_ok t \<longleftrightarrow> encodable (tx_data (cached_tx t)) \<and> NewCachedTx (cached_tx t) = Ok t"

lemma tx_ok_length: "tx_ok t \<Longrightarrow> length (rawTx t) < 2 ^ 64"
  by (cases t) (auto simp: tx_ok_def NewCachedTx_def Tx_EncodeRLP_Ok encodable_def)

lemma Serialize_fits:
  assumes "Serialize compress p = Ok b" and "length (Contexts p) + 1 < 2 ^ 64" and "\<forall>t \<in> set (Txs p). tx_ok t"
  shows "batch_fits p"
proof -
  define cs where "cs = MarkerContext # Contexts p"
  note S = assms(1) [unfolded Serialize_def Batch_Write_def Let_def, folded cs_def]
  obtain a1 where 1: "writeUint64 (ShouldStartAtElement p) 5 = Ok a1"
    using S by (cases "writeUint64 (ShouldStartAtElement p) 5") simp_all
  obtain a2 where 2: "writeUint64 (TotalElementsToAppend p) 3 = Ok a2"
    using S 1 by (cases "writeUint64 (TotalElementsToAppend p) 3") simp_all
  have 3: "Contexts p = [] \<longleftrightarrow> Txs p = []"
    using S 1 2 by (cases "Contexts p"; cases "Txs p") simp_all
  have r: "res_bind (writeUint64 (of_nat (length cs)) 3) (\<lambda>c. res_bind (writeContexts cs) (\<lambda>d.
        res_map (\<lambda>txs. a1 @ a2 @ c @ d @ compress txs) (writeTxs (Txs p)))) = Ok b"
    using S 1 2 3 by simp
  from r obtain a3 a4 a5 where w':
    "writeUint64 (of_nat (length cs)) 3 = Ok a3" "writeContexts cs = Ok a4" "writeTxs (Txs p) = Ok a5"
    by (auto simp: res_bind_eq_Ok res_map_eq_Ok)
  have "unat (of_nat (length cs) :: u64) = length (Contexts p) + 1"
    using assms(2) by (subst unat_of_nat_u64) (simp_all add: cs_def)
  then have "length (Contexts p) + 1 < 256 ^ 3" using writeUint64_fits [OF w'(1)] by simp
  moreover have "tx_fits t" if "t \<in> set (Txs p)" for t
  proof -
    from that assms(3) have "tx_ok t" by blast
    with tx_ok_length [OF this] writeTxs_fits [OF w'(3) that] show ?thesis
      by (simp add: tx_fits_def tx_ok_def CachedTx_Size_def TxLenSize_def unat_of_nat_u64)
  qed
  ultimately show ?thesis
    using writeUint64_fits [OF 1] writeUint64_fits [OF 2] writeContexts_fits [OF w'(2)] 3
    by (simp add: batch_fits_def cs_def)
qed

section \<open>Elements of encodable chains\<close>

definition chain_ok :: "(int \<Rightarrow> L2Block res) \<Rightarrow> bool" where
  "chain_ok blockByNumber \<longleftrightarrow> sizes_small blockByNumber \<and>
     (\<forall>j b el b' t. blockByNumber j = Ok b \<longrightarrow> BatchElementFromBlock b = Ok (el, b') \<longrightarrow>
        el_Tx el = Some t \<longrightarrow> encodable (tx_data (cached_tx t)))"

lemma BatchElementFromBlock_tx:
  assumes "BatchElementFromBlock b = Ok (el, b')" and "el_Tx el = Some t"
  shows "NewCachedTx (cached_tx t) = Ok t"
proof -
  have "NewCachedTx tx = Ok t \<Longrightarrow> cached_tx t = tx" for tx
    by (auto simp: NewCachedTx_def split: res.splits)
  then show ?thesis
    using assms by (auto simp: BatchElementFromBlock_def Let_def res_map_eq_Ok
        split: list.splits option.splits if_splits)
qed

lemma blockElements_ok:
  "chain_ok blockByNumber \<Longrightarrow> blockElements blockByNumber n i = Some els \<Longrightarrow>
     \<forall>t \<in> set (seq_txs els). tx_ok t"
proof (induction n arbitrary: i els)
  case 0
  then show ?case by (simp add: seq_txs_def map_filter_simps)
next
  case (Suc n)
  from Suc.prems(2) obtain b el b' els' where
    e: "blockByNumber i = Ok b" "BatchElementFromBlock b = Ok (el, b')"
    "blockElements blockByNumber n (i + 1) = Some els'" "els = el # els'"
    by (cases "blockByNumber i"; cases "res_bind (blockByNumber i) BatchElementFromBlock") auto
  have "tx_ok t" if "el_Tx el = Some t" for t
    using that e(1,2) Suc.prems(1) BatchElementFromBlock_tx [OF e(2) that] by (auto simp: chain_ok_def tx_ok_def)
  with Suc.IH [OF Suc.prems(1) e(3)] e(4) show ?case
    by (auto simp: seq_txs_def map_filter_simps split: option.splits)
qed

lemma length_blockElements: "blockElements blockByNumber n i = Some els \<Longrightarrow> length els = n"
  by (induction n arbitrary: i els) (auto split: res.splits)

lemma blockElements_take:
  "blockElements blockByNumber n i = Some els \<Longrightarrow> k \<le> n \<Longrightarrow>
     blockElements blockByNumber k i = Some (take k els)"
proof (induction n arbitrary: i els k)
  case (Suc n)
  then show ?case by (cases k) (auto split: res.splits)
qed simp

section \<open>What a reader of the calldata sees\<close>

definition postedView :: "BatchElement \<Rightarrow> element_view" where
  "postedView el = (el_Timestamp el, map_option (\<lambda>t. (el_BlockNumber el, strip t)) (el_Tx el))"

lemma expand_map:
  "expand cs (map f txs) = map (\<lambda>(ts, x). (ts, map_option (\<lambda>(bn, t). (bn, f t)) x)) (expand cs txs)"
  by (induction cs arbitrary: txs) (simp_all add: take_map drop_map)

lemma length_groups:
  "\<forall>g \<in> set gs. group_ok g \<Longrightarrow> length gs \<le> length (concat (map group_elements gs))"
proof (induction gs)
  case (Cons g gs)
  then have "1 \<le> length (group_elements g)" by (simp add: group_ok_def Suc_le_eq)
  with Cons show ?case by (simp del: length_greater_0_conv One_nat_def)
qed simp

lemma batchArgs_read:
  assumes "batchArgs compress cfg s els = Ok args" and "length els < 2 ^ 63"
    and "\<forall>t \<in> set (seq_txs els). tx_ok t" and "\<And>x. decompress (compress x) = x"
  shows "\<exists>p. Batch_Read decompress emptyBatch args = Ok p \<and>
    ShouldStartAtElement p = s - BlockOffset cfg \<and> unat (TotalElementsToAppend p) = length els \<and>
    expand (Contexts p) (Txs p) = map postedView els"
proof -
  from assms(2) have l: "length els < 2 ^ 64" by simp
  obtain gs where gs: "GenSequencerBatchParams s (BlockOffset cfg) els =
      Ok \<lparr>ShouldStartAtElement = s - BlockOffset cfg, TotalElementsToAppend = of_nat (length els),
          Contexts = map context_of gs, Txs = seq_txs els\<rparr>"
    "\<forall>g \<in> set gs. group_ok g" "concat (map group_elements gs) = els"
    using GenSequencerBatchParams_groups [OF l] by blast
  define p where "p = \<lparr>ShouldStartAtElement = s - BlockOffset cfg,
    TotalElementsToAppend = of_nat (length els), Contexts = map context_of gs, Txs = seq_txs els\<rparr>"
  have S: "Serialize compress p = Ok args" using assms(1) gs(1) by (simp add: p_def)
  have "length (Contexts p) + 1 < 2 ^ 64"
    using length_groups [OF gs(2)] gs(3) assms(2) by (simp add: p_def)
  with S have fits: "batch_fits p"
    by (rule Serialize_fits) (use assms(3) in \<open>simp add: p_def\<close>)
  then have "args = batch_bytes compress p" using S Serialize_bytes [OF fits, of compress] by simp
  then have "Batch_Read decompress emptyBatch args = Ok (p\<lparr>Txs := map strip (Txs p)\<rparr>)"
    using Batch_Read_bytes [OF fits, where compress = compress and decompress = decompress] assms(4) by simp
  moreover have "expand (Contexts p) (Txs p) = map view els"
    using expand_contexts [OF gs(2)] gs(3) l by (simp add: p_def)
  then have "expand (Contexts p) (map strip (Txs p)) = map postedView els"
    by (simp add: expand_map view_def postedView_def option.map_comp comp_def)
  ultimately show ?thesis using l by (simp add: p_def unat_of_nat_u64)
qed

lemma CraftBatchTx_Ok:
  assumes "CraftBatchTx cfg blockByNumber compress methodID newTransactor rawTransact start end nonce =
      Some (Ok tx, totalSize)"
    and "chain_ok blockByNumber" and "unat (MaxTxSize cfg) < 2 ^ 63"
  obtains n els opts args where "n \<le> nat (end - start)" "blockElements blockByNumber n start = Some els"
    "batchArgs compress cfg (of_int \<bar>start\<bar>) els = Ok args" "rawTransact opts (methodID @ args) = Ok tx"
    "opts_Nonce opts = Some nonce" "opts_NoSend opts"
    "of_nat (length (methodID @ args)) \<le> MaxTxSize cfg" "totalSize \<le> MaxTxSize cfg"
proof -
  obtain c tot where c: "collectElements blockByNumber (MaxTxSize cfg) (nat (end - start)) start 0 [] = (c, tot)"
    by (cases "collectElements blockByNumber (MaxTxSize cfg) (nat (end - start)) start 0 []")
  obtain els0 where els0: "c = Ok els0" using assms(1) c by (cases c) (simp_all add: CraftBatchTx_def)
  obtain x where x: "pruneBatch compress methodID cfg (of_int \<bar>start\<bar>) els0 = Some x"
    using assms(1) c els0 by (auto simp: CraftBatchTx_def)
  have r: "res_bind x (\<lambda>(batchCallData, _). res_bind newTransactor (\<lambda>opts.
      transactWithFallback (opts\<lparr>opts_Nonce := Some nonce, opts_NoSend := True\<rparr>)
        (\<lambda>opts. rawTransact opts batchCallData))) = Ok tx" "totalSize = tot"
    using assms(1) c els0 x by (simp_all add: CraftBatchTx_def)
  then obtain callData els where p: "x = Ok (callData, els)" by (cases x) auto
  then obtain o0 where "transactWithFallback (o0\<lparr>opts_Nonce := Some nonce, opts_NoSend := True\<rparr>)
        (\<lambda>opts. rawTransact opts callData) = Ok tx"
    using r(1) by (cases newTransactor) auto
  from transactWithFallback_Ok [OF this] obtain tip where
    t: "rawTransact (o0\<lparr>opts_Nonce := Some nonce, opts_NoSend := True, opts_GasTipCap := tip\<rparr>) callData = Ok tx"
    by blast
  from pruneBatch_Ok [OF x] p obtain k args where k: "els = take k els0" "callData = methodID @ args"
    "batchArgs compress cfg (of_int \<bar>start\<bar>) els = Ok args" "of_nat (length callData) \<le> MaxTxSize cfg"
    by (auto simp: pruned_ok_def)
  from collectElements_Ok [OF c [unfolded els0]] assms(2,3) obtain n where
    n: "n \<le> nat (end - start)" "blockElements blockByNumber n start = Some els0" "tot \<le> MaxTxSize cfg"
    by (auto simp: chain_ok_def)
  have "els = take (min k n) els0" using k(1) length_blockElements [OF n(2)] by (simp add: min_def)
  then have "blockElements blockByNumber (min k n) start = Some els"
    using blockElements_take [OF n(2)] by simp
  from that [OF _ this k(3) t [unfolded k(2)]] n r(2) k(2,4) show ?thesis by simp
qed

section \<open>Properties\<close>

text \<open>
  C20: Crafting a batch comes to an end whenever the calldata of an empty batch fits the
  configured size.
\<close>

theorem CraftBatchTx_terminates:
  assumes "length methodID + 27 + length (compress []) \<le> unat (MaxTxSize cfg)"
  shows "CraftBatchTx cfg blockByNumber compress methodID newTransactor rawTransact start end nonce \<noteq> None"
proof -
  obtain c tot where "collectElements blockByNumber (MaxTxSize cfg) (nat (end - start)) start 0 [] = (c, tot)"
    by (cases "collectElements blockByNumber (MaxTxSize cfg) (nat (end - start)) start 0 []")
  then show ?thesis
    using pruneBatch_terminates [where compress = compress, OF assms, of "of_int \<bar>start\<bar>"]
    by (cases c) (auto simp: CraftBatchTx_def)
qed

theorem CraftBatchTx_terminates_witness:
  "CraftBatchTx \<lparr>BlockOffset = 1, MaxTxSize = 31\<rparr> (\<lambda>i. Err EOF) id [1, 2, 3, 4] (Err EOF)
     (\<lambda>opts b. Ok b) 1 3 0 \<noteq> None"
  by (rule CraftBatchTx_terminates) simp

text \<open>
  C39: Crafting runs forever when the configured size is below the calldata of an empty batch and
  the first block already has a transaction above the limit, or there is no block.
\<close>

theorem CraftBatchTx_diverges:
  assumes "unat (MaxTxSize cfg) < length methodID + 27 + length (compress [])"
    and "length methodID + 27 + length (compress []) < 2 ^ 64"
    and "0 \<le> start" and "uint (BlockOffset cfg) \<le> start" and "start < 256 ^ 5"
    and "\<exists>tot. collectElements blockByNumber (MaxTxSize cfg) (nat (end - start)) start 0 [] = (Ok [], tot)"
  shows "CraftBatchTx cfg blockByNumber compress methodID newTransactor rawTransact start end nonce = None"
proof -
  have "uint (word_of_int start :: u64) = start"
    using assms(3,5) by (simp add: uint_word_of_int_eq take_bit_int_eq_self)
  then have "uint (word_of_int start - BlockOffset cfg :: u64) = start - uint (BlockOffset cfg)"
    using assms(3,4) by (simp add: uint_sub_lem [THEN iffD1])
  moreover have "start - uint (BlockOffset cfg) < 256 ^ 5"
    using assms(5) uint_ge_0 [of "BlockOffset cfg"] by linarith
  ultimately have "unat (word_of_int start - BlockOffset cfg :: u64) < 256 ^ 5"
    by (simp add: unat_eq_nat_uint nat_less_iff)
  then have "pruneBatch compress methodID cfg (word_of_int start) [] = None"
    using assms(1,2) by (intro pruneBatch_diverges) simp_all
  with assms(3,6) show ?thesis by (auto simp: CraftBatchTx_def)
qed

theorem CraftBatchTx_diverges_witness:
  "CraftBatchTx \<lparr>BlockOffset = 1, MaxTxSize = 30\<rparr> (\<lambda>i. Err EOF) id [1, 2, 3, 4] (Err EOF)
     (\<lambda>opts b. Ok b) 3 3 0 = None"
  by (rule CraftBatchTx_diverges) simp_all

text \<open>
  A submitted batch is the crafted one: the calldata and the nonce of the template are
  used unchanged, given that a transaction made by the contract binding carries the data and
  the nonce it was asked for.
\<close>

theorem SubmitBatchTx_template:
  assumes "SubmitBatchTx newTransactor rawTransact txNonce txData tx = Ok final"
    and "\<And>opts b t n. rawTransact opts b = Ok t \<Longrightarrow> opts_Nonce opts = Some n \<Longrightarrow>
      txData t = b \<and> uint (txNonce t) = n"
  shows "txData final = txData tx \<and> txNonce final = txNonce tx"
proof -
  from assms(1) obtain opts where "transactWithFallback (opts\<lparr>opts_Nonce := Some (uint (txNonce tx))\<rparr>)
      (\<lambda>opts. rawTransact opts (txData tx)) = Ok final"
    by (auto simp: SubmitBatchTx_def res_bind_eq_Ok)
  from transactWithFallback_Ok [OF this] obtain tip where
    "rawTransact (opts\<lparr>opts_Nonce := Some (uint (txNonce tx)), opts_GasTipCap := tip\<rparr>) (txData tx) = Ok final"
    by blast
  from assms(2) [OF this] show ?thesis by (simp add: word_uint_eq_iff)
qed

definition witnessTransact :: "TransactOpts \<Rightarrow> bytes \<Rightarrow> (u64 \<times> bytes) res" where
  "witnessTransact opts b =
     (case (opts_GasTipCap opts, opts_Nonce opts) of
        (None, _) \<Rightarrow> Err errMaxPriorityFeePerGasNotFound
      | (Some _, Some n) \<Rightarrow> if 0 \<le> n \<and> n < 2 ^ 64 then Ok (of_int n, b) else Err EOF
      | _ \<Rightarrow> Err EOF)"

theorem SubmitBatchTx_template_witness:
  "\<exists>final. SubmitBatchTx (Ok \<lparr>opts_Nonce = None, opts_NoSend = False, opts_GasTipCap = None\<rparr>)
      witnessTransact fst snd (5, [1, 2]) = Ok final \<and> snd final = [1, 2] \<and> fst final = 5"
proof -
  let ?opts = "\<lparr>opts_Nonce = None, opts_NoSend = False, opts_GasTipCap = None\<rparr>"
  have "stringsContains (errorText errMaxPriorityFeePerGasNotFound) (errorText errMaxPriorityFeePerGasNotFound)"
    by (simp add: errMaxPriorityFeePerGasNotFound_def)
  then have s: "SubmitBatchTx (Ok ?opts) witnessTransact fst snd (5, [1, 2]) = Ok (5, [1, 2])"
    by (simp add: SubmitBatchTx_def transactWithFallback_def witnessTransact_def
        IsMaxPriorityFeePerGasNotFoundError_def)
  have "snd (5 :: u64, [1, 2 :: u8]) = snd (5 :: u64, [1, 2]) \<and> fst (5 :: u64, [1, 2 :: u8]) = fst (5 :: u64, [1, 2 :: u8])"
    by (rule SubmitBatchTx_template [OF s])
      (auto simp: witnessTransact_def uint_word_of_int_eq take_bit_int_eq_self split: option.splits if_splits)
  with s show ?thesis by auto
qed

section \<open>A concrete chain\<close>

text \<open>
  Every block has the same sequencer transaction; it is used to exhibit runs of the driver and
  of what is built on it.
\<close>

definition witnessBlock :: L2Block where
  "witnessBlock = \<lparr>blk_Time = 100, blk_Txs = [\<lparr>tx_data = witnessTx,
     tx_meta = zeroMeta\<lparr>L1BlockNumber := Some 7, QueueOrigin := QueueOriginSequencer\<rparr>\<rparr>]\<rparr>"

definition witnessGrafted :: txdata where
  "witnessGrafted = witnessTx\<lparr>Payload := [1, 0, 0, 5, 6]\<rparr>"

definition witnessElement :: BatchElement where
  "witnessElement = \<lparr>el_Timestamp = 100, el_BlockNumber = 7, el_Tx = Some \<lparr>cached_tx =
     \<lparr>tx_data = witnessGrafted, tx_meta = zeroMeta\<lparr>L1BlockNumber := Some 7, QueueOrigin := QueueOriginSequencer\<rparr>\<rparr>,
     rawTx = rlp_bytes (txdata_val witnessGrafted)\<rparr>\<rparr>"

lemma length_witnessGrafted: "length (rlp_bytes (txdata_val witnessGrafted)) < 100"
proof -
  have "min_be 1 = [1]" "min_be 2 = [2]" "min_be 3 = [3]" "min_be 4 = [4]" "min_be 27 = [27]"
    "min_be 7 = [7]" "min_be 8 = [8]" by (simp_all add: min_be.simps)
  then show ?thesis
    by (simp add: witnessGrafted_def witnessTx_def txdata_val_def rlp_bytes_def enc_string_def puthead_def
        enc_items_def)
qed

lemma encodable_witnessGrafted: "encodable witnessGrafted"
  using length_witnessGrafted by (simp add: encodable_def) (simp add: witnessGrafted_def witnessTx_def)

lemma witnessBlock_element: "\<exists>b. BatchElementFromBlock witnessBlock = Ok (witnessElement, b)"
proof -
  let ?m = "zeroMeta\<lparr>L1BlockNumber := Some 7, QueueOrigin := QueueOriginSequencer\<rparr>"
  have "graftTuring (L1Turing ?m) [5, 6] = [1, 0, 0, 5, 6]"
    by (simp add: graftTuring_def turingData_def zeroMeta_def NewTransactionMeta_def)
  then show ?thesis
    using encodable_witnessGrafted Tx_EncodeRLP_Ok [of "\<lparr>tx_data = witnessGrafted, tx_meta = ?m\<rparr>"]
    by (simp add: BatchElementFromBlock_def witnessBlock_def witnessElement_def GetMeta_def SetData_def
        NewCachedTx_def witnessGrafted_def Let_def witnessTx_def)
qed

definition witnessCfg :: SequencerConfig where
  "witnessCfg = \<lparr>BlockOffset = 1, MaxTxSize = 100000\<rparr>"

definition witnessOpts :: TransactOpts where
  "witnessOpts = \<lparr>opts_Nonce = None, opts_NoSend = False, opts_GasTipCap = None\<rparr>"

lemma chain_ok_witness: "chain_ok (\<lambda>i. Ok witnessBlock)"
proof -
  obtain b where "BatchElementFromBlock witnessBlock = Ok (witnessElement, b)"
    using witnessBlock_element by blast
  then show ?thesis
    using length_witnessGrafted encodable_witnessGrafted
    by (simp add: chain_ok_def sizes_small_def witnessElement_def CachedTx_Size_def)
qed

lemma batchArgs_witness:
  "\<exists>args. batchArgs id witnessCfg 1 [witnessElement] = Ok args \<and> length args < 200"
proof -
  let ?t = "the (el_Tx witnessElement)"
  define p where "p = \<lparr>ShouldStartAtElement = 0, TotalElementsToAppend = 1, Contexts =
    [\<lparr>NumSequencedTxs = 1, NumSubsequentQueueTxs = 0, ctx_Timestamp = 100, ctx_BlockNumber = 7\<rparr>], Txs = [?t]\<rparr>"
  have g: "GenSequencerBatchParams 1 1 [witnessElement] = Ok p"
    by (simp add: GenSequencerBatchParams_def groupInit_def groupStep_def needsNewGroup_def groupContext_def
        witnessElement_def p_def Let_def)
  have "tx_fits ?t"
    using length_witnessGrafted encodable_witnessGrafted
    by (simp add: tx_fits_def witnessElement_def NewCachedTx_def Tx_EncodeRLP_Ok)
  then have "batch_fits p" by (simp add: batch_fits_def p_def ctx_fits_def)
  from Serialize_bytes [OF this, of id] have "Serialize id p = Ok (batch_bytes id p)" .
  moreover have "length (batch_bytes id p) < 200"
    using length_witnessGrafted
    by (simp add: batch_bytes_def p_def ctx_bytes_def tx_bytes_def witnessElement_def del: be_bytes.simps)
  ultimately show ?thesis using g by (simp add: witnessCfg_def)
qed

lemma CraftBatchTx_witness:
  "\<exists>args sz. CraftBatchTx witnessCfg (\<lambda>i. Ok witnessBlock) id [1, 2, 3, 4] (Ok witnessOpts)
     (\<lambda>opts b. Ok b) 1 2 nonce = Some (Ok ([1, 2, 3, 4] @ args), sz)"
proof -
  obtain b where b: "BatchElementFromBlock witnessBlock = Ok (witnessElement, b)"
    using witnessBlock_element by blast
  obtain t where t: "el_Tx witnessElement = Some t" "CachedTx_Size t < 100"
    using length_witnessGrafted by (simp add: witnessElement_def CachedTx_Size_def)
  have "unat (of_nat (TxLenSize + CachedTx_Size t) :: u64) = TxLenSize + CachedTx_Size t"
    using t(2) by (intro unat_of_nat_u64) (simp add: TxLenSize_def)
  then have "\<not> (100000 :: u64) < of_nat (TxLenSize + CachedTx_Size t)"
    using t(2) by (simp add: word_less_nat_alt TxLenSize_def del: of_nat_add)
  then have c: "\<exists>sz. collectElements (\<lambda>i. Ok witnessBlock) (MaxTxSize witnessCfg) (nat (2 - 1)) 1 0 [] =
      (Ok [witnessElement], sz)"
    using b t by (simp add: witnessCfg_def Let_def del: of_nat_add)
  obtain args where a: "batchArgs id witnessCfg 1 [witnessElement] = Ok args" "length args < 200"
    using batchArgs_witness by blast
  have "unat (of_nat (length ([1, 2, 3, 4] @ args)) :: u64) = length ([1, 2, 3, 4] @ args)"
    using a(2) by (intro unat_of_nat_u64) simp
  then have "\<not> MaxTxSize witnessCfg < of_nat (length ([1, 2, 3, 4 :: u8] @ args))"
    using a(2) by (simp add: word_less_nat_alt witnessCfg_def del: of_nat_add of_nat_Suc)
  then have "pruneBatch id [1, 2, 3, 4] witnessCfg 1 [witnessElement] =
      Some (Ok ([1, 2, 3, 4] @ args, [witnessElement]))"
    by (subst pruneBatch.simps) (simp add: a(1) del: length_append)
  with c show ?thesis
    by (auto simp: CraftBatchTx_def witnessOpts_def transactWithFallback_def)
qed

end
