(* ===== verification/ProposerDriver.thy ===== *)
theory ProposerDriver
  imports BssDrivers
begin

text \<open>
  The driver that posts L2 state roots to L1:
  \<open>go/batch-submitter/drivers/proposer/driver.go\<close>. The two chain contracts, the L2 client, the
  signer and the contract binding are parameters.
\<close>

definition stateRootSize :: u64 where
  "stateRootSize = 32"

record ProposerConfig =
  prop_BlockOffset :: u64
  prop_MaxTxSize :: u64

definition Proposer_GetBatchBlockRange :: "ProposerConfig \<Rightarrow> int res \<Rightarrow> int res \<Rightarrow> (int \<times> int) res" where
  "Proposer_GetBatchBlockRange cfg sccTotal ctcTotal =
     (let blockOffset = uint (prop_BlockOffset cfg) in
      res_bind sccTotal (\<lambda>start.
        let start = start + blockOffset in
        res_bind ctcTotal (\<lambda>end.
          let end = end + blockOffset in
          if end < start then Err (invalidRange start end) else Ok (start, end))))"

text \<open>The loop over the blocks that are left; \<open>rootOf\<close> asks the L2 client for a block's root.\<close>

fun collectRoots ::
    "(int \<Rightarrow> hash res) \<Rightarrow> u64 \<Rightarrow> nat \<Rightarrow> int \<Rightarrow> u64 \<Rightarrow> hash list \<Rightarrow> hash list res \<times> u64" where
  "collectRoots rootOf maxSize 0 i totalStateRootSize stateRoots = (Ok stateRoots, totalStateRootSize)"
| "collectRoots rootOf maxSize (Suc left) i totalStateRootSize stateRoots =
     (if maxSize < totalStateRootSize + stateRootSize then (Ok stateRoots, totalStateRootSize)
      else
        (case rootOf i of
           Err err \<Rightarrow> (Err err, totalStateRootSize)
         | Panic p \<Rightarrow> (Panic p, totalStateRootSize)
         | Ok root \<Rightarrow>
             collectRoots rootOf maxSize left (i + 1) (totalStateRootSize + stateRootSize) (stateRoots @ [root])))"

definition Proposer_CraftBatchTx ::
    "ProposerConfig \<Rightarrow> (int \<Rightarrow> hash res) \<Rightarrow> TransactOpts res \<Rightarrow>
     (TransactOpts \<Rightarrow> hash list \<Rightarrow> int \<Rightarrow> 'tx res) \<Rightarrow> int \<Rightarrow> int \<Rightarrow> int \<Rightarrow> 'tx res \<times> u64" where
  "Proposer_CraftBatchTx cfg rootOf newTransactor appendStateBatch start end nonce =
     (case collectRoots rootOf (prop_MaxTxSize cfg) (nat (end - start)) start 0 [] of
        (Err err, totalStateRootSize) \<Rightarrow> (Err err, totalStateRootSize)
      | (Panic p, totalStateRootSize) \<Rightarrow> (Panic p, totalStateRootSize)
      | (Ok stateRoots, totalStateRootSize) \<Rightarrow>
          (res_bind newTransactor (\<lambda>opts.
             let offsetStartsAtIndex = start - uint (prop_BlockOffset cfg) in
             transactWithFallback (opts\<lparr>opts_Nonce := Some nonce, opts_NoSend := True\<rparr>)
               (\<lambda>opts. appendStateBatch opts stateRoots offsetStartsAtIndex)), totalStateRootSize))"

definition Proposer_SubmitBatchTx ::
    "TransactOpts res \<Rightarrow> (TransactOpts \<Rightarrow> bytes \<Rightarrow> 'tx res) \<Rightarrow> ('tx \<Rightarrow> u64) \<Rightarrow> ('tx \<Rightarrow> bytes) \<Rightarrow> 'tx \<Rightarrow> 'tx res" where
  "Proposer_SubmitBatchTx newTransactor rawTransact txNonce txData tx =
     res_bind newTransactor (\<lambda>opts.
       transactWithFallback (opts\<lparr>opts_Nonce := Some (uint (txNonce tx))\<rparr>)
         (\<lambda>opts. rawTransact opts (txData tx)))"

section \<open>Collecting\<close>

lemma collectRoots_size:
  "collectRoots rootOf maxSize left i tot roots = (x, tot') \<Longrightarrow> tot \<le> maxSize \<Longrightarrow> tot' \<le> maxSize"
  by (induction rootOf maxSize left i tot roots rule: collectRoots.induct)
    (auto simp: not_less split: if_splits res.splits)

lemma collectRoots_Ok:
  assumes "\<forall>j. i \<le> j \<and> j < i + int left \<longrightarrow> rootOf j = Ok (root j)"
    and "unat tot + 32 * left + 32 < 2 ^ 64" and "tot \<le> maxSize"
  shows "\<exists>k tot'. collectRoots rootOf maxSize left i tot roots =
      (Ok (roots @ map (\<lambda>j. root (i + int j)) [0..<k]), tot') \<and>
    k = min left ((unat maxSize - unat tot) div 32) \<and> unat tot' = unat tot + 32 * k"
  using assms
proof (induction left arbitrary: i tot roots)
  case 0
  then show ?case by simp
next
  case (Suc left)
  have sum: "unat (tot + stateRootSize) = unat tot + 32"
    using Suc.prems(2) unat_add_lem [THEN iffD1, of tot stateRootSize] by (simp add: stateRootSize_def)
  show ?case
  proof (cases "maxSize < tot + stateRootSize")
    case True
    then have "unat maxSize - unat tot < 32"
      using sum Suc.prems(3) by (simp add: word_less_nat_alt word_le_nat_alt)
    with True show ?thesis by simp
  next
    case False
    have a: "\<forall>j. i + 1 \<le> j \<and> j < (i + 1) + int left \<longrightarrow> rootOf j = Ok (root j)" "rootOf i = Ok (root i)"
      using Suc.prems(1) by auto
    have b: "unat (tot + stateRootSize) + 32 * left + 32 < 2 ^ 64" "tot + stateRootSize \<le> maxSize"
      using sum Suc.prems(2) False by simp_all
    from Suc.IH [OF a(1) b] obtain k tot' where
      k: "collectRoots rootOf maxSize left (i + 1) (tot + stateRootSize) (roots @ [root i]) =
        (Ok ((roots @ [root i]) @ map (\<lambda>j. root (i + 1 + int j)) [0..<k]), tot')"
      "k = min left ((unat maxSize - unat (tot + stateRootSize)) div 32)"
      "unat tot' = unat (tot + stateRootSize) + 32 * k" by blast
    have "map (\<lambda>j. root (i + int j)) [0..<Suc k] = root i # map (\<lambda>j. root (i + 1 + int j)) [0..<k]"
      by (simp add: map_upt_Suc add.assoc del: upt_Suc)
    moreover have "(unat maxSize - unat tot) div 32 = Suc ((unat maxSize - unat (tot + stateRootSize)) div 32)"
      using b(2) sum by (simp add: word_le_nat_alt div_if [of "unat maxSize - unat tot"])
    ultimately show ?thesis
      using False a(2) k sum by (intro exI [of _ "Suc k"] exI [of _ tot']) (simp del: upt_Suc)
  qed
qed

section \<open>Properties\<close>

text \<open>
  C28: A proposer batch carries the state roots of consecutive blocks from the start of the range
  on, as many as there are in the range and as fit into the configured size at 32 bytes each,
  together with the chain index of the first one; its size is 32 times their number.
\<close>

theorem Proposer_CraftBatchTx_roots:
  assumes "Proposer_CraftBatchTx cfg rootOf newTransactor appendStateBatch start end nonce = (Ok tx, tot)"
    and "\<forall>j. start \<le> j \<and> j < end \<longrightarrow> rootOf j = Ok (root j)"
    and "end - start < 2 ^ 58"
  shows "\<exists>opts. let k = min (nat (end - start)) (unat (prop_MaxTxSize cfg) div 32) in
    appendStateBatch opts (map (\<lambda>j. root (start + int j)) [0..<k]) (start - uint (prop_BlockOffset cfg)) = Ok tx \<and>
    opts_Nonce opts = Some nonce \<and> opts_NoSend opts \<and> unat tot = 32 * k"
proof -
  have "\<forall>j. start \<le> j \<and> j < start + int (nat (end - start)) \<longrightarrow> rootOf j = Ok (root j)"
    using assms(2) by (cases "start \<le> end") auto
  moreover have "32 * nat (end - start) + 32 < 2 ^ 64" using assms(3) by (simp add: nat_less_iff)
  ultimately obtain k tot' where
    c: "collectRoots rootOf (prop_MaxTxSize cfg) (nat (end - start)) start 0 [] =
      (Ok (map (\<lambda>j. root (start + int j)) [0..<k]), tot')"
    and k: "k = min (nat (end - start)) (unat (prop_MaxTxSize cfg) div 32)" "unat tot' = 32 * k"
    using collectRoots_Ok [of start "nat (end - start)" rootOf root 0 "prop_MaxTxSize cfg" "[]"] by auto
  obtain o0 where "transactWithFallback (o0\<lparr>opts_Nonce := Some nonce, opts_NoSend := True\<rparr>)
      (\<lambda>opts. appendStateBatch opts (map (\<lambda>j. root (start + int j)) [0..<k])
        (start - uint (prop_BlockOffset cfg))) = Ok tx" "tot = tot'"
    using assms(1) c by (cases newTransactor) (auto simp: Proposer_CraftBatchTx_def Let_def)
  with transactWithFallback_Ok [OF this(1)] k show ?thesis by (fastforce simp: Let_def)
qed

theorem Proposer_CraftBatchTx_roots_witness:
  "Proposer_CraftBatchTx \<lparr>prop_BlockOffset = 1, prop_MaxTxSize = 100\<rparr> (\<lambda>i. Ok (of_int i))
     (Ok \<lparr>opts_Nonce = None, opts_NoSend = False, opts_GasTipCap = None\<rparr>)
     (\<lambda>opts roots i. Ok (roots, i)) 5 10 3 = (Ok ([5, 6, 7], 4), 96)"
proof -
  let ?c = "Proposer_CraftBatchTx \<lparr>prop_BlockOffset = 1, prop_MaxTxSize = 100\<rparr> (\<lambda>i. Ok (of_int i))
     (Ok \<lparr>opts_Nonce = None, opts_NoSend = False, opts_GasTipCap = None\<rparr>)
     (\<lambda>opts roots i. Ok (roots, i)) 5 10 3"
  have n: "5 = Suc (Suc (Suc (Suc (Suc 0))))" by simp
  have "collectRoots (\<lambda>i. Ok (word_of_int i)) 100 (Suc (Suc (Suc (Suc (Suc 0))))) 5 0 [] = (Ok [5, 6, 7], 96)"
    by (simp add: stateRootSize_def)
  then have "collectRoots (\<lambda>i. Ok (word_of_int i)) 100 5 5 0 [] = (Ok [5, 6, 7], 96)"
    unfolding n [symmetric] .
  then have "?c = (Ok ([5, 6, 7], 4), 96)"
    by (simp add: Proposer_CraftBatchTx_def transactWithFallback_def)
  then obtain tx tot where tx: "?c = (Ok tx, tot)" by blast
  have "[0..<3] = [0, 1, 2 :: nat]" by (simp add: upt_rec)
  with Proposer_CraftBatchTx_roots [OF tx, of of_int] have "tx = ([5, 6, 7], 4)" "unat tot = 96"
    by (auto simp: Let_def)
  then show ?thesis using tx by (simp add: word_unat_eq_iff)
qed

end
