(* ===== verification/BssService.thy ===== *)
theory BssService
  imports SequencerDriver ProposerDriver
begin

text \<open>
  The service that drives a batch submitter: \<open>go/bss-core/service.go\<close> and
  \<open>go/bss-core/boba/boba.go\<close>. The interface \<open>Driver\<close> of the source is the locale \<open>batch_driver\<close>;
  the sequencer and the proposer driver are its two interpretations. Times are nanoseconds; the
  answers of the L1 client and of the clock during one poll are a parameter of the round.
\<close>

section \<open>Submission conditions\<close>

record ServiceConfig =
  MinTxSize :: u64
  MaxBatchSubmissionTime :: int
  MaxL1GasPrice :: u64

definition errGasPriceTooHigh :: go_error where
  "errGasPriceTooHigh = GoErr ''Gas price is higher than gas price''"

definition errBatchSizeTooSmall :: go_error where
  "errBatchSizeTooSmall = GoErr ''Batch size too small or max submission timeout not reached''"

definition GWei :: int where
  "GWei = 1000000000"

definition sizeCondition :: "ServiceConfig \<Rightarrow> int \<Rightarrow> u64 \<Rightarrow> unit res" where
  "sizeCondition cfg timeSinceLastSubmission batchSize =
     (if batchSize < MinTxSize cfg \<and> timeSinceLastSubmission < MaxBatchSubmissionTime cfg
      then Err errBatchSizeTooSmall else Ok ())"

definition VerifyCondition :: "ServiceConfig \<Rightarrow> int res \<Rightarrow> int \<Rightarrow> u64 \<Rightarrow> unit res" where
  "VerifyCondition cfg suggestGasPrice timeSinceLastSubmission batchSize =
     (case suggestGasPrice of
        Ok l1GasPrice \<Rightarrow>
          let maxL1GasPrice = uint (MaxL1GasPrice cfg) * GWei in
          if 0 < maxL1GasPrice \<and> maxL1GasPrice < l1GasPrice then Err errGasPriceTooHigh
          else sizeCondition cfg timeSinceLastSubmission batchSize
      | Err _ \<Rightarrow> sizeCondition cfg timeSinceLastSubmission batchSize
      | Panic p \<Rightarrow> Panic p)"

section \<open>The event loop\<close>

text \<open>The part of the state that the loop changes: the time of the last submission, two counters.\<close>

record ServiceState =
  lastBatchSubmissionTime :: int
  batchesSubmitted :: nat
  failedSubmissions :: nat

record ('tx, 'r) PollAnswers =
  balanceAt :: "int res"
  nonceAt :: "u64 res"
  suggestedGasPrice :: "int res"
  verifyTime :: int
  encodeTx :: "'tx \<Rightarrow> unit res"
  sendBatch :: "'tx \<Rightarrow> 'r res"
  doneTime :: int

datatype 'r PollOutcome =
    Retry go_error
  | NoUpdates
  | Held go_error
  | SendFailed go_error
  | Submitted 'r
  | Crashed string

text \<open>
  One round of the loop. \<open>blockRange\<close> and \<open>craft\<close> are the driver's answers; a driver that does not come
  back from crafting blocks the loop (\<open>None\<close>).
\<close>

definition pollRound ::
    "ServiceConfig \<Rightarrow> (int \<times> int) res \<Rightarrow> (int \<Rightarrow> int \<Rightarrow> int \<Rightarrow> ('tx res \<times> u64) option) \<Rightarrow>
     ('tx, 'r) PollAnswers \<Rightarrow> ServiceState \<Rightarrow> ('r PollOutcome \<times> ServiceState) option" where
  "pollRound cfg blockRange craft a s =
     (case balanceAt a of
        Err err \<Rightarrow> Some (Retry err, s)
      | Panic p \<Rightarrow> Some (Crashed p, s)
      | Ok _ \<Rightarrow>
     (case blockRange of
        Err err \<Rightarrow> Some (Retry err, s)
      | Panic p \<Rightarrow> Some (Crashed p, s)
      | Ok (start, end) \<Rightarrow>
     if start = end then Some (NoUpdates, s)
     else
     (case nonceAt a of
        Err err \<Rightarrow> Some (Retry err, s)
      | Panic p \<Rightarrow> Some (Crashed p, s)
      | Ok nonce64 \<Rightarrow>
     (case craft start end (uint nonce64) of
        None \<Rightarrow> None
      | Some (Err err, _) \<Rightarrow> Some (Retry err, s)
      | Some (Panic p, _) \<Rightarrow> Some (Crashed p, s)
      | Some (Ok tx, batchSize) \<Rightarrow>
     (case VerifyCondition cfg (suggestedGasPrice a) (verifyTime a - lastBatchSubmissionTime s) batchSize of
        Err err \<Rightarrow> Some (Held err, s)
      | Panic p \<Rightarrow> Some (Crashed p, s)
      | Ok _ \<Rightarrow>
     (case encodeTx a tx of
        Err err \<Rightarrow> Some (Retry err, s)
      | Panic p \<Rightarrow> Some (Crashed p, s)
      | Ok _ \<Rightarrow>
     (case sendBatch a tx of
        Err err \<Rightarrow> Some (SendFailed err, s\<lparr>failedSubmissions := failedSubmissions s + 1\<rparr>)
      | Panic p \<Rightarrow> Some (Crashed p, s)
      | Ok receipt \<Rightarrow>
          Some (Submitted receipt, s\<lparr>lastBatchSubmissionTime := doneTime a,
            batchesSubmitted := batchesSubmitted s + 1\<rparr>))))))))"

text \<open>
  Before the loop, pending transactions are cleared, with at most three attempts; after the third
  failure the process exits (\<open>log.Crit\<close>). \<open>attempt i\<close> is the driver's answer to the \<open>i\<close>-th attempt.
\<close>

definition maxClearRetries :: nat where
  "maxClearRetries = 3"

fun clearLoop :: "(nat \<Rightarrow> unit res) \<Rightarrow> nat \<Rightarrow> nat \<Rightarrow> unit res" where
  "clearLoop attempt i 0 = Ok ()"
| "clearLoop attempt i (Suc left) =
     (case attempt i of
        Ok _ \<Rightarrow> Ok ()
      | Err err \<Rightarrow>
          if i < maxClearRetries - 1 then clearLoop attempt (Suc i) left
          else Panic ''Unable to confirm a clearing transaction''
      | Panic p \<Rightarrow> Panic p)"

definition clearPending :: "bool \<Rightarrow> (nat \<Rightarrow> unit res) \<Rightarrow> unit res" where
  "clearPending enabled attempt = (if enabled then clearLoop attempt 0 maxClearRetries else Ok ())"

text \<open>Rounds until the service is stopped, a round crashes, or a round blocks.\<close>

fun runPolls ::
    "ServiceConfig \<Rightarrow> ('q \<Rightarrow> (int \<times> int) res) \<Rightarrow> ('q \<Rightarrow> int \<Rightarrow> int \<Rightarrow> int \<Rightarrow> ('tx res \<times> u64) option) \<Rightarrow>
     ('q \<times> ('tx, 'r) PollAnswers) list \<Rightarrow> ServiceState \<Rightarrow> 'r PollOutcome list \<times> ServiceState" where
  "runPolls cfg blockRange craft [] s = ([], s)"
| "runPolls cfg blockRange craft ((q, a) # rounds) s =
     (case pollRound cfg (blockRange q) (craft q) a s of
        None \<Rightarrow> ([], s)
      | Some (Crashed p, s') \<Rightarrow> ([Crashed p], s')
      | Some (x, s') \<Rightarrow>
          (let (xs, s'') = runPolls cfg blockRange craft rounds s' in (x # xs, s'')))"

section \<open>Rounds\<close>

definition attempted :: "'r PollOutcome \<Rightarrow> bool" where
  "attempted x = (case x of Submitted _ \<Rightarrow> True | SendFailed _ \<Rightarrow> True | _ \<Rightarrow> False)"

lemma VerifyCondition_Ok:
  "VerifyCondition cfg price t sz = Ok u \<longleftrightarrow>
     (\<forall>p. price \<noteq> Panic p) \<and>
     (\<forall>p. price = Ok p \<and> MaxL1GasPrice cfg \<noteq> 0 \<longrightarrow> p \<le> uint (MaxL1GasPrice cfg) * GWei) \<and>
     (MinTxSize cfg \<le> sz \<or> MaxBatchSubmissionTime cfg \<le> t)"
proof -
  have "0 < uint (MaxL1GasPrice cfg) * GWei \<longleftrightarrow> MaxL1GasPrice cfg \<noteq> 0"
    by (auto simp: GWei_def zero_less_mult_iff uint_0_iff less_le)
  then show ?thesis
    by (cases price) (auto simp: VerifyCondition_def sizeCondition_def Let_def not_less not_le)
qed

lemma pollRound_attempted:
  assumes "pollRound cfg blockRange craft a s = Some (x, s')" and "attempted x"
  obtains start stop nonce tx sz where "blockRange = Ok (start, stop)" "start \<noteq> stop" "nonceAt a = Ok nonce"
    "craft start stop (uint nonce) = Some (Ok tx, sz)"
    "VerifyCondition cfg (suggestedGasPrice a) (verifyTime a - lastBatchSubmissionTime s) sz = Ok ()"
    "x = (case sendBatch a tx of Ok r \<Rightarrow> Submitted r | Err e \<Rightarrow> SendFailed e | Panic p \<Rightarrow> Crashed p)"
  using assms by (auto simp: pollRound_def attempted_def split: res.splits option.splits if_splits prod.splits)

lemma pollRound_Submitted:
  "pollRound cfg blockRange craft a s = Some (x, s') \<Longrightarrow>
     lastBatchSubmissionTime s' = (case x of Submitted _ \<Rightarrow> doneTime a | _ \<Rightarrow> lastBatchSubmissionTime s)"
  by (auto simp: pollRound_def split: res.splits option.splits if_splits prod.splits)

text \<open>The time of the last submission in a sequence of rounds with their outcomes.\<close>

fun lastSubmission :: "int \<Rightarrow> (('q \<times> ('tx, 'r) PollAnswers) \<times> 'r PollOutcome) list \<Rightarrow> int" where
  "lastSubmission t [] = t"
| "lastSubmission t (((q, a), x) # xs) =
     lastSubmission (case x of Submitted _ \<Rightarrow> doneTime a | _ \<Rightarrow> t) xs"

lemma runPolls_nth:
  assumes "runPolls cfg blockRange craft rounds s = (xs, s')" and "i < length xs" and "rounds ! i = (q, a)"
  shows "\<exists>s1 s2. pollRound cfg (blockRange q) (craft q) a s1 = Some (xs ! i, s2) \<and>
    lastBatchSubmissionTime s1 = lastSubmission (lastBatchSubmissionTime s) (zip (take i rounds) (take i xs))"
  using assms
proof (induction rounds arbitrary: i s xs s')
  case (Cons r rounds)
  obtain q' a' where r: "r = (q', a')" by (cases r)
  obtain y s1 where y: "pollRound cfg (blockRange q') (craft q') a' s = Some (y, s1)"
    using Cons.prems(1,2) r by (auto split: option.splits)
  obtain zs s2 where z: "runPolls cfg blockRange craft rounds s1 = (zs, s2)" by fastforce
  have xs: "xs ! 0 = y" "0 < i \<Longrightarrow> xs = y # zs" using Cons.prems(1,2) r y z by (auto split: PollOutcome.splits)
  show ?case
  proof (cases i)
    case 0
    then show ?thesis using Cons.prems(3) r y xs(1) by auto
  next
    case (Suc j)
    then show ?thesis
      using Cons.IH [OF z, of j] Cons.prems(2,3) r xs(2) pollRound_Submitted [OF y] by (auto split: PollOutcome.splits)
  qed
qed simp

section \<open>The driver interface\<close>

locale batch_driver =
  fixes getRange :: "'q \<Rightarrow> (int \<times> int) res"
    and craft :: "'q \<Rightarrow> int \<Rightarrow> int \<Rightarrow> int \<Rightarrow> ('tx res \<times> u64) option"
    and maxSize :: u64
  assumes range_ordered: "getRange q = Ok (start, stop) \<Longrightarrow> start \<le> stop"
    and craft_bounded: "craft q start stop nonce = Some (Ok tx, sz) \<Longrightarrow> sz \<le> maxSize"
begin

lemma round_safe:
  assumes "pollRound cfg (getRange q) (craft q) a s = Some (x, s')" and "attempted x"
  shows "\<exists>start stop nonce tx sz. getRange q = Ok (start, stop) \<and> start < stop \<and> nonceAt a = Ok nonce \<and>
    craft q start stop (uint nonce) = Some (Ok tx, sz) \<and> sz \<le> maxSize \<and>
    x = (case sendBatch a tx of Ok r \<Rightarrow> Submitted r | Err e \<Rightarrow> SendFailed e | Panic p \<Rightarrow> Crashed p) \<and>
    (MinTxSize cfg \<le> sz \<or> MaxBatchSubmissionTime cfg \<le> verifyTime a - lastBatchSubmissionTime s) \<and>
    (\<forall>p. suggestedGasPrice a = Ok p \<and> MaxL1GasPrice cfg \<noteq> 0 \<longrightarrow> p \<le> uint (MaxL1GasPrice cfg) * GWei)"
proof -
  from assms obtain start stop nonce tx sz where r: "getRange q = Ok (start, stop)" "start \<noteq> stop"
    "craft q start stop (uint nonce) = Some (Ok tx, sz)" "nonceAt a = Ok nonce"
    "VerifyCondition cfg (suggestedGasPrice a) (verifyTime a - lastBatchSubmissionTime s) sz = Ok ()"
    "x = (case sendBatch a tx of Ok r \<Rightarrow> Submitted r | Err e \<Rightarrow> SendFailed e | Panic p \<Rightarrow> Crashed p)"
    by (rule pollRound_attempted) blast
  from r(1,2) range_ordered [OF r(1)] have "start < stop" by simp
  with r craft_bounded [OF r(3)] show ?thesis unfolding VerifyCondition_Ok by blast
qed

lemma small_batches_rare:
  assumes "runPolls cfg getRange craft rounds s = (xs, s')" and "i < length xs" and "rounds ! i = (q, a)" and "attempted (xs ! i)"
  shows "\<exists>start stop nonce tx sz. getRange q = Ok (start, stop) \<and> nonceAt a = Ok nonce \<and>
    craft q start stop (uint nonce) = Some (Ok tx, sz) \<and>
    (sz < MinTxSize cfg \<longrightarrow> MaxBatchSubmissionTime cfg \<le>
       verifyTime a - lastSubmission (lastBatchSubmissionTime s) (zip (take i rounds) (take i xs)))"
proof -
  from runPolls_nth [OF assms(1-3)] obtain s1 s2 where
    r: "pollRound cfg (getRange q) (craft q) a s1 = Some (xs ! i, s2)"
    "lastBatchSubmissionTime s1 = lastSubmission (lastBatchSubmissionTime s) (zip (take i rounds) (take i xs))" by blast
  from round_safe [OF r(1) assms(4)] show ?thesis unfolding r(2) by (metis not_le)
qed

end

text \<open>Both drivers keep the contract.\<close>

lemma collectElements_size:
  "collectElements blockByNumber maxSize left i tot els = (x, tot') \<Longrightarrow> tot \<le> maxSize \<Longrightarrow> tot' \<le> maxSize"
  by (induction blockByNumber maxSize left i tot els rule: collectElements.induct)
    (auto simp: not_less Let_def split: if_splits res.splits option.splits)

lemma CraftBatchTx_size:
  assumes "CraftBatchTx cfg blockByNumber compress methodID newTransactor rawTransact start stop nonce = Some (x, sz)"
  shows "sz \<le> MaxTxSize cfg"
proof -
  obtain c tot where c: "collectElements blockByNumber (MaxTxSize cfg) (nat (stop - start)) start 0 [] = (c, tot)"
    by (cases "collectElements blockByNumber (MaxTxSize cfg) (nat (stop - start)) start 0 []")
  then have "sz = tot" using assms by (cases c) (auto simp: CraftBatchTx_def)
  then show ?thesis using collectElements_size [OF c] by simp
qed

lemma Proposer_CraftBatchTx_size:
  assumes "Proposer_CraftBatchTx cfg rootOf newTransactor appendStateBatch start stop nonce = (x, sz)"
  shows "sz \<le> prop_MaxTxSize cfg"
proof -
  obtain c tot where c: "collectRoots rootOf (prop_MaxTxSize cfg) (nat (stop - start)) start 0 [] = (c, tot)"
    by (cases "collectRoots rootOf (prop_MaxTxSize cfg) (nat (stop - start)) start 0 []")
  then have "sz = tot" using assms by (cases c) (auto simp: Proposer_CraftBatchTx_def)
  then show ?thesis using collectRoots_size [OF c] by simp
qed

text \<open>The answers of the outside world to one poll of the sequencer driver.\<close>

record 'tx SequencerQuery =
  ctcTotal :: "int res"
  latestNumber :: "int res"
  l2Block :: "int \<Rightarrow> L2Block res"
  seqTransactor :: "TransactOpts res"
  ctcTransact :: "TransactOpts \<Rightarrow> bytes \<Rightarrow> 'tx res"

definition sequencerRange :: "SequencerConfig \<Rightarrow> 'tx SequencerQuery \<Rightarrow> (int \<times> int) res" where
  "sequencerRange cfg q = GetBatchBlockRange cfg (ctcTotal q) (latestNumber q)"

definition sequencerCraft ::
    "SequencerConfig \<Rightarrow> (bytes \<Rightarrow> bytes) \<Rightarrow> bytes \<Rightarrow> 'tx SequencerQuery \<Rightarrow> int \<Rightarrow> int \<Rightarrow> int \<Rightarrow>
     ('tx res \<times> u64) option" where
  "sequencerCraft cfg compress methodID q =
     CraftBatchTx cfg (l2Block q) compress methodID (seqTransactor q) (ctcTransact q)"

interpretation seq_driver: batch_driver "sequencerRange cfg" "sequencerCraft cfg compress methodID" "MaxTxSize cfg"
  for cfg compress methodID
  by unfold_locales
    (auto simp: sequencerRange_def sequencerCraft_def GetBatchBlockRange_def res_bind_eq_Ok Let_def
      split: if_splits dest: CraftBatchTx_size)

record 'tx ProposerQuery =
  sccTotal :: "int res"
  ctcElements :: "int res"
  l2Root :: "int \<Rightarrow> hash res"
  propTransactor :: "TransactOpts res"
  sccAppend :: "TransactOpts \<Rightarrow> hash list \<Rightarrow> int \<Rightarrow> 'tx res"

definition proposerRange :: "ProposerConfig \<Rightarrow> 'tx ProposerQuery \<Rightarrow> (int \<times> int) res" where
  "proposerRange cfg q = Proposer_GetBatchBlockRange cfg (sccTotal q) (ctcElements q)"

definition proposerCraft ::
    "ProposerConfig \<Rightarrow> 'tx ProposerQuery \<Rightarrow> int \<Rightarrow> int \<Rightarrow> int \<Rightarrow> ('tx res \<times> u64) option" where
  "proposerCraft cfg q start stop nonce =
     Some (Proposer_CraftBatchTx cfg (l2Root q) (propTransactor q) (sccAppend q) start stop nonce)"

interpretation prop_driver: batch_driver "proposerRange cfg" "proposerCraft cfg" "prop_MaxTxSize cfg"
  for cfg
  by unfold_locales
    (auto simp: proposerRange_def proposerCraft_def Proposer_GetBatchBlockRange_def res_bind_eq_Ok Let_def
      split: if_splits dest: Proposer_CraftBatchTx_size)

section \<open>Properties\<close>

text \<open>
  C9: In every round of the sequencer's service that tries to publish a batch, there are blocks
  to post, the transactions of the batch are within the configured size, the batch is large enough
  or the last submission is long enough ago, and the L1 gas price is within its limit if it could be
  queried: when the query fails, the batch is published without a check of the price. The batch is the one
  crafted for the range and the nonce of the round, and the outcome is that of sending it.
\<close>

theorem sequencer_round_safe:
  assumes "pollRound cfg (sequencerRange scfg q) (sequencerCraft scfg compress methodID q) a s = Some (x, s')"
    and "attempted x"
  shows "\<exists>start stop nonce tx sz. sequencerRange scfg q = Ok (start, stop) \<and> start < stop \<and> nonceAt a = Ok nonce \<and>
    sequencerCraft scfg compress methodID q start stop (uint nonce) = Some (Ok tx, sz) \<and>
    sz \<le> MaxTxSize scfg \<and>
    x = (case sendBatch a tx of Ok r \<Rightarrow> Submitted r | Err e \<Rightarrow> SendFailed e | Panic p \<Rightarrow> Crashed p) \<and>
    (MinTxSize cfg \<le> sz \<or> MaxBatchSubmissionTime cfg \<le> verifyTime a - lastBatchSubmissionTime s) \<and>
    (\<forall>p. suggestedGasPrice a = Ok p \<and> MaxL1GasPrice cfg \<noteq> 0 \<longrightarrow> p \<le> uint (MaxL1GasPrice cfg) * GWei)"
  using assms by (rule seq_driver.round_safe)

definition witnessConfig :: ServiceConfig where
  "witnessConfig = \<lparr>MinTxSize = 1000, MaxBatchSubmissionTime = 50, MaxL1GasPrice = 3\<rparr>"

definition witnessState :: ServiceState where
  "witnessState = \<lparr>lastBatchSubmissionTime = 10, batchesSubmitted = 0, failedSubmissions = 0\<rparr>"

definition witnessAnswers :: "int \<Rightarrow> ('tx, nat) PollAnswers" where
  "witnessAnswers t = \<lparr>balanceAt = Ok 1, nonceAt = Ok 4, suggestedGasPrice = Ok 2000000000,
     verifyTime = t, encodeTx = (\<lambda>tx. Ok ()), sendBatch = (\<lambda>tx. Ok 7), doneTime = t + 5\<rparr>"

definition witnessSequencer :: "bytes SequencerQuery" where
  "witnessSequencer = \<lparr>ctcTotal = Ok 0, latestNumber = Ok 1, l2Block = (\<lambda>i. Ok witnessBlock),
     seqTransactor = Ok witnessOpts, ctcTransact = (\<lambda>opts b. Ok b)\<rparr>"

theorem sequencer_round_safe_witness:
  "\<exists>s'. pollRound witnessConfig (sequencerRange witnessCfg witnessSequencer)
      (sequencerCraft witnessCfg id [1, 2, 3, 4] witnessSequencer) (witnessAnswers 60) witnessState =
      Some (Submitted 7, s') \<and>
    (\<exists>start stop. sequencerRange witnessCfg witnessSequencer = Ok (start, stop) \<and> start < stop)"
proof -
  have r: "sequencerRange witnessCfg witnessSequencer = Ok (1, 2)"
    by (simp add: sequencerRange_def GetBatchBlockRange_def witnessSequencer_def witnessCfg_def)
  obtain args sz where "sequencerCraft witnessCfg id [1, 2, 3, 4] witnessSequencer 1 2 4 =
      Some (Ok ([1, 2, 3, 4] @ args), sz)"
    using CraftBatchTx_witness [of 4] by (auto simp: sequencerCraft_def witnessSequencer_def)
  with r have "\<exists>s'. pollRound witnessConfig (sequencerRange witnessCfg witnessSequencer)
      (sequencerCraft witnessCfg id [1, 2, 3, 4] witnessSequencer) (witnessAnswers 60) witnessState =
      Some (Submitted 7, s')"
    by (simp add: pollRound_def witnessAnswers_def VerifyCondition_def sizeCondition_def witnessConfig_def
        witnessState_def GWei_def)
  then obtain s' where s': "pollRound witnessConfig (sequencerRange witnessCfg witnessSequencer)
      (sequencerCraft witnessCfg id [1, 2, 3, 4] witnessSequencer) (witnessAnswers 60) witnessState =
      Some (Submitted 7, s')" by blast
  from sequencer_round_safe [OF s'] s' show ?thesis by (auto simp: attempted_def)
qed

text \<open>
  C26: In every run of the proposer's service, a round that tries to publish a batch below the minimum
  size comes at least the configured time after the last successful submission before it in the run, or
  after the start if there was none. The batch is the one crafted in that round.
\<close>

theorem proposer_small_batches_rare:
  assumes "runPolls cfg (proposerRange pcfg) (proposerCraft pcfg) rounds s = (xs, s')"
    and "i < length xs" and "rounds ! i = (q, a)" and "attempted (xs ! i)"
  shows "\<exists>start stop nonce tx sz. proposerRange pcfg q = Ok (start, stop) \<and> nonceAt a = Ok nonce \<and>
    proposerCraft pcfg q start stop (uint nonce) = Some (Ok tx, sz) \<and>
    (sz < MinTxSize cfg \<longrightarrow> MaxBatchSubmissionTime cfg \<le>
       verifyTime a - lastSubmission (lastBatchSubmissionTime s) (zip (take i rounds) (take i xs)))"
  using assms by (rule prop_driver.small_batches_rare)

definition witnessProposer :: "(hash list \<times> int) ProposerQuery" where
  "witnessProposer = \<lparr>sccTotal = Ok 4, ctcElements = Ok 6, l2Root = (\<lambda>i. Ok (of_int i)),
     propTransactor = Ok witnessOpts, sccAppend = (\<lambda>opts roots i. Ok (roots, i))\<rparr>"

abbreviation witnessProposerCfg :: ProposerConfig where
  "witnessProposerCfg \<equiv> \<lparr>prop_BlockOffset = 1, prop_MaxTxSize = 2000\<rparr>"

lemma witness_craft: "proposerCraft witnessProposerCfg witnessProposer 5 7 4 = Some (Ok ([5, 6], 4), 64)"
  "proposerRange witnessProposerCfg witnessProposer = Ok (5, 7)"
proof -
  have n: "2 = Suc (Suc 0)" by simp
  have "collectRoots (\<lambda>i. Ok (word_of_int i)) 2000 (Suc (Suc 0)) 5 0 [] = (Ok [5, 6], 64)"
    by (simp add: stateRootSize_def)
  then have "collectRoots (\<lambda>i. Ok (word_of_int i)) 2000 2 5 0 [] = (Ok [5, 6], 64)"
    unfolding n [symmetric] .
  then show "proposerCraft witnessProposerCfg witnessProposer 5 7 4 = Some (Ok ([5, 6], 4), 64)"
    by (simp add: proposerCraft_def Proposer_CraftBatchTx_def transactWithFallback_def witnessProposer_def
        witnessOpts_def)
  show "proposerRange witnessProposerCfg witnessProposer = Ok (5, 7)"
    by (simp add: proposerRange_def Proposer_GetBatchBlockRange_def witnessProposer_def Let_def)
qed

abbreviation witnessRounds :: "((hash list \<times> int) ProposerQuery \<times> (hash list \<times> int, nat) PollAnswers) list" where
  "witnessRounds \<equiv> [(witnessProposer, witnessAnswers 60), (witnessProposer, witnessAnswers 80),
     (witnessProposer, witnessAnswers 115)]"

lemma witness_polls:
  "runPolls witnessConfig (proposerRange witnessProposerCfg) (proposerCraft witnessProposerCfg) witnessRounds witnessState =
   ([Submitted 7, Held errBatchSizeTooSmall, Submitted 7],
    \<lparr>lastBatchSubmissionTime = 120, batchesSubmitted = 2, failedSubmissions = 0\<rparr>)"
  using witness_craft
  by (simp add: pollRound_def witnessAnswers_def VerifyCondition_def sizeCondition_def witnessConfig_def
      witnessState_def GWei_def Let_def)

theorem proposer_small_batches_rare_witness:
  "\<exists>xs s'. runPolls witnessConfig (proposerRange witnessProposerCfg) (proposerCraft witnessProposerCfg) witnessRounds
      witnessState = (xs, s') \<and> xs = [Submitted 7, Held errBatchSizeTooSmall, Submitted 7] \<and>
    proposerCraft witnessProposerCfg witnessProposer 5 7 4 = Some (Ok ([5, 6], 4), 64) \<and> 64 < MinTxSize witnessConfig \<and>
    MaxBatchSubmissionTime witnessConfig \<le> 115 - lastSubmission 10 (zip (take 2 witnessRounds) (take 2 xs))"
proof -
  have r: "witnessRounds ! 2 = (witnessProposer, witnessAnswers 115)" "2 < length [Submitted 7, Held errBatchSizeTooSmall, Submitted 7]"
    "attempted ([Submitted 7, Held errBatchSizeTooSmall, Submitted 7] ! 2)"
    by (simp_all add: attempted_def)
  obtain start stop nonce tx sz where c: "proposerRange witnessProposerCfg witnessProposer = Ok (start, stop)"
    "nonceAt (witnessAnswers 115 :: (hash list \<times> int, nat) PollAnswers) = Ok nonce"
    "proposerCraft witnessProposerCfg witnessProposer start stop (uint nonce) = Some (Ok tx, sz)"
    "sz < MinTxSize witnessConfig \<longrightarrow> MaxBatchSubmissionTime witnessConfig \<le>
       verifyTime (witnessAnswers 115 :: (hash list \<times> int, nat) PollAnswers) - lastSubmission (lastBatchSubmissionTime witnessState)
         (zip (take 2 witnessRounds) (take 2 [Submitted 7, Held errBatchSizeTooSmall, Submitted 7]))"
    using proposer_small_batches_rare [OF witness_polls r(2,1,3)] by blast
  have "start = 5" "stop = 7" "uint nonce = 4" using c(1,2) witness_craft(2) by (simp_all add: witnessAnswers_def)
  then have "sz = 64" using c(3) witness_craft(1) by simp
  moreover have "verifyTime (witnessAnswers 115 :: (hash list \<times> int, nat) PollAnswers) = 115" "lastBatchSubmissionTime witnessState = 10"
    by (simp_all add: witnessAnswers_def witnessState_def)
  moreover have "64 < MinTxSize witnessConfig" by (simp add: witnessConfig_def)
  ultimately show ?thesis using c(4) witness_polls witness_craft(1) by auto
qed

text \<open>
  C27: A batch is not held back forever: once the configured time has passed since the last
  submission, a round in which the queries for balance, range and nonce and the crafting succeed, and
  the L1 gas price is within its limit, not limited or not known, tries to publish the batch, whatever
  its size.
\<close>

theorem overdue_batch_attempted:
  assumes "balanceAt a = Ok bal" and "blockRange = Ok (start, stop)" and "start \<noteq> stop"
    and "nonceAt a = Ok nonce" and "craft start stop (uint nonce) = Some (Ok tx, sz)"
    and "\<And>p. suggestedGasPrice a \<noteq> Panic p"
    and "\<And>price. suggestedGasPrice a = Ok price \<Longrightarrow> price \<le> uint (MaxL1GasPrice cfg) * GWei \<or> MaxL1GasPrice cfg = 0"
    and "MaxBatchSubmissionTime cfg \<le> verifyTime a - lastBatchSubmissionTime s"
    and "encodeTx a tx = Ok ()" and "\<And>p. sendBatch a tx \<noteq> Panic p"
  shows "\<exists>x s'. pollRound cfg blockRange craft a s = Some (x, s') \<and> attempted x"
proof -
  have "VerifyCondition cfg (suggestedGasPrice a) (verifyTime a - lastBatchSubmissionTime s) sz = Ok ()"
    unfolding VerifyCondition_Ok using assms(6-8) by auto
  with assms show ?thesis by (cases "sendBatch a tx") (auto simp: pollRound_def attempted_def)
qed

theorem overdue_batch_attempted_witness:
  "\<exists>x s'. pollRound witnessConfig (Ok (5, 7)) (\<lambda>start stop nonce. Some (Ok (0 :: nat), 1)) (witnessAnswers 60)
     witnessState = Some (x, s') \<and> attempted x"
  by (rule overdue_batch_attempted [where bal = 1 and start = 5 and stop = 7 and nonce = 4 and tx = 0 and
        sz = 1])
    (simp_all add: witnessAnswers_def witnessConfig_def witnessState_def GWei_def)

text \<open>
  The service passes the clearing phase exactly if one of the first three attempts to clear the
  pending transactions succeeds, and stops otherwise.
\<close>

theorem clearPending_iff:
  assumes "\<And>i p. attempt i \<noteq> Panic p"
  shows "clearPending True attempt =
    (if \<exists>i < 3. attempt i = Ok () then Ok () else Panic ''Unable to confirm a clearing transaction'')"
proof -
  have n: "3 = Suc (Suc (Suc 0))" by simp
  have e: "(\<exists>i < 3. attempt i = Ok ()) \<longleftrightarrow>
      attempt 0 = Ok () \<or> attempt (Suc 0) = Ok () \<or> attempt (Suc (Suc 0)) = Ok ()"
    unfolding n by (auto simp: less_Suc_eq)
  show ?thesis
    unfolding e clearPending_def maxClearRetries_def unfolding n using assms
    by (cases "attempt 0"; cases "attempt (Suc 0)"; cases "attempt (Suc (Suc 0))") (auto simp: maxClearRetries_def)
qed

theorem clearPending_iff_witness:
  "clearPending True (\<lambda>i. if i = 2 then Ok () else Err ErrClearPendingRetry) = Ok ()"
  by (subst clearPending_iff) (auto intro: exI [of _ 2])

end
