(* ===== verification/AccessList.thy ===== *)
theory AccessList
  imports Go_Prelude
begin

text \<open>
  The access list of a transaction: \<open>l2geth/core/state/access_list.go\<close>. It maps an address to an
  index into a list of slot sets, or to \<open>- 1\<close> if the address has no slots. A slice index that is out
  of range panics.
\<close>

record accessList =
  addresses :: "addr \<Rightarrow> int option"
  slots :: "hash set list"

definition newAccessList :: accessList where
  "newAccessList = \<lparr>addresses = Map.empty, slots = []\<rparr>"

definition outOfRange :: string where
  "outOfRange = ''index out of range''"

definition slotsAt :: "accessList \<Rightarrow> int \<Rightarrow> hash set res" where
  "slotsAt al i = (if 0 \<le> i \<and> nat i < length (slots al) then Ok (slots al ! nat i) else Panic outOfRange)"

definition ContainsAddress :: "accessList \<Rightarrow> addr \<Rightarrow> bool" where
  "ContainsAddress al a \<longleftrightarrow> addresses al a \<noteq> None"

definition Contains :: "accessList \<Rightarrow> addr \<Rightarrow> hash \<Rightarrow> (bool \<times> bool) res" where
  "Contains al a slot =
     (case addresses al a of
        None \<Rightarrow> Ok (False, False)
      | Some idx \<Rightarrow>
          if idx = - 1 then Ok (True, False)
          else res_map (\<lambda>m. (True, slot \<in> m)) (slotsAt al idx))"

definition AddAddress :: "addr \<Rightarrow> accessList \<Rightarrow> bool \<times> accessList" where
  "AddAddress a al =
     (case addresses al a of
        Some _ \<Rightarrow> (False, al)
      | None \<Rightarrow> (True, al\<lparr>addresses := (addresses al)(a \<mapsto> - 1)\<rparr>))"

definition AddSlot :: "addr \<Rightarrow> hash \<Rightarrow> accessList \<Rightarrow> ((bool \<times> bool) \<times> accessList) res" where
  "AddSlot a slot al =
     (let fresh = al\<lparr>addresses := (addresses al)(a \<mapsto> int (length (slots al))), slots := slots al @ [{slot}]\<rparr>
      in case addresses al a of
           None \<Rightarrow> Ok ((True, True), fresh)
         | Some idx \<Rightarrow>
             if idx = - 1 then Ok ((False, True), fresh)
             else
               res_map (\<lambda>m.
                   if slot \<notin> m then ((False, True), al\<lparr>slots := (slots al)[nat idx := insert slot m]\<rparr>)
                   else ((False, False), al))
                 (slotsAt al idx))"

definition DeleteSlot :: "addr \<Rightarrow> hash \<Rightarrow> accessList \<Rightarrow> accessList res" where
  "DeleteSlot a slot al =
     (case addresses al a of
        None \<Rightarrow> Panic ''reverting slot change, address not present in list''
      | Some idx \<Rightarrow>
          res_map (\<lambda>m.
              let m' = m - {slot} in
              if m' = {} then al\<lparr>slots := take (nat idx) (slots al), addresses := (addresses al)(a \<mapsto> - 1)\<rparr>
              else al\<lparr>slots := (slots al)[nat idx := m']\<rparr>)
            (slotsAt al idx))"

definition DeleteAddress :: "addr \<Rightarrow> accessList \<Rightarrow> accessList" where
  "DeleteAddress a al = al\<lparr>addresses := (addresses al)(a := None)\<rparr>"

section \<open>Abstraction\<close>

text \<open>The slots of every address in the list.\<close>

definition al_slots :: "accessList \<Rightarrow> addr \<Rightarrow> hash set option" where
  "al_slots al a = map_option (\<lambda>i. if i = - 1 then {} else slots al ! nat i) (addresses al a)"

text \<open>Indices are valid, no two addresses share one, and no indexed set is empty.\<close>

definition indexed :: "(addr \<Rightarrow> int option) \<Rightarrow> addr set" where
  "indexed m = {a. m a \<noteq> None \<and> m a \<noteq> Some (- 1)}"

definition al_inv :: "accessList \<Rightarrow> bool" where
  "al_inv al \<longleftrightarrow>
     (\<forall>a i. addresses al a = Some i \<longrightarrow> i = - 1 \<or> 0 \<le> i \<and> nat i < length (slots al)) \<and>
     inj_on (addresses al) (indexed (addresses al)) \<and>
     (\<forall>m \<in> set (slots al). m \<noteq> {})"

lemma indexed_unindexed:
  assumes "a \<notin> indexed m" and "x = None \<or> x = Some (- 1)"
  shows "indexed (m(a := x)) = indexed m" "inj_on m (indexed m) \<Longrightarrow> inj_on (m(a := x)) (indexed m)"
  using assms by (auto simp: indexed_def inj_on_def)

lemma indexed_new:
  assumes "inj_on m (indexed m)" and "a \<notin> indexed m" and "\<And>b. m b \<noteq> Some i"
  shows "inj_on (m(a \<mapsto> i)) (indexed (m(a \<mapsto> i)))"
  using assms by (auto simp: indexed_def inj_on_def)

lemma al_inv_new [simp]: "al_inv newAccessList"
  by (simp add: al_inv_def newAccessList_def indexed_def)

lemma al_range:
  "al_inv al \<Longrightarrow> addresses al a = Some i \<Longrightarrow> i = - 1 \<or> 0 \<le> i \<and> nat i < length (slots al)"
  unfolding al_inv_def by blast

lemma al_invD:
  assumes "al_inv al" and "addresses al a = Some i" and "i \<noteq> - 1"
  shows "0 \<le> i" "nat i < length (slots al)" "slotsAt al i = Ok (slots al ! nat i)"
    "\<And>b j. addresses al b = Some j \<Longrightarrow> b \<noteq> a \<Longrightarrow> j \<noteq> - 1 \<Longrightarrow> nat j \<noteq> nat i"
proof -
  have *: "0 \<le> i" "nat i < length (slots al)" using assms by (auto simp: al_inv_def)
  then show "0 \<le> i" "nat i < length (slots al)" "slotsAt al i = Ok (slots al ! nat i)"
    by (simp_all add: slotsAt_def)
  fix b j
  assume "addresses al b = Some j" "b \<noteq> a" "j \<noteq> - 1"
  moreover from this assms(1) have "0 \<le> j" by (auto simp: al_inv_def)
  ultimately show "nat j \<noteq> nat i"
    using assms * inj_onD [of "addresses al" "indexed (addresses al)" b a]
    by (auto simp: al_inv_def indexed_def eq_nat_nat_iff)
qed

lemma Contains_spec:
  assumes "al_inv al"
  shows "Contains al a slot = Ok (al_slots al a \<noteq> None, \<exists>m. al_slots al a = Some m \<and> slot \<in> m)"
proof (cases "addresses al a")
  case (Some i)
  then show ?thesis
    using al_invD [OF assms Some] by (cases "i = - 1") (simp_all add: Contains_def al_slots_def)
qed (simp add: Contains_def al_slots_def)

lemma AddAddress_spec:
  assumes "al_inv al" and "AddAddress a al = (new, al')"
  shows "al_inv al' \<and> new = (al_slots al a = None) \<and>
    al_slots al' = (if new then (al_slots al)(a \<mapsto> {}) else al_slots al)"
proof (cases "addresses al a")
  case None
  then have n: "new" "al' = al\<lparr>addresses := (addresses al)(a \<mapsto> - 1)\<rparr>"
    using assms(2) by (simp_all add: AddAddress_def)
  have "a \<notin> indexed (addresses al)" using None by (simp add: indexed_def)
  then have "al_inv al'"
    using assms(1) indexed_unindexed [of a "addresses al" "Some (- 1)"] unfolding n(2) al_inv_def by simp
  moreover have "al_slots al' = (al_slots al)(a \<mapsto> {})"
    unfolding n(2) by (rule ext) (simp add: al_slots_def cong: if_cong)
  ultimately show ?thesis using n(1) None by (simp add: al_slots_def)
next
  case (Some i)
  then have "\<not> new" "al' = al" using assms(2) by (simp_all add: AddAddress_def)
  with Some assms(1) show ?thesis by (simp add: al_slots_def)
qed

lemma al_fresh:
  fixes slot
  assumes "al_inv al" and "addresses al a = None \<or> addresses al a = Some (- 1)"
  defines "al' \<equiv> al\<lparr>addresses := (addresses al)(a \<mapsto> int (length (slots al))), slots := slots al @ [{slot}]\<rparr>"
  shows "al_inv al'" "al_slots al' = (al_slots al)(a \<mapsto> {slot})"
proof -
  have n: "i \<noteq> int (length (slots al))" if "addresses al b = Some i" for b i
    using al_range [OF assms(1) that] by auto
  moreover have "a \<notin> indexed (addresses al)" using assms(2) by (auto simp: indexed_def)
  ultimately show "al_inv al'"
    using assms(1) indexed_new [of "addresses al" a "int (length (slots al))"]
    unfolding al'_def al_inv_def by (auto simp: less_Suc_eq split: if_splits)
  show "al_slots al' = (al_slots al)(a \<mapsto> {slot})"
  proof
    fix b
    show "al_slots al' b = ((al_slots al)(a \<mapsto> {slot})) b"
    proof (cases "b = a \<or> addresses al b = None")
      case False
      then obtain i where "addresses al b = Some i" by auto
      with False al_invD(2) [OF assms(1) this] show ?thesis
        by (auto simp: al'_def al_slots_def nth_append)
    qed (auto simp: al'_def al_slots_def nth_append)
  qed
qed

lemma al_update:
  assumes "al_inv al" and "addresses al a = Some i" and "i \<noteq> - 1" and "m \<noteq> {}"
  defines "al' \<equiv> al\<lparr>slots := (slots al)[nat i := m]\<rparr>"
  shows "al_inv al'" "al_slots al' = (al_slots al)(a \<mapsto> m)"
proof -
  show "al_inv al'"
    using assms(1,4) unfolding al'_def al_inv_def
    by (auto dest!: set_update_subset_insert [THEN subsetD])
  show "al_slots al' = (al_slots al)(a \<mapsto> m)"
  proof
    fix b
    show "al_slots al' b = ((al_slots al)(a \<mapsto> m)) b"
      using al_invD(1,2) [OF assms(1-3)] al_invD(4) [OF assms(1-3), of b "the (addresses al b)"] assms(2,3)
      by (cases "addresses al b") (auto simp: al'_def al_slots_def nth_list_update)
  qed
qed

lemma AddSlot_spec:
  assumes "al_inv al"
  shows "\<exists>al'. AddSlot a slot al = Ok ((al_slots al a = None, \<not> (\<exists>m. al_slots al a = Some m \<and> slot \<in> m)), al') \<and>
    al_inv al' \<and>
    al_slots al' = (al_slots al)(a \<mapsto> insert slot (case al_slots al a of None \<Rightarrow> {} | Some m \<Rightarrow> m))"
proof (cases "addresses al a = None \<or> addresses al a = Some (- 1)")
  case True
  with al_fresh [OF assms True, where slot = slot] show ?thesis
    by (auto simp: AddSlot_def al_slots_def Let_def)
next
  case False
  then obtain i where i: "addresses al a = Some i" "i \<noteq> - 1" by auto
  have s: "al_slots al a = Some (slots al ! nat i)" using i by (simp add: al_slots_def)
  show ?thesis
  proof (cases "slot \<in> slots al ! nat i")
    case True
    then have "(al_slots al)(a \<mapsto> insert slot (slots al ! nat i)) = al_slots al"
      using s by (auto simp: fun_eq_iff insert_absorb)
    with True i s assms al_invD(3) [OF assms i] show ?thesis by (simp add: AddSlot_def)
  next
    case False
    with i s al_invD(3) [OF assms i] al_update [OF assms i, of "insert slot (slots al ! nat i)"]
    show ?thesis by (simp add: AddSlot_def)
  qed
qed

text \<open>Undoing in reverse order gives the list back exactly.\<close>

lemma DeleteAddress_AddAddress:
  "AddAddress a al = (True, al') \<Longrightarrow> DeleteAddress a al' = al"
  by (auto simp: AddAddress_def DeleteAddress_def fun_upd_idem split: option.splits)

lemma DeleteSlot_AddSlot:
  assumes "al_inv al" and "AddSlot a slot al = Ok ((fresh, True), al')"
  shows "DeleteSlot a slot al' = Ok (if fresh then al\<lparr>addresses := (addresses al)(a \<mapsto> - 1)\<rparr> else al)"
    and "fresh \<Longrightarrow> DeleteAddress a (al\<lparr>addresses := (addresses al)(a \<mapsto> - 1)\<rparr>) = al"
proof -
  have f: "fresh \<longleftrightarrow> addresses al a = None"
    using assms(2) by (auto simp: AddSlot_def res_map_eq_Ok Let_def split: option.splits if_splits)
  show "fresh \<Longrightarrow> DeleteAddress a (al\<lparr>addresses := (addresses al)(a \<mapsto> - 1)\<rparr>) = al"
    using f by (simp add: DeleteAddress_def fun_upd_idem)
  show "DeleteSlot a slot al' = Ok (if fresh then al\<lparr>addresses := (addresses al)(a \<mapsto> - 1)\<rparr> else al)"
  proof (cases "addresses al a = None \<or> addresses al a = Some (- 1)")
    case True
    then have al': "al' = al\<lparr>addresses := (addresses al)(a \<mapsto> int (length (slots al))), slots := slots al @ [{slot}]\<rparr>"
      using assms(2) by (auto simp: AddSlot_def Let_def)
    show ?thesis
      using True f unfolding al' by (auto simp: DeleteSlot_def slotsAt_def nth_append fun_upd_idem)
  next
    case False
    then obtain i where i: "addresses al a = Some i" "i \<noteq> - 1" by auto
    note v = al_invD(1-3) [OF assms(1) i]
    have al': "slot \<notin> slots al ! nat i" "al' = al\<lparr>slots := (slots al)[nat i := insert slot (slots al ! nat i)]\<rparr>"
      using assms(2) i v by (auto simp: AddSlot_def split: if_splits)
    moreover have "slots al ! nat i \<noteq> {}" using assms(1) v(2) by (auto simp: al_inv_def)
    then have "\<not> slots al ! nat i \<subseteq> {slot}" using al'(1) by blast
    ultimately show ?thesis
      using i v f by (simp add: DeleteSlot_def slotsAt_def Diff_insert_absorb)
  qed
qed

end
