(* ===== verification/StateDB.thy ===== *)
theory StateDB
  imports AccessList
begin

text \<open>
  The world state with its journal: \<open>l2geth/core/state/statedb.go\<close>, \<open>state_object.go\<close> and
  \<open>journal.go\<close>, with the rollup's balances inside contract storage. A trie is the map it
  represents: the account trie maps addresses to accounts, a storage trie maps keys to values, and
  the database is complete, so that no read fails. State objects are reached only through their
  address, hence they are values in a map and not pointers. The debugging storage (\<open>fakeStorage\<close>)
  and the measurements are left out.
\<close>

section \<open>Environment\<close>

text \<open>Configuration and the hash function, which is not part of the repository.\<close>

record RollupEnv =
  UsingOVM :: bool
  OvmTuringCreditAddress :: addr
  OvmBobaGasPricOracle :: addr
  OvmL2BobaToken :: addr
  keccak :: "bytes \<Rightarrow> hash"

definition OvmEthAddress :: addr where
  "OvmEthAddress = 0x4200000000000000000000000000000000000006"

definition emptyRoot :: hash where
  "emptyRoot = 0x56e81f171bcc55a6ff8345e692c0f86e5b48e01b996cadc001622fb5e363b421"

definition emptyCodeHash :: "RollupEnv \<Rightarrow> hash" where
  "emptyCodeHash env = keccak env []"

text \<open>\<open>common.BigToHash\<close> keeps the low 256 bits of the absolute value; \<open>Hash.Big\<close> reads them.\<close>

definition BigToHash :: "int \<Rightarrow> hash" where
  "BigToHash b = of_int \<bar>b\<bar>"

definition Big :: "hash \<Rightarrow> int" where
  "Big h = uint h"

definition mappingKey :: "RollupEnv \<Rightarrow> addr \<Rightarrow> nat \<Rightarrow> hash" where
  "mappingKey env a position = keccak env (be_bytes 32 (unat a) @ be_bytes 32 position)"

definition GetOVMBalanceKey :: "RollupEnv \<Rightarrow> addr \<Rightarrow> hash" where
  "GetOVMBalanceKey env a = mappingKey env a 0"

definition GetTuringPrepayKey :: "RollupEnv \<Rightarrow> addr \<Rightarrow> hash" where
  "GetTuringPrepayKey env a = mappingKey env a 1"

definition GetBobaBalanceKey :: "RollupEnv \<Rightarrow> addr \<Rightarrow> hash" where
  "GetBobaBalanceKey env a = mappingKey env a 0"

definition GetFeeTokenSelectionKey :: "RollupEnv \<Rightarrow> addr \<Rightarrow> hash" where
  "GetFeeTokenSelectionKey env a = mappingKey env a 7"

section \<open>State\<close>

record Account =
  acc_Nonce :: u64
  acc_Balance :: int
  acc_Root :: hash
  acc_CodeHash :: hash

record Database =
  ContractCode :: "hash \<Rightarrow> bytes option"
  StorageTrie :: "hash \<Rightarrow> hash \<Rightarrow> hash"

record stateObject =
  so_data :: Account
  so_trie :: "(hash \<Rightarrow> hash) option"
  so_code :: "bytes option"
  originStorage :: "hash \<Rightarrow> hash option"
  pendingStorage :: "hash \<Rightarrow> hash option"
  dirtyStorage :: "hash \<Rightarrow> hash option"
  dirtyCode :: bool
  suicided :: bool
  deleted :: bool

record Log =
  log_Address :: addr
  log_Topics :: "hash list"
  log_Data :: bytes
  log_TxHash :: hash
  log_BlockHash :: hash
  log_TxIndex :: u64
  log_Index :: u64

datatype journalEntry =
    CreateObjectChange addr
  | ResetObjectChange addr stateObject
  | SuicideChange addr bool int
  | BalanceChange addr int
  | NonceChange addr u64
  | StorageChange addr hash hash
  | CodeChange addr "bytes option" hash
  | RefundChange u64
  | AddLogChange hash
  | AddPreimageChange hash
  | TouchChange addr
  | AccessListAddAccountChange addr
  | AccessListAddSlotChange addr hash

record StateDB =
  db_trie :: "addr \<Rightarrow> Account option"
  stateObjects :: "addr \<Rightarrow> stateObject option"
  stateObjectsPending :: "addr set"
  stateObjectsDirty :: "addr set"
  st_refund :: u64
  thash :: hash
  bhash :: hash
  txIndex :: u64
  st_logs :: "hash \<Rightarrow> Log list option"
  logSize :: u64
  preimages :: "hash \<Rightarrow> bytes option"
  st_access :: accessList
  entries :: "journalEntry list"
  dirties :: "addr \<Rightarrow> int option"
  validRevisions :: "(nat \<times> nat) list"
  nextRevisionId :: nat

definition NewStateDB :: "(addr \<Rightarrow> Account option) \<Rightarrow> StateDB" where
  "NewStateDB tr =
     \<lparr>db_trie = tr, stateObjects = Map.empty, stateObjectsPending = {}, stateObjectsDirty = {},
      st_refund = 0, thash = 0, bhash = 0, txIndex = 0, st_logs = Map.empty, logSize = 0,
      preimages = Map.empty, st_access = newAccessList, entries = [], dirties = Map.empty,
      validRevisions = [], nextRevisionId = 0\<rparr>"

section \<open>Journal\<close>

fun dirtied :: "journalEntry \<Rightarrow> addr option" where
  "dirtied (CreateObjectChange a) = Some a"
| "dirtied (SuicideChange a _ _) = Some a"
| "dirtied (BalanceChange a _) = Some a"
| "dirtied (NonceChange a _) = Some a"
| "dirtied (StorageChange a _ _) = Some a"
| "dirtied (CodeChange a _ _) = Some a"
| "dirtied (TouchChange a) = Some a"
| "dirtied _ = None"

text \<open>Reading a missing key of a Go map gives zero.\<close>

definition dirtyCount :: "StateDB \<Rightarrow> addr \<Rightarrow> int" where
  "dirtyCount s a = (case dirties s a of None \<Rightarrow> 0 | Some n \<Rightarrow> n)"

definition journal_dirty :: "addr \<Rightarrow> StateDB \<Rightarrow> StateDB" where
  "journal_dirty a s = s\<lparr>dirties := (dirties s)(a \<mapsto> dirtyCount s a + 1)\<rparr>"

definition journal_append :: "journalEntry \<Rightarrow> StateDB \<Rightarrow> StateDB" where
  "journal_append e s =
     (let s' = s\<lparr>entries := entries s @ [e]\<rparr> in
      case dirtied e of None \<Rightarrow> s' | Some a \<Rightarrow> journal_dirty a s')"

definition journal_undirty :: "journalEntry \<Rightarrow> StateDB \<Rightarrow> StateDB" where
  "journal_undirty e s =
     (case dirtied e of
        None \<Rightarrow> s
      | Some a \<Rightarrow>
          let n = dirtyCount s a - 1 in s\<lparr>dirties := (dirties s)(a := if n = 0 then None else Some n)\<rparr>)"

section \<open>State objects\<close>

definition newObject :: "RollupEnv \<Rightarrow> Account \<Rightarrow> stateObject" where
  "newObject env data =
     \<lparr>so_data = (if acc_Root data = 0 then data\<lparr>acc_Root := emptyRoot\<rparr> else data), so_trie = None,
      so_code = None, originStorage = Map.empty, pendingStorage = Map.empty,
      dirtyStorage = Map.empty, dirtyCode = False, suicided = False, deleted = False\<rparr>"

text \<open>\<open>Account{}\<close> as \<open>newObject\<close> completes it\<close>

definition emptyAccount :: "RollupEnv \<Rightarrow> Account" where
  "emptyAccount env =
     \<lparr>acc_Nonce = 0, acc_Balance = 0, acc_Root = emptyRoot, acc_CodeHash = emptyCodeHash env\<rparr>"

definition obj_empty :: "RollupEnv \<Rightarrow> stateObject \<Rightarrow> bool" where
  "obj_empty env ob \<longleftrightarrow> acc_Nonce (so_data ob) = 0 \<and> acc_Balance (so_data ob) = 0 \<and>
     acc_CodeHash (so_data ob) = emptyCodeHash env"

definition getTrie :: "Database \<Rightarrow> stateObject \<Rightarrow> hash \<Rightarrow> hash" where
  "getTrie db ob = (case so_trie ob of Some t \<Rightarrow> t | None \<Rightarrow> StorageTrie db (acc_Root (so_data ob)))"

definition obj_GetCommittedState :: "Database \<Rightarrow> hash \<Rightarrow> stateObject \<Rightarrow> hash \<times> stateObject" where
  "obj_GetCommittedState db key ob =
     (case pendingStorage ob key of
        Some v \<Rightarrow> (v, ob)
      | None \<Rightarrow>
          (case originStorage ob key of
             Some v \<Rightarrow> (v, ob)
           | None \<Rightarrow>
               let t = getTrie db ob in
               (t key, ob\<lparr>so_trie := Some t, originStorage := (originStorage ob)(key \<mapsto> t key)\<rparr>)))"

definition obj_GetState :: "Database \<Rightarrow> hash \<Rightarrow> stateObject \<Rightarrow> hash \<times> stateObject" where
  "obj_GetState db key ob =
     (case dirtyStorage ob key of
        Some v \<Rightarrow> (v, ob)
      | None \<Rightarrow> obj_GetCommittedState db key ob)"

definition obj_setState :: "hash \<Rightarrow> hash \<Rightarrow> stateObject \<Rightarrow> stateObject" where
  "obj_setState key val ob = ob\<lparr>dirtyStorage := (dirtyStorage ob)(key \<mapsto> val)\<rparr>"

definition obj_setBalance :: "int \<Rightarrow> stateObject \<Rightarrow> stateObject" where
  "obj_setBalance b ob = ob\<lparr>so_data := (so_data ob)\<lparr>acc_Balance := b\<rparr>\<rparr>"

definition obj_setNonce :: "u64 \<Rightarrow> stateObject \<Rightarrow> stateObject" where
  "obj_setNonce n ob = ob\<lparr>so_data := (so_data ob)\<lparr>acc_Nonce := n\<rparr>\<rparr>"

definition obj_setCode :: "hash \<Rightarrow> bytes option \<Rightarrow> stateObject \<Rightarrow> stateObject" where
  "obj_setCode h code ob =
     ob\<lparr>so_code := code, so_data := (so_data ob)\<lparr>acc_CodeHash := h\<rparr>, dirtyCode := True\<rparr>"

definition obj_Code :: "RollupEnv \<Rightarrow> Database \<Rightarrow> stateObject \<Rightarrow> bytes option \<times> stateObject" where
  "obj_Code env db ob =
     (case so_code ob of
        Some c \<Rightarrow> (Some c, ob)
      | None \<Rightarrow>
          if acc_CodeHash (so_data ob) = emptyCodeHash env then (None, ob)
          else
            let code = ContractCode db (acc_CodeHash (so_data ob)) in (code, ob\<lparr>so_code := code\<rparr>))"

definition obj_finalise :: "stateObject \<Rightarrow> stateObject" where
  "obj_finalise ob =
     ob\<lparr>pendingStorage := pendingStorage ob ++ dirtyStorage ob, dirtyStorage := Map.empty\<rparr>"

section \<open>Access to objects\<close>

definition setStateObject :: "addr \<Rightarrow> stateObject \<Rightarrow> StateDB \<Rightarrow> StateDB" where
  "setStateObject a ob s = s\<lparr>stateObjects := (stateObjects s)(a \<mapsto> ob)\<rparr>"

definition getDeletedStateObject :: "RollupEnv \<Rightarrow> addr \<Rightarrow> StateDB \<Rightarrow> stateObject option \<times> StateDB" where
  "getDeletedStateObject env a s =
     (case stateObjects s a of
        Some ob \<Rightarrow> (Some ob, s)
      | None \<Rightarrow>
          (case db_trie s a of
             None \<Rightarrow> (None, s)
           | Some data \<Rightarrow> let ob = newObject env data in (Some ob, setStateObject a ob s)))"

definition getStateObject :: "RollupEnv \<Rightarrow> addr \<Rightarrow> StateDB \<Rightarrow> stateObject option \<times> StateDB" where
  "getStateObject env a s =
     (case getDeletedStateObject env a s of
        (Some ob, s') \<Rightarrow> (if \<not> deleted ob then Some ob else None, s')
      | (None, s') \<Rightarrow> (None, s'))"

definition createObject :: "RollupEnv \<Rightarrow> addr \<Rightarrow> StateDB \<Rightarrow> (stateObject \<times> stateObject option) \<times> StateDB" where
  "createObject env a s =
     (case getDeletedStateObject env a s of
        (prev, s1) \<Rightarrow>
          let newobj = obj_setNonce 0 (newObject env (emptyAccount env));
              s2 = journal_append (case prev of None \<Rightarrow> CreateObjectChange a | Some p \<Rightarrow> ResetObjectChange a p) s1
          in ((newobj, prev), setStateObject a newobj s2))"

definition GetOrNewStateObject :: "RollupEnv \<Rightarrow> addr \<Rightarrow> StateDB \<Rightarrow> stateObject \<times> StateDB" where
  "GetOrNewStateObject env a s =
     (case getStateObject env a s of
        (Some ob, s') \<Rightarrow> (ob, s')
      | (None, s') \<Rightarrow> (case createObject env a s' of ((ob, _), s'') \<Rightarrow> (ob, s'')))"

definition CreateAccount :: "RollupEnv \<Rightarrow> addr \<Rightarrow> StateDB \<Rightarrow> StateDB" where
  "CreateAccount env a s =
     (case createObject env a s of
        ((newobj, Some prev), s') \<Rightarrow>
          setStateObject a (obj_setBalance (acc_Balance (so_data prev)) newobj) s'
      | ((newobj, None), s') \<Rightarrow> s')"

section \<open>Journalled changes of objects\<close>

definition ripemd :: addr where
  "ripemd = 3"

definition obj_touch :: "addr \<Rightarrow> StateDB \<Rightarrow> StateDB" where
  "obj_touch a s =
     (let s' = journal_append (TouchChange a) s in if a = ripemd then journal_dirty a s' else s')"

definition obj_SetBalance :: "addr \<Rightarrow> stateObject \<Rightarrow> int \<Rightarrow> StateDB \<Rightarrow> StateDB" where
  "obj_SetBalance a ob amount s =
     setStateObject a (obj_setBalance amount ob)
       (journal_append (BalanceChange a (acc_Balance (so_data ob))) s)"

definition obj_AddBalance :: "RollupEnv \<Rightarrow> addr \<Rightarrow> stateObject \<Rightarrow> int \<Rightarrow> StateDB \<Rightarrow> StateDB" where
  "obj_AddBalance env a ob amount s =
     (if amount = 0 then if obj_empty env ob then obj_touch a s else s
      else obj_SetBalance a ob (acc_Balance (so_data ob) + amount) s)"

definition obj_SubBalance :: "addr \<Rightarrow> stateObject \<Rightarrow> int \<Rightarrow> StateDB \<Rightarrow> StateDB" where
  "obj_SubBalance a ob amount s =
     (if amount = 0 then s else obj_SetBalance a ob (acc_Balance (so_data ob) - amount) s)"

definition obj_SetNonce :: "addr \<Rightarrow> stateObject \<Rightarrow> u64 \<Rightarrow> StateDB \<Rightarrow> StateDB" where
  "obj_SetNonce a ob n s =
     setStateObject a (obj_setNonce n ob) (journal_append (NonceChange a (acc_Nonce (so_data ob))) s)"

definition obj_SetCode ::
    "RollupEnv \<Rightarrow> Database \<Rightarrow> addr \<Rightarrow> stateObject \<Rightarrow> hash \<Rightarrow> bytes option \<Rightarrow> StateDB \<Rightarrow> StateDB" where
  "obj_SetCode env db a ob h code s =
     (case obj_Code env db ob of
        (prevcode, ob') \<Rightarrow>
          setStateObject a (obj_setCode h code ob')
            (journal_append (CodeChange a prevcode (acc_CodeHash (so_data ob'))) s))"

definition obj_SetState ::
    "Database \<Rightarrow> addr \<Rightarrow> stateObject \<Rightarrow> hash \<Rightarrow> hash \<Rightarrow> StateDB \<Rightarrow> StateDB" where
  "obj_SetState db a ob key val s =
     (case obj_GetState db key ob of
        (prev, ob') \<Rightarrow>
          if prev = val then setStateObject a ob' s
          else setStateObject a (obj_setState key val ob') (journal_append (StorageChange a key prev) s))"

section \<open>Operations\<close>

definition AddLog :: "Log \<Rightarrow> StateDB \<Rightarrow> StateDB" where
  "AddLog l s =
     (let s1 = journal_append (AddLogChange (thash s)) s;
          l' = l\<lparr>log_TxHash := thash s, log_BlockHash := bhash s, log_TxIndex := txIndex s, log_Index := logSize s\<rparr>;
          old = (case st_logs s (thash s) of None \<Rightarrow> [] | Some ls \<Rightarrow> ls)
      in s1\<lparr>st_logs := (st_logs s1)(thash s \<mapsto> old @ [l']), logSize := logSize s + 1\<rparr>)"

definition GetLogs :: "hash \<Rightarrow> StateDB \<Rightarrow> Log list" where
  "GetLogs h s = (case st_logs s h of None \<Rightarrow> [] | Some ls \<Rightarrow> ls)"

definition AddPreimage :: "hash \<Rightarrow> bytes \<Rightarrow> StateDB \<Rightarrow> StateDB" where
  "AddPreimage h pre s =
     (case preimages s h of
        Some _ \<Rightarrow> s
      | None \<Rightarrow>
          let s1 = journal_append (AddPreimageChange h) s in s1\<lparr>preimages := (preimages s1)(h \<mapsto> pre)\<rparr>)"

definition AddRefund :: "u64 \<Rightarrow> StateDB \<Rightarrow> StateDB" where
  "AddRefund gas s = (journal_append (RefundChange (st_refund s)) s)\<lparr>st_refund := st_refund s + gas\<rparr>"

definition SubRefund :: "u64 \<Rightarrow> StateDB \<Rightarrow> StateDB res" where
  "SubRefund gas s =
     (if st_refund s < gas then Panic ''Refund counter below zero''
      else Ok ((journal_append (RefundChange (st_refund s)) s)\<lparr>st_refund := st_refund s - gas\<rparr>))"

definition Exist :: "RollupEnv \<Rightarrow> addr \<Rightarrow> StateDB \<Rightarrow> bool \<times> StateDB" where
  "Exist env a s = (case getStateObject env a s of (ob, s') \<Rightarrow> (ob \<noteq> None, s'))"

definition Empty :: "RollupEnv \<Rightarrow> addr \<Rightarrow> StateDB \<Rightarrow> bool \<times> StateDB" where
  "Empty env a s =
     (case getStateObject env a s of
        (None, s') \<Rightarrow> (True, s')
      | (Some ob, s') \<Rightarrow> (obj_empty env ob, s'))"

definition GetState :: "RollupEnv \<Rightarrow> Database \<Rightarrow> addr \<Rightarrow> hash \<Rightarrow> StateDB \<Rightarrow> hash \<times> StateDB" where
  "GetState env db a key s =
     (case getStateObject env a s of
        (None, s') \<Rightarrow> (0, s')
      | (Some ob, s') \<Rightarrow> (case obj_GetState db key ob of (v, ob') \<Rightarrow> (v, setStateObject a ob' s')))"

definition GetCommittedState :: "RollupEnv \<Rightarrow> Database \<Rightarrow> addr \<Rightarrow> hash \<Rightarrow> StateDB \<Rightarrow> hash \<times> StateDB" where
  "GetCommittedState env db a key s =
     (case getStateObject env a s of
        (None, s') \<Rightarrow> (0, s')
      | (Some ob, s') \<Rightarrow> (case obj_GetCommittedState db key ob of (v, ob') \<Rightarrow> (v, setStateObject a ob' s')))"

definition GetCode :: "RollupEnv \<Rightarrow> Database \<Rightarrow> addr \<Rightarrow> StateDB \<Rightarrow> bytes option \<times> StateDB" where
  "GetCode env db a s =
     (case getStateObject env a s of
        (None, s') \<Rightarrow> (None, s')
      | (Some ob, s') \<Rightarrow> (case obj_Code env db ob of (c, ob') \<Rightarrow> (c, setStateObject a ob' s')))"

definition GetCodeSize :: "RollupEnv \<Rightarrow> Database \<Rightarrow> addr \<Rightarrow> StateDB \<Rightarrow> nat \<times> StateDB" where
  "GetCodeSize env db a s =
     (case getStateObject env a s of
        (None, s') \<Rightarrow> (0, s')
      | (Some ob, s') \<Rightarrow>
          (case so_code ob of
             Some c \<Rightarrow> length c
           | None \<Rightarrow> (case ContractCode db (acc_CodeHash (so_data ob)) of None \<Rightarrow> 0 | Some c \<Rightarrow> length c), s'))"

definition GetCodeHash :: "RollupEnv \<Rightarrow> addr \<Rightarrow> StateDB \<Rightarrow> hash \<times> StateDB" where
  "GetCodeHash env a s =
     (case getStateObject env a s of
        (None, s') \<Rightarrow> (0, s')
      | (Some ob, s') \<Rightarrow> (acc_CodeHash (so_data ob), s'))"

definition GetNonce :: "RollupEnv \<Rightarrow> addr \<Rightarrow> StateDB \<Rightarrow> u64 \<times> StateDB" where
  "GetNonce env a s =
     (case getStateObject env a s of
        (None, s') \<Rightarrow> (0, s')
      | (Some ob, s') \<Rightarrow> (acc_Nonce (so_data ob), s'))"

definition HasSuicided :: "RollupEnv \<Rightarrow> addr \<Rightarrow> StateDB \<Rightarrow> bool \<times> StateDB" where
  "HasSuicided env a s =
     (case getStateObject env a s of
        (None, s') \<Rightarrow> (False, s')
      | (Some ob, s') \<Rightarrow> (suicided ob, s'))"

definition SetState :: "RollupEnv \<Rightarrow> Database \<Rightarrow> addr \<Rightarrow> hash \<Rightarrow> hash \<Rightarrow> StateDB \<Rightarrow> StateDB" where
  "SetState env db a key val s =
     (case GetOrNewStateObject env a s of (ob, s') \<Rightarrow> obj_SetState db a ob key val s')"

definition SetNonce :: "RollupEnv \<Rightarrow> addr \<Rightarrow> u64 \<Rightarrow> StateDB \<Rightarrow> StateDB" where
  "SetNonce env a n s = (case GetOrNewStateObject env a s of (ob, s') \<Rightarrow> obj_SetNonce a ob n s')"

definition SetCode :: "RollupEnv \<Rightarrow> Database \<Rightarrow> addr \<Rightarrow> bytes option \<Rightarrow> StateDB \<Rightarrow> StateDB" where
  "SetCode env db a code s =
     (case GetOrNewStateObject env a s of
        (ob, s') \<Rightarrow> obj_SetCode env db a ob (keccak env (case code of None \<Rightarrow> [] | Some c \<Rightarrow> c)) code s')"

definition Suicide :: "RollupEnv \<Rightarrow> addr \<Rightarrow> StateDB \<Rightarrow> bool \<times> StateDB" where
  "Suicide env a s =
     (case getStateObject env a s of
        (None, s') \<Rightarrow> (False, s')
      | (Some ob, s') \<Rightarrow>
          (True, setStateObject a (obj_setBalance 0 (ob\<lparr>suicided := True\<rparr>))
             (journal_append (SuicideChange a (suicided ob) (acc_Balance (so_data ob))) s')))"

section \<open>Balances\<close>

text \<open>A balance inside a contract's storage: read the slot, compute, write the slot.\<close>

definition updateSlot ::
    "RollupEnv \<Rightarrow> Database \<Rightarrow> addr \<Rightarrow> hash \<Rightarrow> (int \<Rightarrow> int) \<Rightarrow> StateDB \<Rightarrow> StateDB" where
  "updateSlot env db contract key f s =
     (case GetState env db contract key s of
        (v, s') \<Rightarrow> SetState env db contract key (BigToHash (f (Big v))) s')"

definition GetBalance :: "RollupEnv \<Rightarrow> Database \<Rightarrow> addr \<Rightarrow> StateDB \<Rightarrow> int \<times> StateDB" where
  "GetBalance env db a s =
     (if UsingOVM env then
        (case GetState env db OvmEthAddress (GetOVMBalanceKey env a) s of (v, s') \<Rightarrow> (Big v, s'))
      else
        (case getStateObject env a s of
           (None, s') \<Rightarrow> (0, s')
         | (Some ob, s') \<Rightarrow> (acc_Balance (so_data ob), s')))"

definition AddBalance :: "RollupEnv \<Rightarrow> Database \<Rightarrow> addr \<Rightarrow> int \<Rightarrow> StateDB \<Rightarrow> StateDB" where
  "AddBalance env db a amount s =
     (if UsingOVM env then
        updateSlot env db OvmEthAddress (GetOVMBalanceKey env a) (\<lambda>bal. bal + amount) s
      else (case GetOrNewStateObject env a s of (ob, s') \<Rightarrow> obj_AddBalance env a ob amount s'))"

definition SubBalance :: "RollupEnv \<Rightarrow> Database \<Rightarrow> addr \<Rightarrow> int \<Rightarrow> StateDB \<Rightarrow> StateDB" where
  "SubBalance env db a amount s =
     (if UsingOVM env then
        updateSlot env db OvmEthAddress (GetOVMBalanceKey env a) (\<lambda>bal. bal - amount) s
      else (case GetOrNewStateObject env a s of (ob, s') \<Rightarrow> obj_SubBalance a ob amount s'))"

definition SetBalance :: "RollupEnv \<Rightarrow> Database \<Rightarrow> addr \<Rightarrow> int \<Rightarrow> StateDB \<Rightarrow> StateDB" where
  "SetBalance env db a amount s =
     (if UsingOVM env then
        SetState env db OvmEthAddress (GetOVMBalanceKey env a) (BigToHash amount) s
      else (case GetOrNewStateObject env a s of (ob, s') \<Rightarrow> obj_SetBalance a ob amount s'))"

definition GetBobaBalance :: "RollupEnv \<Rightarrow> Database \<Rightarrow> addr \<Rightarrow> StateDB \<Rightarrow> int \<times> StateDB" where
  "GetBobaBalance env db a s =
     (case GetState env db (OvmL2BobaToken env) (GetBobaBalanceKey env a) s of (v, s') \<Rightarrow> (Big v, s'))"

definition AddBobaBalance :: "RollupEnv \<Rightarrow> Database \<Rightarrow> addr \<Rightarrow> int \<Rightarrow> StateDB \<Rightarrow> StateDB" where
  "AddBobaBalance env db a amount s =
     updateSlot env db (OvmL2BobaToken env) (GetBobaBalanceKey env a) (\<lambda>bal. bal + amount) s"

definition SubBobaBalance :: "RollupEnv \<Rightarrow> Database \<Rightarrow> addr \<Rightarrow> int \<Rightarrow> StateDB \<Rightarrow> StateDB" where
  "SubBobaBalance env db a amount s =
     updateSlot env db (OvmL2BobaToken env) (GetBobaBalanceKey env a) (\<lambda>bal. bal - amount) s"

definition GetFeeTokenSelection :: "RollupEnv \<Rightarrow> Database \<Rightarrow> addr \<Rightarrow> StateDB \<Rightarrow> int \<times> StateDB" where
  "GetFeeTokenSelection env db a s =
     (case GetState env db (OvmBobaGasPricOracle env) (GetFeeTokenSelectionKey env a) s of
        (v, s') \<Rightarrow> (Big v, s'))"

definition GetBobaPriceRatio :: "RollupEnv \<Rightarrow> Database \<Rightarrow> StateDB \<Rightarrow> int \<times> StateDB" where
  "GetBobaPriceRatio env db s =
     (case GetState env db (OvmBobaGasPricOracle env) (BigToHash 5) s of (v, s') \<Rightarrow> (Big v, s'))"

definition SetBobaAsFeeToken :: "RollupEnv \<Rightarrow> Database \<Rightarrow> addr \<Rightarrow> StateDB \<Rightarrow> StateDB" where
  "SetBobaAsFeeToken env db a s =
     SetState env db (OvmBobaGasPricOracle env) (GetFeeTokenSelectionKey env a) (BigToHash 1) s"

definition SetBobaPriceRatio :: "RollupEnv \<Rightarrow> Database \<Rightarrow> int \<Rightarrow> StateDB \<Rightarrow> StateDB" where
  "SetBobaPriceRatio env db ratio s =
     SetState env db (OvmBobaGasPricOracle env) (BigToHash 5) (BigToHash ratio) s"

section \<open>Turing credit\<close>

definition errInsufficientTuring :: go_error where
  "errInsufficientTuring = GoErr ''Insufficient Turing credit''"

text \<open>Both return the state also with an error, because reading may load objects.\<close>

definition TuringCharge :: "RollupEnv \<Rightarrow> Database \<Rightarrow> addr \<Rightarrow> StateDB \<Rightarrow> unit res \<times> StateDB" where
  "TuringCharge env db userID s =
     (let c = OvmTuringCreditAddress env;
          keyUser = GetTuringPrepayKey env userID; keyPrice = BigToHash 3; keyOwner = BigToHash 4;
          (valueUser, s1) = GetState env db c keyUser s;
          (value, s2) = GetState env db c keyPrice s1;
          (valueOwner, s3) = GetState env db c keyOwner s2;
          price = Big value
      in if Big valueUser < price then (Err errInsufficientTuring, s3)
         else
           (Ok (), SetState env db c keyOwner (BigToHash (Big valueOwner + price))
              (SetState env db c keyUser (BigToHash (Big valueUser - price)) s3)))"

definition TuringCheck :: "RollupEnv \<Rightarrow> Database \<Rightarrow> addr \<Rightarrow> StateDB \<Rightarrow> unit res \<times> StateDB" where
  "TuringCheck env db userID s =
     (let c = OvmTuringCreditAddress env;
          (valueUser, s1) = GetState env db c (GetTuringPrepayKey env userID) s;
          (value, s2) = GetState env db c (BigToHash 3) s1
      in (if Big valueUser < Big value then Err errInsufficientTuring else Ok (), s2))"

section \<open>Access list\<close>

definition AddAddressToAccessList :: "addr \<Rightarrow> StateDB \<Rightarrow> StateDB" where
  "AddAddressToAccessList a s =
     (case AddAddress a (st_access s) of
        (new, al) \<Rightarrow>
          let s' = s\<lparr>st_access := al\<rparr> in
          if new then journal_append (AccessListAddAccountChange a) s' else s')"

definition AddSlotToAccessList :: "addr \<Rightarrow> hash \<Rightarrow> StateDB \<Rightarrow> StateDB res" where
  "AddSlotToAccessList a slot s =
     res_map (\<lambda>((addrMod, slotMod), al).
         let s1 = s\<lparr>st_access := al\<rparr>;
             s2 = (if addrMod then journal_append (AccessListAddAccountChange a) s1 else s1)
         in if slotMod then journal_append (AccessListAddSlotChange a slot) s2 else s2)
       (AddSlot a slot (st_access s))"

definition AddressInAccessList :: "addr \<Rightarrow> StateDB \<Rightarrow> bool" where
  "AddressInAccessList a s = ContainsAddress (st_access s) a"

definition SlotInAccessList :: "addr \<Rightarrow> hash \<Rightarrow> StateDB \<Rightarrow> (bool \<times> bool) res" where
  "SlotInAccessList a slot s = Contains (st_access s) a slot"

fun addSlots :: "addr \<Rightarrow> hash list \<Rightarrow> StateDB \<Rightarrow> StateDB res" where
  "addSlots a [] s = Ok s"
| "addSlots a (k # ks) s = res_bind (AddSlotToAccessList a k s) (addSlots a ks)"

fun addTuples :: "(addr \<times> hash list) list \<Rightarrow> StateDB \<Rightarrow> StateDB res" where
  "addTuples [] s = Ok s"
| "addTuples ((a, ks) # l) s = res_bind (addSlots a ks (AddAddressToAccessList a s)) (addTuples l)"

definition PrepareAccessList ::
    "addr \<Rightarrow> addr option \<Rightarrow> addr list \<Rightarrow> (addr \<times> hash list) list \<Rightarrow> StateDB \<Rightarrow> StateDB res" where
  "PrepareAccessList sender dst precompiles l s =
     (let s1 = AddAddressToAccessList sender s;
          s2 = (case dst of None \<Rightarrow> s1 | Some d \<Rightarrow> AddAddressToAccessList d s1)
      in addTuples l (fold AddAddressToAccessList precompiles s2))"

section \<open>Snapshots\<close>

definition nilPointer :: string where
  "nilPointer = ''invalid memory address or nil pointer dereference''"

text \<open>\<open>s.getStateObject(*ch.account).set...\<close>\<close>

definition revertObject :: "RollupEnv \<Rightarrow> addr \<Rightarrow> (stateObject \<Rightarrow> stateObject) \<Rightarrow> StateDB \<Rightarrow> StateDB res" where
  "revertObject env a f s =
     (case getStateObject env a s of
        (None, s') \<Rightarrow> Panic nilPointer
      | (Some ob, s') \<Rightarrow> Ok (setStateObject a (f ob) s'))"

fun revertEntry :: "RollupEnv \<Rightarrow> journalEntry \<Rightarrow> StateDB \<Rightarrow> StateDB res" where
  "revertEntry env (CreateObjectChange a) s =
     Ok (s\<lparr>stateObjects := (stateObjects s)(a := None), stateObjectsDirty := stateObjectsDirty s - {a}\<rparr>)"
| "revertEntry env (ResetObjectChange a prev) s = Ok (setStateObject a prev s)"
| "revertEntry env (SuicideChange a prev prevbalance) s =
     (case getStateObject env a s of
        (None, s') \<Rightarrow> Ok s'
      | (Some ob, s') \<Rightarrow> Ok (setStateObject a (obj_setBalance prevbalance (ob\<lparr>suicided := prev\<rparr>)) s'))"
| "revertEntry env (BalanceChange a prev) s = revertObject env a (obj_setBalance prev) s"
| "revertEntry env (NonceChange a prev) s = revertObject env a (obj_setNonce prev) s"
| "revertEntry env (StorageChange a key prev) s = revertObject env a (obj_setState key prev) s"
| "revertEntry env (CodeChange a prevcode prevhash) s = revertObject env a (obj_setCode prevhash prevcode) s"
| "revertEntry env (RefundChange prev) s = Ok (s\<lparr>st_refund := prev\<rparr>)"
| "revertEntry env (AddLogChange h) s =
     (let ls = GetLogs h s in
      if length ls = 1 then Ok (s\<lparr>st_logs := (st_logs s)(h := None), logSize := logSize s - 1\<rparr>)
      else if ls = [] then Panic ''slice bounds out of range''
      else Ok (s\<lparr>st_logs := (st_logs s)(h \<mapsto> butlast ls), logSize := logSize s - 1\<rparr>))"
| "revertEntry env (AddPreimageChange h) s = Ok (s\<lparr>preimages := (preimages s)(h := None)\<rparr>)"
| "revertEntry env (TouchChange a) s = Ok s"
| "revertEntry env (AccessListAddAccountChange a) s = Ok (s\<lparr>st_access := DeleteAddress a (st_access s)\<rparr>)"
| "revertEntry env (AccessListAddSlotChange a slot) s =
     res_map (\<lambda>al. s\<lparr>st_access := al\<rparr>) (DeleteSlot a slot (st_access s))"

text \<open>The loop of \<open>journal.revert\<close>, over the entries from the last one back.\<close>

fun revertLoop :: "RollupEnv \<Rightarrow> journalEntry list \<Rightarrow> StateDB \<Rightarrow> StateDB res" where
  "revertLoop env [] s = Ok s"
| "revertLoop env (e # es) s = res_bind (revertEntry env e s) (\<lambda>s'. revertLoop env es (journal_undirty e s'))"

definition journal_revert :: "RollupEnv \<Rightarrow> nat \<Rightarrow> StateDB \<Rightarrow> StateDB res" where
  "journal_revert env snapshot s =
     res_map (\<lambda>s'. s'\<lparr>entries := take snapshot (entries s')\<rparr>)
       (revertLoop env (rev (drop snapshot (entries s))) s)"

text \<open>\<open>sort.Search\<close>\<close>

function searchLoop :: "(nat \<Rightarrow> bool) \<Rightarrow> nat \<Rightarrow> nat \<Rightarrow> nat" where
  "searchLoop f i j =
     (if i < j then
        let h = (i + j) div 2 in
        if \<not> f h then searchLoop f (h + 1) j else searchLoop f i h
      else i)"
  by pat_completeness auto
termination
  by (relation "measure (\<lambda>(f, i, j). j - i)") auto

definition sortSearch :: "nat \<Rightarrow> (nat \<Rightarrow> bool) \<Rightarrow> nat" where
  "sortSearch n f = searchLoop f 0 n"

definition Snapshot :: "StateDB \<Rightarrow> nat \<times> StateDB" where
  "Snapshot s =
     (let i = nextRevisionId s in
      (i, s\<lparr>nextRevisionId := i + 1, validRevisions := validRevisions s @ [(i, length (entries s))]\<rparr>))"

definition RevertToSnapshot :: "RollupEnv \<Rightarrow> nat \<Rightarrow> StateDB \<Rightarrow> StateDB res" where
  "RevertToSnapshot env revid s =
     (let rs = validRevisions s; idx = sortSearch (length rs) (\<lambda>i. revid \<le> fst (rs ! i)) in
      if idx = length rs \<or> fst (rs ! idx) \<noteq> revid then Panic ''revision id cannot be reverted''
      else
        res_map (\<lambda>s'. s'\<lparr>validRevisions := take idx (validRevisions s')\<rparr>)
          (journal_revert env (snd (rs ! idx)) s))"

section \<open>End of transactions and blocks\<close>

definition clearJournalAndRefund :: "StateDB \<Rightarrow> StateDB" where
  "clearJournalAndRefund s =
     (let s' = (if 0 < length (entries s) then s\<lparr>entries := [], dirties := Map.empty, st_refund := 0\<rparr> else s)
      in s'\<lparr>validRevisions := []\<rparr>)"

definition finaliseObject :: "RollupEnv \<Rightarrow> bool \<Rightarrow> stateObject \<Rightarrow> stateObject" where
  "finaliseObject env deleteEmptyObjects ob =
     (if suicided ob \<or> deleteEmptyObjects \<and> obj_empty env ob then ob\<lparr>deleted := True\<rparr>
      else obj_finalise ob)"

text \<open>The loop over the dirty addresses touches every object once, so its order does not matter.\<close>

definition Finalise :: "RollupEnv \<Rightarrow> bool \<Rightarrow> StateDB \<Rightarrow> StateDB" where
  "Finalise env deleteEmptyObjects s =
     (let touched = {a. dirties s a \<noteq> None \<and> stateObjects s a \<noteq> None} in
      clearJournalAndRefund
        (s\<lparr>stateObjects := (\<lambda>a. if a \<in> touched
             then map_option (finaliseObject env deleteEmptyObjects) (stateObjects s a) else stateObjects s a),
           stateObjectsPending := stateObjectsPending s \<union> touched,
           stateObjectsDirty := stateObjectsDirty s \<union> touched\<rparr>))"

definition Prepare :: "hash \<Rightarrow> hash \<Rightarrow> u64 \<Rightarrow> StateDB \<Rightarrow> StateDB" where
  "Prepare th bh ti s = s\<lparr>thash := th, bhash := bh, txIndex := ti, st_access := newAccessList\<rparr>"

definition Reset :: "(addr \<Rightarrow> Account option) \<Rightarrow> StateDB \<Rightarrow> StateDB" where
  "Reset tr s =
     clearJournalAndRefund
       (s\<lparr>db_trie := tr, stateObjects := Map.empty, stateObjectsPending := {}, stateObjectsDirty := {},
          thash := 0, bhash := 0, txIndex := 0, st_logs := Map.empty, logSize := 0,
          preimages := Map.empty, st_access := newAccessList\<rparr>)"

end
