(* ===== verification/StateDB_Revert.thy ===== *)
theory StateDB_Revert
  imports StateDB
begin

text \<open>
  What the journal of \<open>StateDB\<close> promises. The abstract state forgets the caches: every address has
  the view of its live object, or of the account in the trie. Every journal entry undoes one change of
  the abstract state, every operation of the interface \<open>vm.StateDB\<close> journals all that it changes,
  and hence reverting to a snapshot that is still valid succeeds and restores the abstract state,
  whatever was executed since, nested snapshots and reverts included.
\<close>

section \<open>Abstract state\<close>

record objView =
  v_data :: Account
  v_code :: "bytes option"
  v_storage :: "hash \<Rightarrow> hash"
  v_committed :: "hash \<Rightarrow> hash"
  v_suicided :: bool
  v_deleted :: bool

definition view :: "RollupEnv \<Rightarrow> Database \<Rightarrow> stateObject \<Rightarrow> objView" where
  "view env db ob =
     \<lparr>v_data = so_data ob, v_code = fst (obj_Code env db ob), v_storage = (\<lambda>k. fst (obj_GetState db k ob)),
      v_committed = (\<lambda>k. fst (obj_GetCommittedState db k ob)), v_suicided = suicided ob, v_deleted = deleted ob\<rparr>"

record absState =
  x_trie :: "addr \<Rightarrow> Account option"
  x_obj :: "addr \<Rightarrow> objView option"
  x_refund :: u64
  x_logs :: "hash \<Rightarrow> Log list"
  x_logSize :: u64
  x_preimages :: "hash \<Rightarrow> bytes option"
  x_access :: accessList
  x_tx :: "hash \<times> hash \<times> u64"

definition objAt :: "RollupEnv \<Rightarrow> StateDB \<Rightarrow> addr \<Rightarrow> stateObject option" where
  "objAt env s a =
     (case stateObjects s a of Some ob \<Rightarrow> Some ob | None \<Rightarrow> map_option (newObject env) (db_trie s a))"

definition abst :: "RollupEnv \<Rightarrow> Database \<Rightarrow> StateDB \<Rightarrow> absState" where
  "abst env db s =
     \<lparr>x_trie = db_trie s, x_obj = (\<lambda>a. map_option (view env db) (objAt env s a)), x_refund = st_refund s,
      x_logs = (\<lambda>h. GetLogs h s), x_logSize = logSize s, x_preimages = preimages s,
      x_access = st_access s, x_tx = (thash s, bhash s, txIndex s)\<rparr>"

definition xput :: "addr \<Rightarrow> objView \<Rightarrow> absState \<Rightarrow> absState" where
  "xput a w X = X\<lparr>x_obj := (x_obj X)(a \<mapsto> w)\<rparr>"

definition xlive :: "absState \<Rightarrow> addr \<Rightarrow> objView option" where
  "xlive X a = (case x_obj X a of None \<Rightarrow> None | Some w \<Rightarrow> if v_deleted w then None else Some w)"

section \<open>Views of objects\<close>

lemma view_read [simp]:
  "view env db (snd (obj_GetCommittedState db k ob)) = view env db ob"
  "view env db (snd (obj_GetState db k ob)) = view env db ob"
  "view env db (snd (obj_Code env db ob)) = view env db ob"
proof -
  show c: "view env db (snd (obj_GetCommittedState db k ob)) = view env db ob"
    by (auto simp: view_def obj_GetCommittedState_def obj_GetState_def obj_Code_def getTrie_def Let_def fun_eq_iff
        split: option.splits)
  then show "view env db (snd (obj_GetState db k ob)) = view env db ob"
    by (simp add: obj_GetState_def split: option.splits)
  show "view env db (snd (obj_Code env db ob)) = view env db ob"
    by (auto simp: view_def obj_GetCommittedState_def obj_GetState_def obj_Code_def getTrie_def Let_def fun_eq_iff
        split: option.splits)
qed

lemma view_set [simp]:
  "view env db (obj_setState k v ob) = (view env db ob)\<lparr>v_storage := (v_storage (view env db ob))(k := v)\<rparr>"
  "view env db (obj_setBalance b ob) = (view env db ob)\<lparr>v_data := (so_data ob)\<lparr>acc_Balance := b\<rparr>\<rparr>"
  "view env db (obj_setNonce n ob) = (view env db ob)\<lparr>v_data := (so_data ob)\<lparr>acc_Nonce := n\<rparr>\<rparr>"
  "view env db (ob\<lparr>suicided := b'\<rparr>) = (view env db ob)\<lparr>v_suicided := b'\<rparr>"
  by (auto simp: view_def obj_setState_def obj_setBalance_def obj_setNonce_def obj_GetCommittedState_def
      obj_GetState_def obj_Code_def getTrie_def Let_def fun_eq_iff split: option.splits)

definition loadCode :: "RollupEnv \<Rightarrow> Database \<Rightarrow> hash \<Rightarrow> bytes option \<Rightarrow> bytes option" where
  "loadCode env db h c =
     (case c of Some c' \<Rightarrow> Some c' | None \<Rightarrow> if h = emptyCodeHash env then None else ContractCode db h)"

lemma view_setCode [simp]:
  "view env db (obj_setCode h c ob) =
     (view env db ob)\<lparr>v_data := (so_data ob)\<lparr>acc_CodeHash := h\<rparr>, v_code := loadCode env db h c\<rparr>"
  by (auto simp: view_def obj_setCode_def obj_GetCommittedState_def obj_GetState_def obj_Code_def getTrie_def
      loadCode_def Let_def fun_eq_iff split: option.splits)

lemma view_sel [simp]:
  "v_data (view env db ob) = so_data ob" "v_suicided (view env db ob) = suicided ob"
  "v_deleted (view env db ob) = deleted ob" "v_storage (view env db ob) k = fst (obj_GetState db k ob)"
  "v_committed (view env db ob) k = fst (obj_GetCommittedState db k ob)"
  "v_code (view env db ob) = fst (obj_Code env db ob)"
  by (simp_all add: view_def)

lemma view_same [simp]:
  "(view env db ob)\<lparr>v_data := so_data ob\<rparr> = view env db ob"
  "(view env db ob)\<lparr>v_suicided := suicided ob\<rparr> = view env db ob"
  "(view env db ob)\<lparr>v_code := fst (obj_Code env db ob)\<rparr> = view env db ob"
  "(view env db ob)\<lparr>v_data := so_data ob, v_suicided := suicided ob\<rparr> = view env db ob"
  "(view env db ob)\<lparr>v_data := so_data ob, v_code := fst (obj_Code env db ob)\<rparr> = view env db ob"
  by (simp_all add: view_def)

lemma loadCode_Code: "loadCode env db (acc_CodeHash (so_data ob)) (fst (obj_Code env db ob)) = fst (obj_Code env db ob)"
  by (auto simp: loadCode_def obj_Code_def Let_def split: option.splits)

lemma set_sel [simp]:
  "so_data (snd (obj_Code env db ob)) = so_data ob" "so_data (snd (obj_GetState db k ob)) = so_data ob"
  "so_data (obj_setState k v ob) = so_data ob" "so_data (obj_setBalance b ob) = (so_data ob)\<lparr>acc_Balance := b\<rparr>"
  "so_data (obj_setNonce n ob) = (so_data ob)\<lparr>acc_Nonce := n\<rparr>"
  "so_data (obj_setCode h c ob) = (so_data ob)\<lparr>acc_CodeHash := h\<rparr>"
  "deleted (snd (obj_Code env db ob)) = deleted ob" "deleted (snd (obj_GetState db k ob)) = deleted ob"
  "deleted (newObject env d) = False"
  by (auto simp: obj_Code_def obj_GetState_def obj_GetCommittedState_def obj_setState_def obj_setBalance_def
      obj_setNonce_def obj_setCode_def newObject_def Let_def split: option.splits)

section \<open>Looking up objects\<close>

definition load :: "RollupEnv \<Rightarrow> addr \<Rightarrow> StateDB \<Rightarrow> StateDB" where
  "load env a s = (case objAt env s a of None \<Rightarrow> s | Some ob \<Rightarrow> setStateObject a ob s)"

definition live :: "RollupEnv \<Rightarrow> StateDB \<Rightarrow> addr \<Rightarrow> stateObject option" where
  "live env s a = (case objAt env s a of None \<Rightarrow> None | Some ob \<Rightarrow> if deleted ob then None else Some ob)"

lemma getDeletedStateObject_load: "getDeletedStateObject env a s = (objAt env s a, load env a s)"
  by (auto simp: getDeletedStateObject_def load_def objAt_def setStateObject_def map_upd_triv Let_def
      split: option.splits)

lemma getStateObject_load: "getStateObject env a s = (live env s a, load env a s)"
  by (auto simp: getStateObject_def getDeletedStateObject_load live_def split: option.splits)

lemma setStateObject_sel [simp]:
  "objAt env (setStateObject a ob s) = (objAt env s)(a \<mapsto> ob)"
  "entries (setStateObject a ob s) = entries s" "dirties (setStateObject a ob s) = dirties s"
  "validRevisions (setStateObject a ob s) = validRevisions s"
  "nextRevisionId (setStateObject a ob s) = nextRevisionId s"
  "db_trie (setStateObject a ob s) = db_trie s" "st_access (setStateObject a ob s) = st_access s"
  "stateObjects (setStateObject a ob s) = (stateObjects s)(a \<mapsto> ob)"
  by (auto simp: setStateObject_def objAt_def fun_eq_iff split: option.splits)

lemma abst_setStateObject [simp]:
  "abst env db (setStateObject a ob s) = xput a (view env db ob) (abst env db s)"
  by (auto simp: abst_def xput_def setStateObject_def GetLogs_def objAt_def fun_eq_iff split: option.splits)

lemma load_sel [simp]:
  "objAt env (load env a s) = objAt env s"
  "entries (load env a s) = entries s" "dirties (load env a s) = dirties s"
  "validRevisions (load env a s) = validRevisions s" "nextRevisionId (load env a s) = nextRevisionId s"
  "db_trie (load env a s) = db_trie s" "st_access (load env a s) = st_access s"
  "live env (load env a s) = live env s"
  by (auto simp: load_def live_def fun_eq_iff split: option.splits)

lemma xput_same: "x_obj X a = Some w \<Longrightarrow> xput a w X = X"
  by (simp add: xput_def map_upd_triv)

lemma abst_obj: "x_obj (abst env db s) a = map_option (view env db) (objAt env s a)"
  by (simp add: abst_def)

lemma abst_load [simp]: "abst env db (load env a s) = abst env db s"
  by (auto simp: load_def xput_same abst_obj split: option.splits)

lemma xlive_abst: "xlive (abst env db s) a = map_option (view env db) (live env s a)"
  by (auto simp: xlive_def abst_def live_def split: option.splits)

lemma live_objAt: "live env s a = Some ob \<Longrightarrow> objAt env s a = Some ob \<and> \<not> deleted ob"
  by (auto simp: live_def split: option.splits if_splits)

lemma journal_append_sel [simp]:
  "entries (journal_append e s) = entries s @ [e]" "validRevisions (journal_append e s) = validRevisions s"
  "nextRevisionId (journal_append e s) = nextRevisionId s" "objAt env (journal_append e s) = objAt env s"
  "abst env db (journal_append e s) = abst env db s" "db_trie (journal_append e s) = db_trie s"
  "st_access (journal_append e s) = st_access s" "live env (journal_append e s) = live env s"
  by (auto simp: journal_append_def journal_dirty_def objAt_def abst_def live_def GetLogs_def Let_def fun_eq_iff
      split: option.splits)

section \<open>Undoing a journal entry\<close>

definition xupdate :: "addr \<Rightarrow> (objView \<Rightarrow> objView) \<Rightarrow> absState \<Rightarrow> absState option" where
  "xupdate a f X = map_option (\<lambda>w. xput a (f w) X) (xlive X a)"

fun undo :: "RollupEnv \<Rightarrow> Database \<Rightarrow> journalEntry \<Rightarrow> absState \<Rightarrow> absState option" where
  "undo env db (CreateObjectChange a) X =
     Some (X\<lparr>x_obj := (x_obj X)(a := map_option (\<lambda>d. view env db (newObject env d)) (x_trie X a))\<rparr>)"
| "undo env db (ResetObjectChange a prev) X = Some (xput a (view env db prev) X)"
| "undo env db (SuicideChange a prev bal) X =
     xupdate a (\<lambda>w. w\<lparr>v_suicided := prev, v_data := (v_data w)\<lparr>acc_Balance := bal\<rparr>\<rparr>) X"
| "undo env db (BalanceChange a prev) X = xupdate a (\<lambda>w. w\<lparr>v_data := (v_data w)\<lparr>acc_Balance := prev\<rparr>\<rparr>) X"
| "undo env db (NonceChange a prev) X = xupdate a (\<lambda>w. w\<lparr>v_data := (v_data w)\<lparr>acc_Nonce := prev\<rparr>\<rparr>) X"
| "undo env db (StorageChange a key prev) X = xupdate a (\<lambda>w. w\<lparr>v_storage := (v_storage w)(key := prev)\<rparr>) X"
| "undo env db (CodeChange a code h) X =
     xupdate a (\<lambda>w. w\<lparr>v_data := (v_data w)\<lparr>acc_CodeHash := h\<rparr>, v_code := loadCode env db h code\<rparr>) X"
| "undo env db (RefundChange prev) X = Some (X\<lparr>x_refund := prev\<rparr>)"
| "undo env db (AddLogChange h) X =
     (if x_logs X h = [] then None
      else Some (X\<lparr>x_logs := (x_logs X)(h := butlast (x_logs X h)), x_logSize := x_logSize X - 1\<rparr>))"
| "undo env db (AddPreimageChange h) X = Some (X\<lparr>x_preimages := (x_preimages X)(h := None)\<rparr>)"
| "undo env db (TouchChange a) X = Some X"
| "undo env db (AccessListAddAccountChange a) X = Some (X\<lparr>x_access := DeleteAddress a (x_access X)\<rparr>)"
| "undo env db (AccessListAddSlotChange a slot) X =
     (case DeleteSlot a slot (x_access X) of Ok al \<Rightarrow> Some (X\<lparr>x_access := al\<rparr>) | _ \<Rightarrow> None)"

fun unwind :: "RollupEnv \<Rightarrow> Database \<Rightarrow> journalEntry list \<Rightarrow> absState \<Rightarrow> absState option" where
  "unwind env db [] X = Some X"
| "unwind env db (e # es) X = (case undo env db e X of None \<Rightarrow> None | Some Y \<Rightarrow> unwind env db es Y)"

lemma unwind_append:
  "unwind env db (es @ fs) X = (case unwind env db es X of None \<Rightarrow> None | Some Y \<Rightarrow> unwind env db fs Y)"
  by (induction es arbitrary: X) (auto split: option.splits)

definition sameJournal :: "StateDB \<Rightarrow> StateDB \<Rightarrow> bool" where
  "sameJournal s s' \<longleftrightarrow> entries s' = entries s \<and> validRevisions s' = validRevisions s \<and>
     nextRevisionId s' = nextRevisionId s"

lemma revertObject_undo:
  assumes "xupdate a f (abst env db s) = Some X" and "\<And>ob. view env db (g ob) = f (view env db ob)"
  shows "\<exists>s'. revertObject env a g s = Ok s' \<and> abst env db s' = X \<and> sameJournal s s'"
  using assms by (auto simp: revertObject_def getStateObject_load xupdate_def xlive_abst sameJournal_def)

lemma GetLogs_upd: "GetLogs h' (s\<lparr>st_logs := (st_logs s)(h := v), logSize := n\<rparr>) =
    (if h' = h then case v of None \<Rightarrow> [] | Some l \<Rightarrow> l else GetLogs h' s)"
  by (simp add: GetLogs_def)

lemma abst_frame [simp]:
  "abst env db (s\<lparr>st_refund := r\<rparr>) = (abst env db s)\<lparr>x_refund := r\<rparr>"
  "abst env db (s\<lparr>preimages := p\<rparr>) = (abst env db s)\<lparr>x_preimages := p\<rparr>"
  "abst env db (s\<lparr>st_access := al\<rparr>) = (abst env db s)\<lparr>x_access := al\<rparr>"
  "abst env db (s\<lparr>st_logs := (st_logs s)(h := v), logSize := n\<rparr>) =
     (abst env db s)\<lparr>x_logs := (x_logs (abst env db s))(h := case v of None \<Rightarrow> [] | Some l \<Rightarrow> l), x_logSize := n\<rparr>"
  "abst env db (s\<lparr>dirties := d\<rparr>) = abst env db s"
  "abst env db (s\<lparr>entries := es\<rparr>) = abst env db s"
  "abst env db (s\<lparr>validRevisions := vr\<rparr>) = abst env db s"
  "abst env db (s\<lparr>nextRevisionId := i\<rparr>) = abst env db s"
  by (auto simp: abst_def objAt_def GetLogs_def fun_eq_iff split: option.splits)

lemma abst_sel [simp]:
  "x_refund (abst env db s) = st_refund s" "x_preimages (abst env db s) = preimages s"
  "x_access (abst env db s) = st_access s" "x_logSize (abst env db s) = logSize s"
  "x_logs (abst env db s) h = GetLogs h s" "x_trie (abst env db s) = db_trie s"
  by (simp_all add: abst_def)

lemma abst_same [simp]:
  "(abst env db s)\<lparr>x_refund := st_refund s\<rparr> = abst env db s"
  "(abst env db s)\<lparr>x_preimages := preimages s\<rparr> = abst env db s"
  "(abst env db s)\<lparr>x_access := st_access s\<rparr> = abst env db s"
  by (simp_all add: abst_def)

lemma abst_dropObject:
  "abst env db (s\<lparr>stateObjects := (stateObjects s)(a := None), stateObjectsDirty := D\<rparr>) =
     (abst env db s)\<lparr>x_obj := (x_obj (abst env db s))
       (a := map_option (\<lambda>d. view env db (newObject env d)) (db_trie s a))\<rparr>"
  by (auto simp: abst_def objAt_def GetLogs_def option.map_comp comp_def fun_eq_iff split: option.splits)

lemma revertEntry_undo:
  assumes "undo env db e (abst env db s) = Some X"
  shows "\<exists>s'. revertEntry env e s = Ok s' \<and> abst env db s' = X \<and> sameJournal s s'"
proof (cases e)
  case (SuicideChange a prev bal)
  with assms show ?thesis
    by (auto simp: getStateObject_load xupdate_def xlive_abst sameJournal_def)
next
  case (BalanceChange a prev)
  with assms revertObject_undo show ?thesis by auto
next
  case (NonceChange a prev)
  with assms revertObject_undo show ?thesis by auto
next
  case (StorageChange a k prev)
  with assms revertObject_undo show ?thesis by auto
next
  case (CodeChange a c h)
  with assms revertObject_undo show ?thesis by auto
next
  case (AddLogChange h)
  with assms show ?thesis
    by (auto simp: sameJournal_def Let_def length_Suc_conv split: if_splits)
next
  case (AccessListAddSlotChange a slot)
  with assms show ?thesis by (auto simp: sameJournal_def split: res.splits)
qed (use assms in \<open>auto simp: sameJournal_def abst_dropObject\<close>)

lemma journal_undirty_sel [simp]:
  "abst env db (journal_undirty e s) = abst env db s" "sameJournal s (journal_undirty e s)"
  by (auto simp: journal_undirty_def sameJournal_def Let_def split: option.splits)

lemma sameJournal_trans: "sameJournal s t \<Longrightarrow> sameJournal t u \<Longrightarrow> sameJournal s u"
  by (simp add: sameJournal_def)

lemma revertLoop_unwind:
  "unwind env db es (abst env db s) = Some X \<Longrightarrow>
     \<exists>s'. revertLoop env es s = Ok s' \<and> abst env db s' = X \<and> sameJournal s s'"
proof (induction es arbitrary: s)
  case (Cons e es)
  then obtain Y where Y: "undo env db e (abst env db s) = Some Y" "unwind env db es Y = Some X"
    by (auto split: option.splits)
  obtain t where t: "revertEntry env e s = Ok t" "abst env db t = Y" "sameJournal s t"
    using revertEntry_undo [OF Y(1)] by blast
  have "unwind env db es (abst env db (journal_undirty e t)) = Some X" using t(2) Y(2) by simp
  from Cons.IH [OF this] obtain u where "revertLoop env es (journal_undirty e t) = Ok u"
    "abst env db u = X" "sameJournal (journal_undirty e t) u" by blast
  with t show ?case
    using sameJournal_trans [OF sameJournal_trans [OF t(3) journal_undirty_sel(2)]] by auto
qed (simp add: sameJournal_def)

section \<open>Every operation journals what it changes\<close>

definition tracks :: "RollupEnv \<Rightarrow> Database \<Rightarrow> StateDB \<Rightarrow> StateDB \<Rightarrow> bool" where
  "tracks env db s s' \<longleftrightarrow>
     (\<exists>es. entries s' = entries s @ es \<and> unwind env db (rev es) (abst env db s') = Some (abst env db s)) \<and>
     validRevisions s' = validRevisions s \<and> nextRevisionId s' = nextRevisionId s \<and>
     (al_inv (st_access s) \<longrightarrow> al_inv (st_access s'))"

lemma tracks_refl [simp]: "tracks env db s s"
  by (simp add: tracks_def)

lemma tracks_trans [trans]:
  assumes "tracks env db s t" and "tracks env db t u"
  shows "tracks env db s u"
proof -
  obtain es fs where "entries t = entries s @ es" "unwind env db (rev es) (abst env db t) = Some (abst env db s)"
    and "entries u = entries t @ fs" "unwind env db (rev fs) (abst env db u) = Some (abst env db t)"
    using assms unfolding tracks_def by blast
  then have "entries u = entries s @ es @ fs" "unwind env db (rev (es @ fs)) (abst env db u) = Some (abst env db s)"
    by (simp_all add: unwind_append)
  then show ?thesis using assms unfolding tracks_def by auto
qed

lemma tracks_read:
  assumes "abst env db s' = abst env db s" and "sameJournal s s'"
  shows "tracks env db s s'"
proof -
  have "st_access s' = st_access s" using arg_cong [OF assms(1), of x_access] by simp
  then show ?thesis using assms by (simp add: tracks_def sameJournal_def)
qed

lemma tracks_entry:
  assumes "entries s' = entries s @ [e]" and "undo env db e (abst env db s') = Some (abst env db s)"
    and "validRevisions s' = validRevisions s" and "nextRevisionId s' = nextRevisionId s"
    and "al_inv (st_access s) \<Longrightarrow> al_inv (st_access s')"
  shows "tracks env db s s'"
  using assms unfolding tracks_def by (intro conjI exI [of _ "[e]"]) simp_all

lemma tracks_load [simp]: "tracks env db s (load env a s)"
  by (rule tracks_read) (simp_all add: sameJournal_def)

text \<open>Reads\<close>

lemma GetState_eq:
  "GetState env db a k s =
     (case live env s a of
        None \<Rightarrow> (0, load env a s)
      | Some ob \<Rightarrow> (fst (obj_GetState db k ob), setStateObject a (snd (obj_GetState db k ob)) (load env a s)))"
  by (simp add: GetState_def getStateObject_load case_prod_beta split: option.splits)

lemma abst_reput: "live env s a = Some ob \<Longrightarrow> view env db ob' = view env db ob \<Longrightarrow>
    xput a (view env db ob') (abst env db s) = abst env db s"
  by (rule xput_same) (auto simp: abst_obj dest: live_objAt)

lemma tracks_reput:
  assumes "live env s a = Some ob" and "view env db ob' = view env db ob"
  shows "tracks env db s (setStateObject a ob' (load env a s))"
  using abst_reput [OF assms] by (intro tracks_read) (simp_all add: sameJournal_def)

lemma tracks_GetState [simp]: "tracks env db s (snd (GetState env db a k s))"
  by (auto simp: GetState_eq tracks_reput split: option.splits)

lemma tracks_GetCommittedState [simp]: "tracks env db s (snd (GetCommittedState env db a k s))"
  by (auto simp: GetCommittedState_def getStateObject_load case_prod_beta tracks_reput split: option.splits)

lemma tracks_GetCode [simp]: "tracks env db s (snd (GetCode env db a s))"
  by (auto simp: GetCode_def getStateObject_load case_prod_beta tracks_reput split: option.splits)

lemma tracks_lookups [simp]:
  "tracks env db s (snd (Exist env a s))" "tracks env db s (snd (Empty env a s))"
  "tracks env db s (snd (GetCodeHash env a s))" "tracks env db s (snd (GetNonce env a s))"
  "tracks env db s (snd (HasSuicided env a s))" "tracks env db s (snd (GetCodeSize env db a s))"
  by (auto simp: GetCodeSize_def Exist_def Empty_def GetCodeHash_def GetNonce_def HasSuicided_def getStateObject_load
      split: option.splits)

lemma tracks_GetBalance [simp]: "tracks env db s (snd (GetBalance env db a s))"
  by (auto simp: GetBalance_def getStateObject_load case_prod_beta split: option.splits)

text \<open>Objects: after \<open>GetOrNewStateObject\<close> the object of the address is live.\<close>

lemma createObject_eq:
  "createObject env a s =
     (let ob = newObject env (emptyAccount env) in
      ((ob, objAt env s a),
       setStateObject a ob (journal_append (case objAt env s a of None \<Rightarrow> CreateObjectChange a
          | Some p \<Rightarrow> ResetObjectChange a p) (load env a s))))"
  by (simp add: createObject_def getDeletedStateObject_load obj_setNonce_def newObject_def emptyAccount_def
      emptyRoot_def Let_def)

lemma objAt_None: "objAt env s a = None \<Longrightarrow> stateObjects s a = None \<and> db_trie s a = None"
  by (auto simp: objAt_def split: option.splits)

lemma tracks_fresh:
  "tracks env db s (setStateObject a ob
     (journal_append (case objAt env s a of None \<Rightarrow> CreateObjectChange a | Some p \<Rightarrow> ResetObjectChange a p)
       (load env a s)))"
proof (cases "objAt env s a")
  case None
  then have "x_obj (abst env db s) a = None" by (simp add: abst_obj)
  then have "(abst env db s)\<lparr>x_obj := (x_obj (abst env db s))(a := None)\<rparr> = abst env db s"
    by (simp add: fun_upd_idem)
  with None objAt_None [OF None] show ?thesis
    by (intro tracks_entry [where e = "CreateObjectChange a"]) (simp_all add: xput_def)
next
  case (Some p)
  have "xput a (view env db p) (xput a (view env db ob) (abst env db s)) = abst env db s"
    using xput_same [of "abst env db s" a "view env db p"] Some by (simp add: xput_def abst_obj)
  with Some show ?thesis
    by (intro tracks_entry [where e = "ResetObjectChange a p"]) simp_all
qed

lemma tracks_CreateAccount [simp]: "tracks env db s (CreateAccount env a s)"
proof -
  have *: "setStateObject a ob' (setStateObject a ob s') = setStateObject a ob' s'" for ob ob' s'
    by (simp add: setStateObject_def)
  show ?thesis
    using tracks_fresh [of env db s a]
    by (auto simp: CreateAccount_def createObject_eq Let_def * split: option.splits)
qed

lemma GetOrNewStateObject_live:
  assumes "GetOrNewStateObject env a s = (ob, s')"
  shows "live env s' a = Some ob" "tracks env db s s'"
proof -
  show "live env s' a = Some ob"
    using assms by (auto simp: GetOrNewStateObject_def getStateObject_load createObject_eq Let_def
        live_def split: option.splits if_splits)
  show "tracks env db s s'"
    using assms tracks_trans [OF tracks_load [of env db s a] tracks_fresh [of env db "load env a s" a]]
    by (auto simp: GetOrNewStateObject_def getStateObject_load createObject_eq Let_def split: option.splits)
qed

lemma tracks_set:
  assumes "live env s a = Some ob"
    and "undo env db e (xput a (view env db ob') (abst env db s)) = Some (xput a (view env db ob) (abst env db s))"
  shows "tracks env db s (setStateObject a ob' (journal_append e s))"
  using assms abst_reput [OF assms(1) refl, of db] by (intro tracks_entry [where e = e]) simp_all

lemma xlive_xput [simp]: "xlive (xput a w X) a = (if v_deleted w then None else Some w)"
  by (simp add: xlive_def xput_def)

lemma xput_xput [simp]: "xput a w (xput a w' X) = xput a w X"
  by (simp add: xput_def)

lemma live_deleted: "live env s a = Some ob \<Longrightarrow> \<not> deleted ob"
  by (simp add: live_objAt)

lemma tracks_obj_SetBalance: "live env s a = Some ob \<Longrightarrow> tracks env db s (obj_SetBalance a ob b s)"
  unfolding obj_SetBalance_def by (rule tracks_set) (auto simp: xupdate_def live_deleted)

lemma tracks_obj_SetNonce: "live env s a = Some ob \<Longrightarrow> tracks env db s (obj_SetNonce a ob n s)"
  unfolding obj_SetNonce_def by (rule tracks_set) (auto simp: xupdate_def live_deleted)

lemma tracks_touch: "tracks env db s (obj_touch a s)"
  by (rule tracks_entry [where e = "TouchChange a"]) (simp_all add: obj_touch_def journal_dirty_def Let_def)

lemma tracks_obj_SetCode:
  assumes "live env s a = Some ob"
  shows "tracks env db s (obj_SetCode env db a ob h c s)"
  unfolding obj_SetCode_def case_prod_beta
  using assms loadCode_Code [of env db ob]
  by (intro tracks_set) (auto simp: xupdate_def live_deleted)

lemma tracks_obj_SetState:
  assumes "live env s a = Some ob"
  shows "tracks env db s (obj_SetState db a ob k v s)"
proof -
  have "tracks env db s (setStateObject a (snd (obj_GetState db k ob)) s)"
    using abst_reput [OF assms] by (intro tracks_read) (simp_all add: sameJournal_def)
  moreover have "tracks env db s (setStateObject a (obj_setState k v (snd (obj_GetState db k ob)))
      (journal_append (StorageChange a k (fst (obj_GetState db k ob))) s))"
    using assms by (intro tracks_set) (auto simp: xupdate_def live_deleted fun_upd_idem)
  ultimately show ?thesis by (simp add: obj_SetState_def case_prod_beta)
qed

lemma tracks_new:
  assumes "\<And>s ob. live env s a = Some ob \<Longrightarrow> tracks env db s (f ob s)"
  shows "tracks env db s (case GetOrNewStateObject env a s of (ob, s') \<Rightarrow> f ob s')"
proof (cases "GetOrNewStateObject env a s")
  case (Pair ob s')
  then show ?thesis
    using tracks_trans [OF GetOrNewStateObject_live(2) [OF Pair] assms [OF GetOrNewStateObject_live(1) [OF Pair]]]
    by simp
qed

lemma tracks_SetState [simp]: "tracks env db s (SetState env db a k v s)"
  unfolding SetState_def by (rule tracks_new) (rule tracks_obj_SetState)

lemma tracks_SetNonce [simp]: "tracks env db s (SetNonce env a n s)"
  unfolding SetNonce_def by (rule tracks_new) (rule tracks_obj_SetNonce)

lemma tracks_SetCode [simp]: "tracks env db s (SetCode env db a c s)"
  unfolding SetCode_def by (rule tracks_new) (rule tracks_obj_SetCode)

lemma tracks_updateSlot [simp]: "tracks env db s (updateSlot env db c k f s)"
  using tracks_trans [OF tracks_GetState tracks_SetState] by (simp add: updateSlot_def case_prod_beta)

lemma tracks_AddBalance [simp]: "tracks env db s (AddBalance env db a n s)"
  by (auto simp: AddBalance_def obj_AddBalance_def tracks_touch tracks_obj_SetBalance intro!: tracks_new)

lemma tracks_SubBalance [simp]: "tracks env db s (SubBalance env db a n s)"
  by (auto simp: SubBalance_def obj_SubBalance_def tracks_obj_SetBalance intro!: tracks_new)

lemma tracks_SetBalance [simp]: "tracks env db s (SetBalance env db a n s)"
  by (auto simp: SetBalance_def tracks_obj_SetBalance intro!: tracks_new)

lemma tracks_Boba [simp]:
  "tracks env db s (AddBobaBalance env db a n s)" "tracks env db s (SubBobaBalance env db a n s)"
  "tracks env db s (SetBobaAsFeeToken env db a s)" "tracks env db s (SetBobaPriceRatio env db n s)"
  "tracks env db s (snd (GetBobaBalance env db a s))" "tracks env db s (snd (GetFeeTokenSelection env db a s))"
  "tracks env db s (snd (GetBobaPriceRatio env db s))"
  by (simp_all add: AddBobaBalance_def SubBobaBalance_def SetBobaAsFeeToken_def SetBobaPriceRatio_def
      GetBobaBalance_def GetFeeTokenSelection_def GetBobaPriceRatio_def case_prod_beta)

lemma tracks_TuringCharge [simp]: "tracks env db s (snd (TuringCharge env db u s))"
  by (auto simp: TuringCharge_def Let_def case_prod_beta intro!: tracks_trans [OF _ tracks_SetState]
      tracks_trans [OF _ tracks_GetState])

lemma tracks_TuringCheck [simp]: "tracks env db s (snd (TuringCheck env db u s))"
  by (auto simp: TuringCheck_def Let_def case_prod_beta intro!: tracks_trans [OF _ tracks_GetState])

lemma tracks_Suicide [simp]: "tracks env db s (snd (Suicide env a s))"
proof (cases "live env s a")
  case (Some ob)
  have "tracks env db (load env a s) (setStateObject a (obj_setBalance 0 (ob\<lparr>suicided := True\<rparr>))
      (journal_append (SuicideChange a (suicided ob) (acc_Balance (so_data ob))) (load env a s)))"
    using Some by (intro tracks_set) (auto simp: xupdate_def live_deleted)
  with Some show ?thesis
    using tracks_trans [OF tracks_load] by (auto simp: Suicide_def getStateObject_load)
qed (simp add: Suicide_def getStateObject_load)

lemma tracks_AddRefund [simp]: "tracks env db s (AddRefund g s)"
  by (rule tracks_entry [where e = "RefundChange (st_refund s)"]) (simp_all add: AddRefund_def)

lemma tracks_SubRefund: "SubRefund g s = Ok s' \<Longrightarrow> tracks env db s s'"
  by (rule tracks_entry [where e = "RefundChange (st_refund s)"]) (auto simp: SubRefund_def split: if_splits)

lemma journal_append_more [simp]:
  "preimages (journal_append e s) = preimages s" "st_logs (journal_append e s) = st_logs s"
  by (simp_all add: journal_append_def journal_dirty_def Let_def split: option.splits)

lemma tracks_AddPreimage [simp]: "tracks env db s (AddPreimage h p s)"
proof (cases "preimages s h")
  case None
  then have "(preimages s)(h := None) = preimages s" by (simp add: fun_upd_idem)
  with None show ?thesis
    by (intro tracks_entry [where e = "AddPreimageChange h"]) (simp_all add: AddPreimage_def)
qed (simp add: AddPreimage_def)

lemma tracks_AddLog [simp]: "tracks env db s (AddLog l s)"
proof -
  have "(abst env db s)\<lparr>x_logs := (x_logs (abst env db s))(h := GetLogs h s), x_logSize := logSize s\<rparr> = abst env db s" for h
    by (simp add: abst_def fun_upd_idem)
  moreover have "abst env db ((journal_append e s)\<lparr>st_logs := (st_logs s)(h := v), logSize := n\<rparr>) =
      (abst env db s)\<lparr>x_logs := (x_logs (abst env db s))(h := case v of None \<Rightarrow> [] | Some l \<Rightarrow> l), x_logSize := n\<rparr>"
    for e h v n
    using abst_frame(4) [where s = "journal_append e s" and h = h and v = v] by simp
  ultimately show ?thesis
    by (intro tracks_entry [where e = "AddLogChange (thash s)"])
      (simp_all add: AddLog_def Let_def flip: GetLogs_def)
qed

lemma tracks_AddAddress [simp]: "tracks env db s (AddAddressToAccessList a s)"
proof (cases "AddAddress a (st_access s)")
  case (Pair new al)
  show ?thesis
  proof (cases new)
    case True
    with Pair have "DeleteAddress a al = st_access s" by (auto intro: DeleteAddress_AddAddress)
    with Pair True AddAddress_spec [OF _ Pair] show ?thesis
      by (intro tracks_entry [where e = "AccessListAddAccountChange a"])
        (simp_all add: AddAddressToAccessList_def)
  next
    case False
    then have "al = st_access s" using Pair by (auto simp: AddAddress_def split: option.splits)
    with Pair False show ?thesis by (simp add: AddAddressToAccessList_def)
  qed
qed

lemma tracks_fold_AddAddress [simp]: "tracks env db s (fold AddAddressToAccessList as s)"
  by (induction as arbitrary: s) (auto intro: tracks_trans [OF tracks_AddAddress])

lemma tracks_AddSlot:
  assumes "al_inv (st_access s)"
  shows "\<exists>s'. AddSlotToAccessList a slot s = Ok s' \<and> tracks env db s s'"
proof -
  obtain fresh new al where r: "AddSlot a slot (st_access s) = Ok ((fresh, new), al)" and inv: "al_inv al"
    using AddSlot_spec [OF assms, of a slot] by blast
  show ?thesis
  proof (cases new)
    case True
    let ?es = "(if fresh then [AccessListAddAccountChange a] else []) @ [AccessListAddSlotChange a slot]"
    let ?s = "journal_append (AccessListAddSlotChange a slot)
      (if fresh then journal_append (AccessListAddAccountChange a) (s\<lparr>st_access := al\<rparr>) else s\<lparr>st_access := al\<rparr>)"
    have "unwind env db (rev ?es) (abst env db ?s) = Some (abst env db s)"
      using DeleteSlot_AddSlot [OF assms, of a slot fresh al] r True
      by (cases fresh) (simp_all add: fun_upd_idem)
    then have "tracks env db s ?s"
      unfolding tracks_def by (intro conjI exI [of _ ?es]) (simp_all add: inv)
    with r True show ?thesis by (simp add: AddSlotToAccessList_def Let_def)
  next
    case False
    with r have "al = st_access s" "\<not> fresh"
      by (auto simp: AddSlot_def res_map_eq_Ok Let_def split: option.splits if_splits)
    with r False show ?thesis by (simp add: AddSlotToAccessList_def)
  qed
qed

lemma tracks_addSlots:
  "al_inv (st_access s) \<Longrightarrow> \<exists>s'. addSlots a ks s = Ok s' \<and> tracks env db s s'"
proof (induction ks arbitrary: s)
  case (Cons k ks)
  obtain t where t: "AddSlotToAccessList a k s = Ok t" "tracks env db s t"
    using tracks_AddSlot [OF Cons.prems] by blast
  then have "al_inv (st_access t)" using Cons.prems by (simp add: tracks_def)
  with Cons.IH t show ?case using tracks_trans [OF t(2)] by fastforce
qed simp

lemma tracks_addTuples:
  "al_inv (st_access s) \<Longrightarrow> \<exists>s'. addTuples l s = Ok s' \<and> tracks env db s s'"
proof (induction l arbitrary: s)
  case (Cons p l)
  obtain a ks where p: "p = (a, ks)" by fastforce
  have *: "tracks env db s (AddAddressToAccessList a s)" by simp
  then have "al_inv (st_access (AddAddressToAccessList a s))" using Cons.prems by (simp add: tracks_def)
  from tracks_addSlots [OF this] obtain t
    where t: "addSlots a ks (AddAddressToAccessList a s) = Ok t" "tracks env db (AddAddressToAccessList a s) t"
    by blast
  from tracks_trans [OF * t(2)] have st: "tracks env db s t" .
  then have "al_inv (st_access t)" using Cons.prems by (simp add: tracks_def)
  with Cons.IH t(1) show ?case using tracks_trans [OF st] by (fastforce simp: p)
qed simp

lemma tracks_PrepareAccessList:
  assumes "al_inv (st_access s)"
  shows "\<exists>s'. PrepareAccessList sender dst pre l s = Ok s' \<and> tracks env db s s'"
proof -
  let ?s1 = "AddAddressToAccessList sender s"
  let ?s2 = "case dst of None \<Rightarrow> ?s1 | Some d \<Rightarrow> AddAddressToAccessList d ?s1"
  let ?s3 = "fold AddAddressToAccessList pre ?s2"
  have "tracks env db s ?s2" by (auto intro: tracks_trans [OF tracks_AddAddress tracks_AddAddress] split: option.splits)
  then have *: "tracks env db s ?s3" by (rule tracks_trans) simp
  then have "al_inv (st_access ?s3)" using assms by (simp add: tracks_def)
  from tracks_addTuples [OF this] obtain t where "addTuples l ?s3 = Ok t" "tracks env db ?s3 t" by blast
  with tracks_trans [OF *] show ?thesis by (auto simp: PrepareAccessList_def Let_def)
qed

section \<open>Sequences of operations\<close>

text \<open>The operations of the interface \<open>vm.StateDB\<close>.\<close>

datatype stateOp =
    OpCreateAccount addr | OpSubBalance addr int | OpAddBalance addr int | OpGetBalance addr
  | OpTuringCharge addr | OpTuringCheck addr
  | OpSubBobaBalance addr int | OpAddBobaBalance addr int | OpGetBobaBalance addr
  | OpGetFeeTokenSelection addr | OpGetBobaPriceRatio
  | OpGetNonce addr | OpSetNonce addr u64
  | OpGetCodeHash addr | OpGetCode addr | OpSetCode addr "bytes option" | OpGetCodeSize addr
  | OpAddRefund u64 | OpSubRefund u64
  | OpGetCommittedState addr hash | OpGetState addr hash | OpSetState addr hash hash
  | OpSuicide addr | OpHasSuicided addr | OpExist addr | OpEmpty addr
  | OpPrepareAccessList addr "addr option" "addr list" "(addr \<times> hash list) list"
  | OpAddAddressToAccessList addr | OpAddSlotToAccessList addr hash
  | OpRevertToSnapshot nat | OpSnapshot
  | OpAddLog Log | OpAddPreimage hash bytes

fun execOp :: "RollupEnv \<Rightarrow> Database \<Rightarrow> stateOp \<Rightarrow> StateDB \<Rightarrow> StateDB res" where
  "execOp env db (OpCreateAccount a) s = Ok (CreateAccount env a s)"
| "execOp env db (OpSubBalance a n) s = Ok (SubBalance env db a n s)"
| "execOp env db (OpAddBalance a n) s = Ok (AddBalance env db a n s)"
| "execOp env db (OpGetBalance a) s = Ok (snd (GetBalance env db a s))"
| "execOp env db (OpTuringCharge u) s = Ok (snd (TuringCharge env db u s))"
| "execOp env db (OpTuringCheck u) s = Ok (snd (TuringCheck env db u s))"
| "execOp env db (OpSubBobaBalance a n) s = Ok (SubBobaBalance env db a n s)"
| "execOp env db (OpAddBobaBalance a n) s = Ok (AddBobaBalance env db a n s)"
| "execOp env db (OpGetBobaBalance a) s = Ok (snd (GetBobaBalance env db a s))"
| "execOp env db (OpGetFeeTokenSelection a) s = Ok (snd (GetFeeTokenSelection env db a s))"
| "execOp env db OpGetBobaPriceRatio s = Ok (snd (GetBobaPriceRatio env db s))"
| "execOp env db (OpGetNonce a) s = Ok (snd (GetNonce env a s))"
| "execOp env db (OpSetNonce a n) s = Ok (SetNonce env a n s)"
| "execOp env db (OpGetCodeHash a) s = Ok (snd (GetCodeHash env a s))"
| "execOp env db (OpGetCode a) s = Ok (snd (GetCode env db a s))"
| "execOp env db (OpSetCode a c) s = Ok (SetCode env db a c s)"
| "execOp env db (OpGetCodeSize a) s = Ok (snd (GetCodeSize env db a s))"
| "execOp env db (OpAddRefund g) s = Ok (AddRefund g s)"
| "execOp env db (OpSubRefund g) s = SubRefund g s"
| "execOp env db (OpGetCommittedState a k) s = Ok (snd (GetCommittedState env db a k s))"
| "execOp env db (OpGetState a k) s = Ok (snd (GetState env db a k s))"
| "execOp env db (OpSetState a k v) s = Ok (SetState env db a k v s)"
| "execOp env db (OpSuicide a) s = Ok (snd (Suicide env a s))"
| "execOp env db (OpHasSuicided a) s = Ok (snd (HasSuicided env a s))"
| "execOp env db (OpExist a) s = Ok (snd (Exist env a s))"
| "execOp env db (OpEmpty a) s = Ok (snd (Empty env a s))"
| "execOp env db (OpPrepareAccessList a dst pre l) s = PrepareAccessList a dst pre l s"
| "execOp env db (OpAddAddressToAccessList a) s = Ok (AddAddressToAccessList a s)"
| "execOp env db (OpAddSlotToAccessList a k) s = AddSlotToAccessList a k s"
| "execOp env db (OpRevertToSnapshot i) s = RevertToSnapshot env i s"
| "execOp env db OpSnapshot s = Ok (snd (Snapshot s))"
| "execOp env db (OpAddLog l) s = Ok (AddLog l s)"
| "execOp env db (OpAddPreimage h p) s = Ok (AddPreimage h p s)"

fun runOps :: "RollupEnv \<Rightarrow> Database \<Rightarrow> stateOp list \<Rightarrow> StateDB \<Rightarrow> StateDB res" where
  "runOps env db [] s = Ok s"
| "runOps env db (p # ps) s = res_bind (execOp env db p s) (runOps env db ps)"

lemma execOp_tracks:
  assumes "execOp env db p s = Ok s'" and "al_inv (st_access s)"
    and "p \<noteq> OpSnapshot" and "\<And>i. p \<noteq> OpRevertToSnapshot i"
  shows "tracks env db s s'"
proof (cases p)
  case (OpPrepareAccessList a dst pre l)
  with assms(1) tracks_PrepareAccessList [OF assms(2), of a dst pre l env db] show ?thesis by auto
next
  case (OpAddSlotToAccessList a k)
  with assms(1) tracks_AddSlot [OF assms(2), of a k env db] show ?thesis by auto
qed (use assms in \<open>auto intro: tracks_SubRefund\<close>)

section \<open>Snapshots that are still valid\<close>

definition revOk :: "RollupEnv \<Rightarrow> Database \<Rightarrow> StateDB \<Rightarrow> bool" where
  "revOk env db s \<longleftrightarrow> al_inv (st_access s) \<and> sorted_wrt (<) (map fst (validRevisions s)) \<and>
     sorted (map snd (validRevisions s)) \<and>
     (\<forall>(i, n) \<in> set (validRevisions s). i < nextRevisionId s \<and> n \<le> length (entries s) \<and>
        (\<exists>X. unwind env db (rev (drop n (entries s))) (abst env db s) = Some X \<and> al_inv (x_access X)))"

lemma revOk_tracks:
  assumes "tracks env db s s'" and "revOk env db s"
  shows "revOk env db s'"
proof -
  obtain es where "entries s' = entries s @ es" "unwind env db (rev es) (abst env db s') = Some (abst env db s)"
    using assms(1) unfolding tracks_def by blast
  with assms show ?thesis by (fastforce simp: revOk_def tracks_def unwind_append)
qed

lemma revOkD:
  assumes "revOk env db s" and "(i, n) \<in> set (validRevisions s)"
  shows "i < nextRevisionId s" "n \<le> length (entries s)"
    "\<exists>X. unwind env db (rev (drop n (entries s))) (abst env db s) = Some X \<and> al_inv (x_access X)"
  using assms unfolding revOk_def by blast+

lemma revOk_nth:
  assumes "revOk env db s" and "k < l" and "l < length (validRevisions s)"
  shows "fst (validRevisions s ! k) < fst (validRevisions s ! l)"
    "snd (validRevisions s ! k) \<le> snd (validRevisions s ! l)"
proof -
  have "sorted_wrt (<) (map fst (validRevisions s))" "sorted (map snd (validRevisions s))"
    using assms(1) unfolding revOk_def by blast+
  then show "fst (validRevisions s ! k) < fst (validRevisions s ! l)"
    "snd (validRevisions s ! k) \<le> snd (validRevisions s ! l)"
    using assms(2,3) by (simp_all add: sorted_wrt_iff_nth_less)
qed

lemma revOk_Snapshot:
  assumes "revOk env db s"
  shows "revOk env db (snd (Snapshot s))"
proof -
  let ?s = "snd (Snapshot s)"
  have f: "validRevisions ?s = validRevisions s @ [(nextRevisionId s, length (entries s))]"
    "nextRevisionId ?s = nextRevisionId s + 1" "entries ?s = entries s" "st_access ?s = st_access s"
    "abst env db ?s = abst env db s"
    by (simp_all add: Snapshot_def Let_def)
  have "sorted_wrt (<) (map fst (validRevisions ?s))" "sorted (map snd (validRevisions ?s))"
    using assms revOkD(1,2) [OF assms] unfolding f revOk_def by (auto simp: sorted_wrt_append)
  moreover have "al_inv (st_access s)" using assms by (simp add: revOk_def)
  ultimately show ?thesis
    using revOkD [OF assms] unfolding revOk_def f by (auto simp: less_Suc_eq)
qed

declare searchLoop.simps [simp del]

lemma searchLoop_spec:
  assumes "i \<le> j" and "j \<le> n" and "\<forall>k < i. \<not> f k" and "\<forall>k. j \<le> k \<and> k < n \<longrightarrow> f k"
    and "\<forall>k l. f k \<and> k \<le> l \<and> l < n \<longrightarrow> f l"
  shows "searchLoop f i j \<le> n \<and> (\<forall>k < searchLoop f i j. \<not> f k) \<and>
    (\<forall>k. searchLoop f i j \<le> k \<and> k < n \<longrightarrow> f k)"
  using assms
proof (induction f i j rule: searchLoop.induct)
  case (1 f i j)
  let ?h = "(i + j) div 2"
  consider "\<not> i < j" | "i < j" "\<not> f ?h" | "i < j" "f ?h" by blast
  then show ?case
  proof cases
    case 1
    then have "searchLoop f i j = i" by (simp add: searchLoop.simps [of f i j])
    with 1 "1.prems" show ?thesis by simp
  next
    case 2
    then have h: "?h < j" "?h < n" using "1.prems" by auto
    have lo: "\<forall>k < ?h + 1. \<not> f k" using 2 h "1.prems"(5) by (metis Suc_eq_plus1 less_Suc_eq_le)
    have e: "searchLoop f i j = searchLoop f (?h + 1) j" using 2 by (simp add: searchLoop.simps [of f i j])
    have le: "?h + 1 \<le> j" using h by simp
    show ?thesis unfolding e by (rule "1.IH"(1) [OF 2(1) refl 2(2) le "1.prems"(2) lo "1.prems"(4,5)])
  next
    case 3
    then have h: "i \<le> ?h" "?h \<le> n" using "1.prems" by auto
    have hi: "\<forall>k. ?h \<le> k \<and> k < n \<longrightarrow> f k" using 3 "1.prems"(5) by blast
    have e: "searchLoop f i j = searchLoop f i ?h" using 3 by (simp add: searchLoop.simps [of f i j])
    have nn: "\<not> \<not> f ?h" using 3 by simp
    show ?thesis unfolding e by (rule "1.IH"(2) [OF 3(1) refl nn h "1.prems"(3) hi "1.prems"(5)])
  qed
qed

lemma sortSearch_ids:
  fixes rs :: "(nat \<times> nat) list"
  assumes "sorted_wrt (<) (map fst rs)" and "j < length rs"
  shows "sortSearch (length rs) (\<lambda>i. fst (rs ! j) \<le> fst (rs ! i)) = j"
proof -
  have lt: "fst (rs ! k) < fst (rs ! l)" if "k < l" "l < length rs" for k l
    using assms(1) that by (simp add: sorted_wrt_iff_nth_less)
  let ?f = "\<lambda>i. fst (rs ! j) \<le> fst (rs ! i)" and ?r = "sortSearch (length rs) (\<lambda>i. fst (rs ! j) \<le> fst (rs ! i))"
  have mono: "\<forall>k l. ?f k \<and> k \<le> l \<and> l < length rs \<longrightarrow> ?f l"
  proof (intro allI impI)
    fix k l
    assume "?f k \<and> k \<le> l \<and> l < length rs"
    then show "?f l" using lt [of k l] by (cases "k = l") auto
  qed
  have "?r \<le> length rs \<and> (\<forall>k < ?r. \<not> ?f k) \<and> (\<forall>k. ?r \<le> k \<and> k < length rs \<longrightarrow> ?f k)"
    unfolding sortSearch_def by (rule searchLoop_spec [where f = ?f, OF _ _ _ _ mono]) simp_all
  then have r: "\<not> j < ?r" "?r < length rs \<Longrightarrow> ?f ?r" by blast+
  have "\<not> ?r < j" using r(2) lt [of ?r j] assms(2) by fastforce
  with r(1) have "?r = j" by simp
  then show ?thesis by simp
qed

lemma RevertToSnapshot_valid:
  assumes "revOk env db s" and "j < length (validRevisions s)" and "validRevisions s ! j = (revid, n)"
  shows "\<exists>s'. RevertToSnapshot env revid s = Ok s' \<and> validRevisions s' = take j (validRevisions s) \<and>
    entries s' = take n (entries s) \<and> nextRevisionId s' = nextRevisionId s \<and>
    unwind env db (rev (drop n (entries s))) (abst env db s) = Some (abst env db s') \<and> al_inv (st_access s')"
proof -
  have idx: "sortSearch (length (validRevisions s)) (\<lambda>i. revid \<le> fst (validRevisions s ! i)) = j"
    using sortSearch_ids [of "validRevisions s" j] assms by (simp add: revOk_def)
  have "(revid, n) \<in> set (validRevisions s)" using assms by (metis nth_mem)
  then obtain X where X: "unwind env db (rev (drop n (entries s))) (abst env db s) = Some X" "al_inv (x_access X)"
    using revOkD(3) [OF assms(1)] by blast
  obtain t where "revertLoop env (rev (drop n (entries s))) s = Ok t" "abst env db t = X" "sameJournal s t"
    using revertLoop_unwind [OF X(1)] by blast
  with idx assms(2,3) X show ?thesis
    by (auto simp: RevertToSnapshot_def journal_revert_def sameJournal_def)
qed

lemma RevertToSnapshot_Ok:
  assumes "RevertToSnapshot env revid s = Ok s'"
  shows "\<exists>j n. j < length (validRevisions s) \<and> validRevisions s ! j = (revid, n)"
proof -
  let ?rs = "validRevisions s"
  let ?j = "sortSearch (length ?rs) (\<lambda>i. revid \<le> fst (?rs ! i))"
  have "?j \<le> length ?rs"
  proof -
    have le: "searchLoop f i j \<le> n" if "i \<le> n" "j \<le> n" for f i j n
      using that by (induction f i j rule: searchLoop.induct) (subst searchLoop.simps, auto simp: Let_def)
    show ?thesis by (simp add: sortSearch_def le)
  qed
  then show ?thesis
    using assms by (intro exI [of _ ?j] exI [of _ "snd (?rs ! ?j)"])
      (auto simp: RevertToSnapshot_def Let_def prod_eq_iff split: if_splits)
qed

text \<open>What is remembered of one snapshot, as long as its identifier is valid.\<close>

definition remembers :: "RollupEnv \<Rightarrow> Database \<Rightarrow> nat \<Rightarrow> StateDB \<Rightarrow> StateDB \<Rightarrow> bool" where
  "remembers env db revid s0 s \<longleftrightarrow> revid < nextRevisionId s \<and>
     (revid \<in> fst ` set (validRevisions s) \<longrightarrow>
        (\<exists>rest es. validRevisions s = validRevisions s0 @ (revid, length (entries s0)) # rest \<and>
           entries s = entries s0 @ es \<and> unwind env db (rev es) (abst env db s) = Some (abst env db s0)))"

lemma remembers_tracks:
  assumes "tracks env db s s'" and "remembers env db revid s0 s"
  shows "remembers env db revid s0 s'"
proof -
  obtain fs where "entries s' = entries s @ fs" "unwind env db (rev fs) (abst env db s') = Some (abst env db s)"
    using assms(1) unfolding tracks_def by blast
  with assms show ?thesis by (fastforce simp: remembers_def tracks_def unwind_append)
qed

lemma remembers_Snapshot:
  "remembers env db revid s0 s \<Longrightarrow> remembers env db revid s0 (snd (Snapshot s))"
  by (auto simp: remembers_def Snapshot_def Let_def)

lemma remembers_revert:
  assumes "remembers env db revid s0 s" and "revOk env db s"
    and "j < length (validRevisions s)" and "validRevisions s ! j = (i, n)"
    and s': "validRevisions s' = take j (validRevisions s)" "entries s' = take n (entries s)"
      "nextRevisionId s' = nextRevisionId s"
      "unwind env db (rev (drop n (entries s))) (abst env db s) = Some (abst env db s')"
  shows "remembers env db revid s0 s'"
proof (cases "revid \<in> fst ` set (validRevisions s')")
  case True
  then have "revid \<in> fst ` set (validRevisions s)" unfolding s'(1) by (auto dest: in_set_takeD)
  then obtain rest es where r: "validRevisions s = validRevisions s0 @ (revid, length (entries s0)) # rest"
    "entries s = entries s0 @ es" "unwind env db (rev es) (abst env db s) = Some (abst env db s0)"
    using assms(1) unfolding remembers_def by blast
  let ?l = "length (validRevisions s0)"
  have "\<not> j \<le> ?l"
  proof
    assume "j \<le> ?l"
    obtain k where "k < j" "fst (validRevisions s ! k) = revid"
      using True unfolding s'(1) by (fastforce simp: in_set_conv_nth)
    moreover have "k < ?l" using \<open>k < j\<close> \<open>j \<le> ?l\<close> by simp
    moreover have "fst (validRevisions s ! ?l) = revid" "?l < length (validRevisions s)" by (simp_all add: r(1))
    ultimately show False using revOk_nth(1) [OF assms(2), of k ?l] by simp
  qed
  then have l: "?l < j" by simp
  then have "snd (validRevisions s ! ?l) \<le> snd (validRevisions s ! j)"
    by (rule revOk_nth(2) [OF assms(2) _ assms(3)])
  then have n: "length (entries s0) \<le> n" using assms(4) by (simp add: r(1))
  let ?m = "n - length (entries s0)"
  have d: "drop n (entries s) = drop ?m es" "entries s' = entries s0 @ take ?m es"
    using n by (simp_all add: r(2) s'(2))
  have "rev es = rev (drop ?m es) @ rev (take ?m es)" by (simp flip: rev_append)
  then have "unwind env db (rev (take ?m es)) (abst env db s') = Some (abst env db s0)"
    using r(3) s'(4) by (simp add: d(1) unwind_append)
  moreover obtain q where "j - ?l = Suc q" using l by (cases "j - ?l") auto
  then have "validRevisions s' = validRevisions s0 @ (revid, length (entries s0)) # take q rest"
    using l by (simp add: s'(1) r(1))
  ultimately show ?thesis using d(2) assms(1) s'(3) by (auto simp: remembers_def)
next
  case False
  with assms(1) s'(3) show ?thesis by (simp add: remembers_def)
qed

lemma revOk_revert:
  assumes "revOk env db s" and "j < length (validRevisions s)" and "validRevisions s ! j = (i, n)"
    and s': "validRevisions s' = take j (validRevisions s)" "entries s' = take n (entries s)"
      "nextRevisionId s' = nextRevisionId s"
      "unwind env db (rev (drop n (entries s))) (abst env db s) = Some (abst env db s')" "al_inv (st_access s')"
  shows "revOk env db s'"
proof -
  have sorted: "sorted_wrt (<) (map fst (validRevisions s'))" "sorted (map snd (validRevisions s'))"
    using assms(1) unfolding s'(1) revOk_def by (simp_all add: sorted_wrt_take flip: take_map)
  have "i' < nextRevisionId s' \<and> n' \<le> length (entries s') \<and>
      (\<exists>X. unwind env db (rev (drop n' (entries s'))) (abst env db s') = Some X \<and> al_inv (x_access X))"
    if in': "(i', n') \<in> set (validRevisions s')" for i' n'
  proof -
    obtain k where k: "k < j" "validRevisions s ! k = (i', n')"
      using in' unfolding s'(1) by (auto simp: in_set_conv_nth)
    then have "n' \<le> n" using revOk_nth(2) [OF assms(1) k(1) assms(2)] assms(3) by simp
    have in1: "(i', n') \<in> set (validRevisions s)" using in' unfolding s'(1) by (rule in_set_takeD)
    have "rev (drop n' (entries s)) = rev (drop n (entries s)) @ rev (drop n' (entries s'))"
    proof -
      have "drop n' (entries s) = drop n' (take n (entries s) @ drop n (entries s))" by simp
      also have "\<dots> = drop n' (take n (entries s)) @ drop n (entries s)"
        using \<open>n' \<le> n\<close> revOkD(2) [OF assms(1) in1] by (simp only: drop_append) simp
      finally show ?thesis by (simp add: s'(2))
    qed
    with revOkD [OF assms(1) in1] \<open>n' \<le> n\<close> s'(2-4) show ?thesis by (simp add: unwind_append)
  qed
  with sorted s'(5) show ?thesis unfolding revOk_def by blast
qed

lemma execOp_keeps:
  assumes "execOp env db p s = Ok s'" and "revOk env db s"
  shows "revOk env db s' \<and> (remembers env db revid s0 s \<longrightarrow> remembers env db revid s0 s')"
proof (cases "p = OpSnapshot \<or> (\<exists>i. p = OpRevertToSnapshot i)")
  case False
  then have "tracks env db s s'" using assms by (auto intro: execOp_tracks simp: revOk_def)
  then show ?thesis using assms(2) revOk_tracks remembers_tracks by blast
next
  case True
  then consider "p = OpSnapshot" | i where "p = OpRevertToSnapshot i" by blast
  then show ?thesis
  proof cases
    case 1
    then show ?thesis using assms revOk_Snapshot remembers_Snapshot by auto
  next
    case (2 i)
    then have r: "RevertToSnapshot env i s = Ok s'" using assms(1) by simp
    then obtain j n where j: "j < length (validRevisions s)" "validRevisions s ! j = (i, n)"
      using RevertToSnapshot_Ok by blast
    from RevertToSnapshot_valid [OF assms(2) j] r
    have s': "validRevisions s' = take j (validRevisions s)" "entries s' = take n (entries s)"
      "nextRevisionId s' = nextRevisionId s" "al_inv (st_access s')"
      "unwind env db (rev (drop n (entries s))) (abst env db s) = Some (abst env db s')" by auto
    show ?thesis
      using revOk_revert [OF assms(2) j s'(1-3,5,4)] remembers_revert [OF _ assms(2) j s'(1-3,5)] by blast
  qed
qed

lemma runOps_keeps:
  "runOps env db ps s = Ok s' \<Longrightarrow> revOk env db s \<Longrightarrow>
     revOk env db s' \<and> (remembers env db revid s0 s \<longrightarrow> remembers env db revid s0 s')"
proof (induction ps arbitrary: s)
  case (Cons p ps)
  then obtain t where "execOp env db p s = Ok t" "runOps env db ps t = Ok s'" by (auto simp: res_bind_eq_Ok)
  with Cons.IH [of t] execOp_keeps [of env db p s t revid s0] Cons.prems(2) show ?case by blast
qed simp

section \<open>States in use\<close>

text \<open>
  A state is opened, prepared before every transaction (when no snapshot is open), changed through
  the interface, finalised and reset.
\<close>

inductive usable :: "RollupEnv \<Rightarrow> Database \<Rightarrow> StateDB \<Rightarrow> bool" for env db where
  usable_New: "usable env db (NewStateDB tr)"
| usable_Op: "usable env db s \<Longrightarrow> execOp env db p s = Ok s' \<Longrightarrow> usable env db s'"
| usable_Finalise: "usable env db s \<Longrightarrow> usable env db (Finalise env b s)"
| usable_Prepare: "usable env db s \<Longrightarrow> validRevisions s = [] \<Longrightarrow> usable env db (Prepare th bh ti s)"
| usable_Reset: "usable env db s \<Longrightarrow> usable env db (Reset tr s)"

lemma revOk_closed: "al_inv (st_access s) \<Longrightarrow> validRevisions s = [] \<Longrightarrow> revOk env db s"
  by (simp add: revOk_def)

lemma usable_revOk: "usable env db s \<Longrightarrow> revOk env db s"
proof (induction rule: usable.induct)
  case (usable_Op s p s')
  then show ?case using execOp_keeps by blast
next
  case (usable_Finalise s b)
  have "validRevisions (Finalise env b s) = []" "st_access (Finalise env b s) = st_access s"
    by (simp_all add: Finalise_def clearJournalAndRefund_def Let_def)
  with usable_Finalise show ?case by (auto simp: revOk_def)
qed (auto intro!: revOk_closed simp: NewStateDB_def Prepare_def Reset_def clearJournalAndRefund_def Let_def)

lemma snapshot_restores:
  assumes "usable env db s" and "Snapshot s = (revid, s1)" and "runOps env db ops s1 = Ok s2"
    and "revid \<in> fst ` set (validRevisions s2)"
  shows "\<exists>s3. RevertToSnapshot env revid s2 = Ok s3 \<and> abst env db s3 = abst env db s \<and>
    entries s3 = entries s \<and> validRevisions s3 = validRevisions s"
proof -
  have ok: "revOk env db s1" using revOk_Snapshot [OF usable_revOk [OF assms(1)]] assms(2) by simp
  have "remembers env db revid s s1" using assms(2) by (auto simp: remembers_def Snapshot_def Let_def)
  then have ok2: "revOk env db s2" and "remembers env db revid s s2"
    using runOps_keeps [OF assms(3) ok, of revid s] by blast+
  then obtain rest es where r: "validRevisions s2 = validRevisions s @ (revid, length (entries s)) # rest"
    "entries s2 = entries s @ es" "unwind env db (rev es) (abst env db s2) = Some (abst env db s)"
    using assms(4) unfolding remembers_def by blast
  have j: "length (validRevisions s) < length (validRevisions s2)"
    "validRevisions s2 ! length (validRevisions s) = (revid, length (entries s))"
    by (simp_all add: r(1))
  from RevertToSnapshot_valid [OF ok2 j] r show ?thesis by auto
qed

section \<open>Properties\<close>

text \<open>
  C2: take a snapshot of any state in use and run any sequence of operations of the interface, nested
  snapshots and reverts included. As long as the identifier is still valid, reverting to it succeeds
  and restores the abstract state, the journal and the list of valid snapshots of the moment the
  snapshot was taken.
\<close>

theorem snapshot_revert:
  assumes "usable env db s" and "Snapshot s = (revid, s1)" and "runOps env db ops s1 = Ok s2"
    and "revid \<in> fst ` set (validRevisions s2)"
  shows "\<exists>s3. RevertToSnapshot env revid s2 = Ok s3 \<and> abst env db s3 = abst env db s \<and>
    entries s3 = entries s \<and> validRevisions s3 = validRevisions s"
  using assms by (rule snapshot_restores)

text \<open>
  C12: in a state in use, reverting succeeds exactly for the identifiers of the valid snapshots; the
  binary search finds each of them and undoing the journal never dereferences a missing object.
\<close>

theorem revert_defined:
  assumes "usable env db s"
  shows "(\<exists>s'. RevertToSnapshot env revid s = Ok s') \<longleftrightarrow> revid \<in> fst ` set (validRevisions s)"
proof
  assume "\<exists>s'. RevertToSnapshot env revid s = Ok s'"
  then obtain j n where j: "j < length (validRevisions s)" "validRevisions s ! j = (revid, n)"
    using RevertToSnapshot_Ok by blast
  then have "(revid, n) \<in> set (validRevisions s)" by (metis nth_mem)
  then show "revid \<in> fst ` set (validRevisions s)" by force
next
  assume "revid \<in> fst ` set (validRevisions s)"
  then obtain j n where "j < length (validRevisions s)" "validRevisions s ! j = (revid, n)"
    by (auto simp: in_set_conv_nth)
  then show "\<exists>s'. RevertToSnapshot env revid s = Ok s'"
    using RevertToSnapshot_valid [OF usable_revOk [OF assms]] by blast
qed

definition sampleEnv :: RollupEnv where
  "sampleEnv = \<lparr>UsingOVM = True, OvmTuringCreditAddress = 7, OvmBobaGasPricOracle = 8, OvmL2BobaToken = 9,
     keccak = (\<lambda>bs. of_nat (be_val (take 32 bs) * 16 + be_val (drop 32 bs)))\<rparr>"

definition sampleDb :: Database where
  "sampleDb = \<lparr>ContractCode = (\<lambda>_. None), StorageTrie = (\<lambda>_ _. 0)\<rparr>"

lemmas sample_simps = NewStateDB_def Snapshot_def SetState_def GetOrNewStateObject_def getStateObject_def
  getDeletedStateObject_def createObject_def obj_SetState_def obj_GetState_def obj_GetCommittedState_def
  obj_setState_def obj_setNonce_def setStateObject_def newObject_def emptyAccount_def getTrie_def
  journal_append_def journal_dirty_def dirtyCount_def RevertToSnapshot_def journal_revert_def journal_undirty_def
  revertObject_def sortSearch_def searchLoop.simps AddRefund_def Let_def

lemma snapshot_revert_witness:
  "\<exists>s2 s3. runOps sampleEnv sampleDb
       [OpSetState 1 2 3, OpSnapshot, OpSetState 1 2 4, OpRevertToSnapshot 1, OpAddRefund 5]
       (snd (Snapshot (NewStateDB Map.empty))) = Ok s2 \<and>
     RevertToSnapshot sampleEnv 0 s2 = Ok s3 \<and>
     abst sampleEnv sampleDb s3 = abst sampleEnv sampleDb (NewStateDB Map.empty)"
proof -
  let ?s = "NewStateDB Map.empty"
  obtain s2 where s2: "runOps sampleEnv sampleDb
      [OpSetState 1 2 3, OpSnapshot, OpSetState 1 2 4, OpRevertToSnapshot 1, OpAddRefund 5] (snd (Snapshot ?s)) = Ok s2"
    and v: "0 \<in> fst ` set (validRevisions s2)"
    by (simp add: sample_simps sampleDb_def)
  obtain s3 where "RevertToSnapshot sampleEnv 0 s2 = Ok s3" "abst sampleEnv sampleDb s3 = abst sampleEnv sampleDb ?s"
    using snapshot_revert [OF usable_New _ s2 v] by (auto simp: Snapshot_def NewStateDB_def Let_def)
  with s2 show ?thesis by blast
qed

lemma revert_defined_witness:
  "\<exists>s'. RevertToSnapshot sampleEnv 0 (snd (Snapshot (NewStateDB Map.empty))) = Ok s'"
proof -
  have "usable sampleEnv sampleDb (snd (Snapshot (NewStateDB Map.empty)))"
    by (rule usable_Op [OF usable_New, where p = OpSnapshot]) simp
  from revert_defined [OF this, of 0] show ?thesis by (simp add: Snapshot_def NewStateDB_def Let_def)
qed

end
