(* ===== verification/StateDB_Balance.thy ===== *)
theory StateDB_Balance
  imports StateDB_Revert
begin

text \<open>
  Balances kept in contract storage (\<open>l2geth/core/state/statedb.go\<close>): what a slot holds after a write,
  the ETH and the BOBA balances as two instances of one ledger, and the transfer of Turing credit.
\<close>

section \<open>Storage slots\<close>

definition slotOf :: "absState \<Rightarrow> addr \<Rightarrow> hash \<Rightarrow> hash" where
  "slotOf X c k = (case xlive X c of None \<Rightarrow> 0 | Some w \<Rightarrow> v_storage w k)"

text \<open>The empty storage trie has no entries.\<close>

definition emptyTrieOk :: "Database \<Rightarrow> bool" where
  "emptyTrieOk db \<longleftrightarrow> StorageTrie db emptyRoot = (\<lambda>_. 0)"

lemma fst_GetState: "fst (GetState env db c k s) = slotOf (abst env db s) c k"
  by (auto simp: GetState_eq slotOf_def xlive_abst split: option.splits)

lemma abst_GetState [simp]: "abst env db (snd (GetState env db c k s)) = abst env db s"
  by (auto simp: GetState_eq abst_reput split: option.splits)

lemma xlive_xput_other [simp]: "c' \<noteq> c \<Longrightarrow> xlive (xput c w X) c' = xlive X c'"
  by (simp add: xlive_def xput_def)

lemma view_newObject_storage: "v_storage (view env db (newObject env (emptyAccount env))) = StorageTrie db emptyRoot"
  by (simp add: view_def obj_GetState_def obj_GetCommittedState_def newObject_def emptyAccount_def getTrie_def Let_def
      fun_eq_iff)

lemma GetOrNewStateObject_slot:
  assumes "GetOrNewStateObject env c s = (ob, s')" and "emptyTrieOk db"
  shows "slotOf (abst env db s') = slotOf (abst env db s)"
proof (cases "live env s c")
  case None
  then have "s' = setStateObject c ob (journal_append (case objAt env (load env c s) c of None \<Rightarrow> CreateObjectChange c
      | Some p \<Rightarrow> ResetObjectChange c p) (load env c (load env c s)))" "ob = newObject env (emptyAccount env)"
    using assms(1) by (auto simp: GetOrNewStateObject_def getStateObject_load createObject_eq Let_def)
  then have x: "abst env db s' = xput c (view env db (newObject env (emptyAccount env))) (abst env db s)" by simp
  have "xlive (abst env db s) c = None" using None by (simp add: xlive_abst)
  then show ?thesis
    unfolding x using assms(2)
    by (intro ext) (auto simp: slotOf_def view_newObject_storage emptyTrieOk_def xlive_def xput_def)
next
  case (Some ob')
  then have "s' = load env c s" using assms(1) by (simp add: GetOrNewStateObject_def getStateObject_load)
  then show ?thesis by simp
qed

theorem slot_SetState:
  assumes "emptyTrieOk db"
  shows "slotOf (abst env db (SetState env db c k v s)) =
    (slotOf (abst env db s))(c := (slotOf (abst env db s) c)(k := v))"
proof (cases "GetOrNewStateObject env c s")
  case (Pair ob s')
  note l = GetOrNewStateObject_live(1) [OF Pair] GetOrNewStateObject_slot [OF Pair assms]
  have p: "fst (obj_GetState db k ob) = slotOf (abst env db s') c k"
    by (simp add: slotOf_def xlive_abst l(1))
  have "slotOf (abst env db (obj_SetState db c ob k v s')) =
      (slotOf (abst env db s'))(c := (slotOf (abst env db s') c)(k := v))"
  proof (cases "fst (obj_GetState db k ob) = v")
    case True
    then have "abst env db (obj_SetState db c ob k v s') = abst env db s'"
      using abst_reput [OF l(1)] by (simp add: obj_SetState_def case_prod_beta)
    with True p show ?thesis by (simp add: fun_upd_idem)
  next
    case False
    then show ?thesis
      using l(1) by (intro ext) (auto simp: obj_SetState_def case_prod_beta slotOf_def xlive_abst live_deleted
          fun_upd_def)
  qed
  then show ?thesis by (simp add: SetState_def Pair l(2))
qed

lemma slot_SetNonce:
  assumes "emptyTrieOk db"
  shows "slotOf (abst env db (SetNonce env a n s)) = slotOf (abst env db s)"
proof (cases "GetOrNewStateObject env a s")
  case (Pair ob s')
  note l = GetOrNewStateObject_live(1) [OF Pair] GetOrNewStateObject_slot [OF Pair assms]
  have "slotOf (abst env db (obj_SetNonce a ob n s')) = slotOf (abst env db s')"
    using l(1) by (intro ext) (auto simp: obj_SetNonce_def slotOf_def xlive_def xput_def abst_obj live_deleted
        dest: live_objAt)
  then show ?thesis by (simp add: SetNonce_def Pair l(2))
qed

lemma slot_updateSlot:
  assumes "emptyTrieOk db"
  shows "slotOf (abst env db (updateSlot env db c k f s)) =
    (slotOf (abst env db s))(c := (slotOf (abst env db s) c)(k := BigToHash (f (Big (slotOf (abst env db s) c k)))))"
  by (simp add: updateSlot_def case_prod_beta slot_SetState [OF assms] fst_GetState)

section \<open>Hashes as numbers\<close>

lemma Big_bounds [simp]: "0 \<le> Big h" "Big h < 2 ^ 256"
  using uint_lt2p [of h] by (simp_all add: Big_def)

lemma Big_BigToHash: "Big (BigToHash n) = \<bar>n\<bar> mod 2 ^ 256"
  by (simp add: Big_def BigToHash_def uint_word_of_int)

lemma Big_BigToHash_small: "0 \<le> n \<Longrightarrow> n < 2 ^ 256 \<Longrightarrow> Big (BigToHash n) = n"
  by (simp add: Big_BigToHash)

section \<open>Ledgers\<close>

text \<open>
  What the fee code relies on: a balance per address, and crediting or debiting one address changes
  no other. The sign is lost when a balance is written back, as \<open>big.Int.Bytes\<close> gives the absolute
  value, and a balance above the bound wraps.
\<close>

locale ledger =
  fixes ok :: "'s \<Rightarrow> bool"
    and bal :: "'s \<Rightarrow> addr \<Rightarrow> int"
    and add :: "addr \<Rightarrow> int \<Rightarrow> 's \<Rightarrow> 's"
    and sub :: "addr \<Rightarrow> int \<Rightarrow> 's \<Rightarrow> 's"
    and bound :: int
  assumes ok_add: "ok s \<Longrightarrow> ok (add a n s)"
    and ok_sub: "ok s \<Longrightarrow> ok (sub a n s)"
    and bal_range: "ok s \<Longrightarrow> 0 \<le> bal s a \<and> bal s a < bound"
    and bal_add: "ok s \<Longrightarrow> bal (add a n s) = (bal s)(a := \<bar>bal s a + n\<bar> mod bound)"
    and bal_sub: "ok s \<Longrightarrow> bal (sub a n s) = (bal s)(a := \<bar>bal s a - n\<bar> mod bound)"
begin

definition supplyOf :: "addr set \<Rightarrow> 's \<Rightarrow> int" where
  "supplyOf A s = sum (bal s) A"

lemma bal_nonneg: "ok s \<Longrightarrow> 0 \<le> bal s a"
  using bal_range by blast

lemma bal_le_supply: "ok s \<Longrightarrow> finite A \<Longrightarrow> a \<in> A \<Longrightarrow> bal s a \<le> supplyOf A s"
  unfolding supplyOf_def by (rule member_le_sum) (simp_all add: bal_nonneg)

lemma sum_upd:
  assumes "finite A" and "a \<in> A"
  shows "sum (f(a := x)) A = sum f A - f a + (x :: int)"
  using assms by (simp add: sum.remove)

lemma sub_enough:
  assumes "ok s" and "0 \<le> n" and "n \<le> bal s a"
  shows "bal (sub a n s) = (bal s)(a := bal s a - n)"
  using assms bal_range [OF assms(1), of a] by (simp add: bal_sub)

lemma supply_sub:
  assumes "ok s" and "finite A" and "a \<in> A" and "0 \<le> n" and "n \<le> bal s a"
  shows "supplyOf A (sub a n s) = supplyOf A s - n"
  unfolding supplyOf_def sub_enough [OF assms(1,4,5)] sum_upd [OF assms(2,3)] by simp

lemma supply_add:
  assumes "ok s" and "finite A" and "a \<in> A" and "0 \<le> n" and "supplyOf A s + n < bound"
  shows "bal (add a n s) = (bal s)(a := bal s a + n)" "supplyOf A (add a n s) = supplyOf A s + n"
proof -
  have "0 \<le> bal s a + n" "bal s a + n < bound"
    using assms bal_nonneg [of s a] bal_le_supply [of s A a] by simp_all
  then show b: "bal (add a n s) = (bal s)(a := bal s a + n)" using assms(1) by (simp add: bal_add)
  show "supplyOf A (add a n s) = supplyOf A s + n" 
    unfolding supplyOf_def b sum_upd [OF assms(2,3)] by simp
qed

lemma transfer_supply:
  assumes "ok s" and "finite A" and "a \<in> A" and "b \<in> A" and "0 \<le> n" and "n \<le> bal s a" and "supplyOf A s < bound"
  shows "supplyOf A (add b n (sub a n s)) = supplyOf A s"
  using supply_add(2) [OF ok_sub [OF assms(1)] assms(2,4,5)] supply_sub [OF assms(1-3,5,6)] assms(7) by simp

lemma sub_too_much:
  assumes "ok s" and "bal s a < n" and "n - bal s a < bound"
  shows "bal (sub a n s) = (bal s)(a := n - bal s a)"
  using assms by (simp add: bal_sub)

end

definition ethOk :: "RollupEnv \<Rightarrow> Database \<Rightarrow> bool" where
  "ethOk env db \<longleftrightarrow> UsingOVM env \<and> emptyTrieOk db \<and> inj (GetOVMBalanceKey env)"

definition ethOf :: "RollupEnv \<Rightarrow> Database \<Rightarrow> StateDB \<Rightarrow> addr \<Rightarrow> int" where
  "ethOf env db s a = fst (GetBalance env db a s)"

definition bobaOk :: "RollupEnv \<Rightarrow> Database \<Rightarrow> bool" where
  "bobaOk env db \<longleftrightarrow> emptyTrieOk db \<and> inj (GetBobaBalanceKey env)"

definition bobaOf :: "RollupEnv \<Rightarrow> Database \<Rightarrow> StateDB \<Rightarrow> addr \<Rightarrow> int" where
  "bobaOf env db s a = fst (GetBobaBalance env db a s)"

lemma ethOf_slot:
  "UsingOVM env \<Longrightarrow> ethOf env db s a = Big (slotOf (abst env db s) OvmEthAddress (GetOVMBalanceKey env a))"
  by (simp add: ethOf_def GetBalance_def case_prod_beta fst_GetState)

lemma bobaOf_slot: "bobaOf env db s a = Big (slotOf (abst env db s) (OvmL2BobaToken env) (GetBobaBalanceKey env a))"
  by (simp add: bobaOf_def GetBobaBalance_def case_prod_beta fst_GetState)

lemma ethOf_update:
  assumes "ethOk env db"
  shows "ethOf env db (updateSlot env db OvmEthAddress (GetOVMBalanceKey env a) f s) =
    (ethOf env db s)(a := \<bar>f (ethOf env db s a)\<bar> mod 2 ^ 256)"
  using assms by (intro ext) (auto simp: ethOk_def ethOf_slot slot_updateSlot Big_BigToHash dest: injD)

lemma bobaOf_update:
  assumes "bobaOk env db"
  shows "bobaOf env db (updateSlot env db (OvmL2BobaToken env) (GetBobaBalanceKey env a) f s) =
    (bobaOf env db s)(a := \<bar>f (bobaOf env db s a)\<bar> mod 2 ^ 256)"
  using assms by (intro ext) (auto simp: bobaOk_def bobaOf_slot slot_updateSlot Big_BigToHash dest: injD)

interpretation eth: ledger "\<lambda>_. ethOk env db" "ethOf env db" "AddBalance env db" "SubBalance env db" "2 ^ 256" for env db
proof unfold_locales
  fix s a n
  assume ok: "ethOk env db"
  then have u: "UsingOVM env" by (simp add: ethOk_def)
  show "0 \<le> ethOf env db s a \<and> ethOf env db s a < 2 ^ 256"
    unfolding ethOf_slot [OF u] by (intro conjI Big_bounds)
  show "ethOf env db (AddBalance env db a n s) = (ethOf env db s)(a := \<bar>ethOf env db s a + n\<bar> mod 2 ^ 256)"
    "ethOf env db (SubBalance env db a n s) = (ethOf env db s)(a := \<bar>ethOf env db s a - n\<bar> mod 2 ^ 256)"
    by (simp_all add: AddBalance_def SubBalance_def u ethOf_update [OF ok])
qed

interpretation boba: ledger "\<lambda>_. bobaOk env db" "bobaOf env db" "AddBobaBalance env db" "SubBobaBalance env db" "2 ^ 256"
  for env db
proof unfold_locales
  fix s a n
  assume ok: "bobaOk env db"
  show "0 \<le> bobaOf env db s a \<and> bobaOf env db s a < 2 ^ 256"
    unfolding bobaOf_slot by (intro conjI Big_bounds)
  show "bobaOf env db (AddBobaBalance env db a n s) = (bobaOf env db s)(a := \<bar>bobaOf env db s a + n\<bar> mod 2 ^ 256)"
    "bobaOf env db (SubBobaBalance env db a n s) = (bobaOf env db s)(a := \<bar>bobaOf env db s a - n\<bar> mod 2 ^ 256)"
    by (simp_all add: AddBobaBalance_def SubBobaBalance_def bobaOf_update [OF ok])
qed

section \<open>Properties\<close>

text \<open>
  C18: charging for a Turing call moves the price from the credit of the user to the operator and changes
  no other slot of any contract; it fails exactly when the credit is below the price, and then no slot
  changes. The keys of the three slots are distinct and the operator's credit does not overflow.
\<close>

theorem TuringCharge_transfer:
  fixes env db userID s
  defines "X \<equiv> abst env db s" and "c \<equiv> OvmTuringCreditAddress env" and "u \<equiv> GetTuringPrepayKey env userID"
  assumes "emptyTrieOk db" and "u \<noteq> BigToHash 3" and "u \<noteq> BigToHash 4"
    and "Big (slotOf X c (BigToHash 4)) + Big (slotOf X c (BigToHash 3)) < 2 ^ 256"
  shows "case TuringCharge env db userID s of
      (Ok (), s') \<Rightarrow> Big (slotOf X c (BigToHash 3)) \<le> Big (slotOf X c u) \<and>
        Big (slotOf (abst env db s') c u) = Big (slotOf X c u) - Big (slotOf X c (BigToHash 3)) \<and>
        Big (slotOf (abst env db s') c (BigToHash 4)) = Big (slotOf X c (BigToHash 4)) + Big (slotOf X c (BigToHash 3)) \<and>
        (\<forall>c' k. (c', k) \<noteq> (c, u) \<and> (c', k) \<noteq> (c, BigToHash 4) \<longrightarrow> slotOf (abst env db s') c' k = slotOf X c' k)
    | (e, s') \<Rightarrow> e = Err errInsufficientTuring \<and> Big (slotOf X c u) < Big (slotOf X c (BigToHash 3)) \<and>
        abst env db s' = X"
proof -
  have sm: "Big (BigToHash (Big (slotOf X c u) - Big (slotOf X c (BigToHash 3)))) =
      Big (slotOf X c u) - Big (slotOf X c (BigToHash 3))"
    if "Big (slotOf X c (BigToHash 3)) \<le> Big (slotOf X c u)"
  proof (rule Big_BigToHash_small)
    show "Big (slotOf X c u) - Big (slotOf X c (BigToHash 3)) < 2 ^ 256"
      using Big_bounds(2) [of "slotOf X c u"] Big_bounds(1) [of "slotOf X c (BigToHash 3)"] by linarith
  qed (use that in simp)
  have sm2: "Big (BigToHash (Big (slotOf X c (BigToHash 4)) + Big (slotOf X c (BigToHash 3)))) =
      Big (slotOf X c (BigToHash 4)) + Big (slotOf X c (BigToHash 3))"
    using assms(7) by (intro Big_BigToHash_small) simp_all
  define s3 where "s3 = snd (GetState env db c (BigToHash 4) (snd (GetState env db c (BigToHash 3)
    (snd (GetState env db c u s)))))"
  let ?user = "BigToHash (Big (slotOf X c u) - Big (slotOf X c (BigToHash 3)))"
    and ?owner = "BigToHash (Big (slotOf X c (BigToHash 4)) + Big (slotOf X c (BigToHash 3)))"
  define s5 where "s5 = SetState env db c (BigToHash 4) ?owner (SetState env db c u ?user s3)"
  have x3: "abst env db s3 = X" by (simp add: s3_def X_def)
  have x5: "slotOf (abst env db s5) = (slotOf X)(c := (slotOf X c)(u := ?user, BigToHash 4 := ?owner))"
    unfolding s5_def slot_SetState [OF assms(4)] x3 by simp
  have r: "TuringCharge env db userID s =
      (if Big (slotOf X c u) < Big (slotOf X c (BigToHash 3)) then (Err errInsufficientTuring, s3) else (Ok (), s5))"
    by (simp add: TuringCharge_def s3_def s5_def Let_def case_prod_beta fst_GetState flip: X_def c_def u_def)
  show ?thesis
  proof (cases "Big (slotOf X c u) < Big (slotOf X c (BigToHash 3))")
    case True
    then show ?thesis by (simp add: r x3)
  next
    case False
    then have le: "Big (slotOf X c (BigToHash 3)) \<le> Big (slotOf X c u)" by (simp only: not_less)
    have "slotOf (abst env db s5) c u = ?user" "slotOf (abst env db s5) c (BigToHash 4) = ?owner"
      using assms(6) by (simp_all add: x5)
    then have v: "Big (slotOf (abst env db s5) c u) = Big (slotOf X c u) - Big (slotOf X c (BigToHash 3))"
      "Big (slotOf (abst env db s5) c (BigToHash 4)) = Big (slotOf X c (BigToHash 4)) + Big (slotOf X c (BigToHash 3))"
      by (simp_all only: sm [OF le] sm2)
    have frame: "\<forall>c' k. (c', k) \<noteq> (c, u) \<and> (c', k) \<noteq> (c, BigToHash 4) \<longrightarrow> slotOf (abst env db s5) c' k = slotOf X c' k"
      by (simp add: x5)
    show ?thesis
      unfolding r using False by (simp only: if_False prod.case res.case unit.case) (intro conjI le v frame)
  qed
qed

text \<open>
  C37: in the rollup, \<open>SubBalance\<close> does not check for underflow: debiting an account by more than it holds,
  with an amount below \<open>2 ^ 256\<close>, writes the absolute value of the difference, so the account has what
  was missing as its new balance; no other balance changes.
\<close>

theorem SubBalance_underflow:
  assumes "ethOk env db" and "ethOf env db s a < n" and "n < 2 ^ 256"
  shows "ethOf env db (SubBalance env db a n s) = (ethOf env db s)(a := n - ethOf env db s a)"
proof (rule eth.sub_too_much)
  show "n - ethOf env db s a < 2 ^ 256" using assms(3) eth.bal_nonneg [OF assms(1), of s a] by simp
qed (use assms in auto)

lemma sample_mappingKey: "p < 16 \<Longrightarrow> mappingKey sampleEnv a p = of_nat (unat a * 16 + p)"
proof -
  assume "p < 16"
  moreover have "unat a < 256 ^ 32" using unat_addr_bound [of a] by simp
  ultimately show ?thesis by (simp add: mappingKey_def sampleEnv_def be_val_be_bytes)
qed

lemma sample_key_inj: "p < 16 \<Longrightarrow> inj (\<lambda>a. mappingKey sampleEnv a p)"
proof (rule injI)
  fix a b
  assume p: "p < 16" and "mappingKey sampleEnv a p = mappingKey sampleEnv b p"
  then have "unat (of_nat (unat a * 16 + p) :: hash) = unat (of_nat (unat b * 16 + p) :: hash)"
    by (simp only: sample_mappingKey)
  moreover have "unat (of_nat (unat c * 16 + p) :: hash) = unat c * 16 + p" for c :: addr
  proof -
    have "unat c * 16 + p < 2 ^ 256" using unat_addr_bound [of c] p by simp
    then show ?thesis unfolding unat_of_nat by (intro mod_less) simp
  qed
  ultimately have "unat a = unat b" by simp
  then show "a = b" by (simp add: word_unat_eq_iff)
qed

lemma sample_ok: "ethOk sampleEnv sampleDb" "bobaOk sampleEnv sampleDb" "emptyTrieOk sampleDb"
proof -
  show e: "emptyTrieOk sampleDb" by (simp add: emptyTrieOk_def sampleDb_def)
  show "ethOk sampleEnv sampleDb" "bobaOk sampleEnv sampleDb"
    using e sample_key_inj [of 0]
    by (auto simp: ethOk_def bobaOk_def GetOVMBalanceKey_def GetBobaBalanceKey_def sampleEnv_def inj_def)
qed

lemma slot_New [simp]: "slotOf (abst env db (NewStateDB Map.empty)) c k = 0"
  by (simp add: slotOf_def xlive_abst live_def objAt_def NewStateDB_def)

definition sampleTuring :: StateDB where
  "sampleTuring = SetState sampleEnv sampleDb 7 81 10 (SetState sampleEnv sampleDb 7 (BigToHash 3) 4 (NewStateDB Map.empty))"

lemma TuringCharge_transfer_witness:
  "\<exists>s'. TuringCharge sampleEnv sampleDb 5 sampleTuring = (Ok (), s') \<and>
     Big (slotOf (abst sampleEnv sampleDb s') 7 81) = 6 \<and> Big (slotOf (abst sampleEnv sampleDb s') 7 (BigToHash 4)) = 4"
proof -
  have k: "GetTuringPrepayKey sampleEnv 5 = 81" "OvmTuringCreditAddress sampleEnv = 7"
    by (simp_all add: GetTuringPrepayKey_def sample_mappingKey) (simp add: sampleEnv_def)
  have b: "BigToHash 3 = 3" "BigToHash 4 = 4" by (simp_all add: BigToHash_def)
  have v: "slotOf (abst sampleEnv sampleDb sampleTuring) 7 3 = 4" "slotOf (abst sampleEnv sampleDb sampleTuring) 7 4 = 0"
    "slotOf (abst sampleEnv sampleDb sampleTuring) 7 81 = 10"
    by (simp_all add: sampleTuring_def slot_SetState [OF sample_ok(3)] b)
  note t = TuringCharge_transfer [OF sample_ok(3), of sampleEnv 5 sampleTuring, unfolded k b v]
  show ?thesis
    using t by (cases "TuringCharge sampleEnv sampleDb 5 sampleTuring" rule: prod.exhaust)
      (auto simp: Big_def b split: res.splits unit.splits)
qed

lemma SubBalance_underflow_witness:
  "ethOf sampleEnv sampleDb (SubBalance sampleEnv sampleDb 1 5 (NewStateDB Map.empty)) 1 = 5"
proof -
  have z: "ethOf sampleEnv sampleDb (NewStateDB Map.empty) 1 = 0"
    using sample_ok(1) by (simp add: ethOf_slot ethOk_def Big_def)
  show ?thesis using SubBalance_underflow [OF sample_ok(1), of "NewStateDB Map.empty" 1 5] z by simp
qed

end
