(* ===== verification/Hexutil.thy ===== *)
theory Hexutil
  imports Go_Prelude
begin

text \<open>
  Hexadecimal encoding with prefix: \<open>l2geth/common/hexutil/hexutil.go\<close>. A Go string is the list of
  its bytes. Of the standard library, \<open>encoding/hex\<close> and the base 16 of \<open>strconv\<close> are written out.
\<close>

section \<open>Errors\<close>

definition ErrEmptyString :: go_error where "ErrEmptyString = GoErr ''empty hex string''"
definition ErrSyntax :: go_error where "ErrSyntax = GoErr ''invalid hex string''"
definition ErrMissingPrefix :: go_error where "ErrMissingPrefix = GoErr ''hex string without 0x prefix''"
definition ErrOddLength :: go_error where "ErrOddLength = GoErr ''hex string of odd length''"
definition ErrEmptyNumber :: go_error where "ErrEmptyNumber = GoErr (''hex string '' @ CHR 0x22 # ''0x'' @ [CHR 0x22])"
definition ErrLeadingZero :: go_error where "ErrLeadingZero = GoErr ''hex number with leading zero digits''"
definition ErrUint64Range :: go_error where "ErrUint64Range = GoErr ''hex number > 64 bits''"
definition ErrBig256Range :: go_error where "ErrBig256Range = GoErr ''hex number > 256 bits''"

section \<open>Digits\<close>

definition decodeNibble :: "u8 \<Rightarrow> nat option" where
  "decodeNibble c =
     (if 48 \<le> c \<and> c \<le> 57 then Some (unat (c - 48))
      else if 65 \<le> c \<and> c \<le> 70 then Some (unat (c - 65) + 10)
      else if 97 \<le> c \<and> c \<le> 102 then Some (unat (c - 97) + 10)
      else None)"

text \<open>The digits the encoders write are in lower case.\<close>

definition hexDigit :: "nat \<Rightarrow> u8" where
  "hexDigit d = (if d < 10 then 48 + of_nat d else 87 + of_nat d)"

definition has0xPrefix :: "bytes \<Rightarrow> bool" where
  "has0xPrefix s \<longleftrightarrow> 2 \<le> length s \<and> s ! 0 = 48 \<and> (s ! 1 = 120 \<or> s ! 1 = 88)"

section \<open>Byte strings\<close>

text \<open>\<open>hex.DecodeString\<close>: an invalid byte is reported before an odd length.\<close>

fun hexDecode :: "bytes \<Rightarrow> bytes res" where
  "hexDecode [] = Ok []"
| "hexDecode [a] = (if decodeNibble a = None then Err ErrSyntax else Err ErrOddLength)"
| "hexDecode (a # b # s) =
     (case (decodeNibble a, decodeNibble b) of
        (Some x, Some y) \<Rightarrow> res_map (\<lambda>bs. of_nat (x * 16 + y) # bs) (hexDecode s)
      | _ \<Rightarrow> Err ErrSyntax)"

fun hexEncode :: "bytes \<Rightarrow> bytes" where
  "hexEncode [] = []"
| "hexEncode (b # bs) = hexDigit (unat b div 16) # hexDigit (unat b mod 16) # hexEncode bs"

definition hex_Decode :: "bytes \<Rightarrow> bytes res" where
  "hex_Decode input =
     (if input = [] then Err ErrEmptyString
      else if \<not> has0xPrefix input then Err ErrMissingPrefix
      else hexDecode (drop 2 input))"

definition hex_Encode :: "bytes \<Rightarrow> bytes" where
  "hex_Encode b = [48, 120] @ hexEncode b"

definition MustDecode :: "bytes \<Rightarrow> bytes res" where
  "MustDecode input = (case hex_Decode input of Err e \<Rightarrow> Panic (errorText e) | r \<Rightarrow> r)"

section \<open>Quantities\<close>

definition checkNumber :: "bytes \<Rightarrow> bytes res" where
  "checkNumber input =
     (if input = [] then Err ErrEmptyString
      else if \<not> has0xPrefix input then Err ErrMissingPrefix
      else
        let s = drop 2 input in
        if s = [] then Err ErrEmptyNumber
        else if 1 < length s \<and> s ! 0 = 48 then Err ErrLeadingZero
        else Ok s)"

text \<open>
  \<open>strconv.ParseUint(s, 16, 64)\<close>: a digit that would not fit is reported when it is reached, before
  later digits are looked at. The cutoff is \<open>2 ^ 64 / 16\<close>.
\<close>

fun parseUint :: "u64 \<Rightarrow> bytes \<Rightarrow> u64 res" where
  "parseUint n [] = Ok n"
| "parseUint n (c # s) =
     (case decodeNibble c of
        None \<Rightarrow> Err ErrSyntax
      | Some d \<Rightarrow> if 0x1000000000000000 \<le> n then Err ErrUint64Range else parseUint (n * 16 + of_nat d) s)"

definition DecodeUint64 :: "bytes \<Rightarrow> u64 res" where
  "DecodeUint64 input = res_bind (checkNumber input) (parseUint 0)"

text \<open>\<open>strconv.AppendUint\<close> in base 16\<close>

fun formatHex :: "nat \<Rightarrow> bytes" where
  "formatHex n = (if n < 16 then [hexDigit n] else formatHex (n div 16) @ [hexDigit (n mod 16)])"

declare formatHex.simps [simp del]

definition EncodeUint64 :: "u64 \<Rightarrow> bytes" where
  "EncodeUint64 i = [48, 120] @ formatHex (unat i)"

text \<open>
  \<open>DecodeBig\<close> fills machine words of 16 digits from the end of the string; \<open>decodeWord\<close> is the
  inner loop, which wraps around at the word size.
\<close>

fun decodeWord :: "u64 \<Rightarrow> bytes \<Rightarrow> u64 res" where
  "decodeWord w [] = Ok w"
| "decodeWord w (c # s) =
     (case decodeNibble c of None \<Rightarrow> Err ErrSyntax | Some d \<Rightarrow> decodeWord (w * 16 + of_nat d) s)"

fun decodeWords :: "nat \<Rightarrow> bytes \<Rightarrow> u64 list res" where
  "decodeWords 0 raw = Ok []"
| "decodeWords (Suc k) raw =
     (let start = length raw - 16 in
      res_bind (decodeWord 0 (drop start raw)) (\<lambda>w.
        res_map (\<lambda>ws. w # ws) (decodeWords k (take start raw))))"

text \<open>\<open>big.Int.SetBits\<close>: little-endian words\<close>

fun setBits :: "u64 list \<Rightarrow> nat" where
  "setBits [] = 0"
| "setBits (w # ws) = unat w + 2 ^ 64 * setBits ws"

definition DecodeBig :: "bytes \<Rightarrow> int res" where
  "DecodeBig input =
     res_bind (checkNumber input) (\<lambda>raw.
       if 64 < length raw then Err ErrBig256Range
       else res_map (\<lambda>ws. int (setBits ws)) (decodeWords (length raw div 16 + 1) raw))"

text \<open>\<open>fmt.Sprintf\<close> with the verb \<open>%#x\<close> writes the sign before the prefix.\<close>

definition EncodeBig :: "int \<Rightarrow> bytes" where
  "EncodeBig n =
     (if n = 0 then [48, 120, 48]
      else (if n < 0 then [45] else []) @ [48, 120] @ formatHex (nat \<bar>n\<bar>))"

section \<open>Round trips\<close>

lemma digit_cases: "(d :: nat) < 16 \<Longrightarrow> d \<in> {0, 1, 2, 3, 4, 5, 6, 7, 8, 9, 10, 11, 12, 13, 14, 15}"
  unfolding insert_iff empty_iff by arith

lemma decodeNibble_hexDigit [simp]: "d < 16 \<Longrightarrow> decodeNibble (hexDigit d) = Some d"
  by (drule digit_cases, elim insertE emptyE) (simp_all add: decodeNibble_def hexDigit_def)

lemma hexDigit_zero: "d < 16 \<Longrightarrow> hexDigit d = 48 \<longleftrightarrow> d = 0"
  by (drule digit_cases, elim insertE emptyE) (simp_all add: hexDigit_def)

lemma hexDecode_hexEncode: "hexDecode (hexEncode b) = Ok b"
proof (induction b)
  case (Cons a b)
  have "unat a div 16 < 16" using unat_u8_less [of a] by simp
  moreover have "unat a div 16 * 16 + unat a mod 16 = unat a" by simp
  ultimately show ?case using Cons by simp
qed simp

text \<open>The number a list of digits stands for.\<close>

fun hexVal :: "nat \<Rightarrow> bytes \<Rightarrow> nat option" where
  "hexVal n [] = Some n"
| "hexVal n (c # s) = (case decodeNibble c of None \<Rightarrow> None | Some d \<Rightarrow> hexVal (n * 16 + d) s)"

lemma hexVal_append: "hexVal n (s @ t) = (case hexVal n s of None \<Rightarrow> None | Some m \<Rightarrow> hexVal m t)"
  by (induction n s rule: hexVal.induct) (auto split: option.splits)

lemma hexVal_formatHex: "hexVal 0 (formatHex n) = Some n"
proof (induction n rule: formatHex.induct)
  case (1 n)
  show ?case
  proof (cases "n < 16")
    case False
    then show ?thesis using 1 by (subst formatHex.simps) (simp add: hexVal_append)
  qed (simp add: formatHex.simps)
qed

lemma formatHex_nonempty [simp]: "formatHex n \<noteq> []"
  by (subst formatHex.simps) simp

lemma formatHex_hd: "0 < n \<Longrightarrow> formatHex n ! 0 \<noteq> 48"
proof (induction n rule: formatHex.induct)
  case (1 n)
  show ?case
  proof (cases "n < 16")
    case True
    then show ?thesis using 1(2) by (subst formatHex.simps) (simp add: hexDigit_zero)
  next
    case False
    then have "formatHex (n div 16) ! 0 \<noteq> 48" using 1 by simp
    then show ?thesis using False by (subst formatHex.simps) (simp add: nth_append)
  qed
qed

lemma length_formatHex: "n < 16 ^ k \<Longrightarrow> 0 < k \<Longrightarrow> length (formatHex n) \<le> k"
proof (induction n arbitrary: k rule: formatHex.induct)
  case (1 n)
  show ?case
  proof (cases "n < 16")
    case True
    then show ?thesis using 1(3) by (subst formatHex.simps) simp
  next
    case False
    obtain j where k: "k = Suc j" using 1(3) by (cases k) auto
    then have "0 < j" using False 1(2) by (cases j) auto
    with k have j: "k = Suc j" "0 < j" by simp_all
    then have "n div 16 < 16 ^ j" using 1(2) by (simp add: less_mult_imp_div_less mult.commute)
    with 1(1) False j show ?thesis by (subst formatHex.simps) simp
  qed
qed

lemma checkNumber_format: "checkNumber ([48, 120] @ formatHex n) = Ok (formatHex n)"
proof (cases "n = 0")
  case True
  then show ?thesis by (simp add: checkNumber_def has0xPrefix_def formatHex.simps [of 0])
next
  case False
  then show ?thesis using formatHex_hd [of n] by (simp add: checkNumber_def has0xPrefix_def)
qed

lemma hexVal_ge: "hexVal n s = Some m \<Longrightarrow> n \<le> m"
  by (induction n s rule: hexVal.induct) (fastforce split: option.splits)+

lemma parseUint_hexVal:
  "hexVal (unat n) s = Some m \<Longrightarrow> m < 2 ^ 64 \<Longrightarrow> parseUint n s = Ok (of_nat m)"
proof (induction s arbitrary: n)
  case (Cons c s)
  then obtain d where d: "decodeNibble c = Some d" "hexVal (unat n * 16 + d) s = Some m"
    by (auto split: option.splits)
  then have "unat n * 16 + d < 2 ^ 64" using hexVal_ge [OF d(2)] Cons.prems(2) by linarith
  then have u: "unat (n * 16 + of_nat d) = unat n * 16 + d"
    by (simp add: unat_word_ariths unat_of_nat mod_simps)
  have "n < 0x1000000000000000" using \<open>unat n * 16 + d < 2 ^ 64\<close> by (simp add: word_less_nat_alt)
  with Cons.IH [of "n * 16 + of_nat d"] d u Cons.prems(2) show ?case by (simp add: not_le)
qed auto

lemma hexVal_shift: "hexVal n s = map_option (\<lambda>v. n * 16 ^ length s + v) (hexVal 0 s)"
proof (induction s arbitrary: n)
  case (Cons c s)
  show ?case
  proof (cases "decodeNibble c")
    case (Some d)
    then show ?thesis using Cons [of "n * 16 + d"] Cons [of d] by (cases "hexVal 0 s") (simp_all add: algebra_simps)
  qed simp
qed simp

lemma decodeNibble_less: "decodeNibble c = Some d \<Longrightarrow> d < 16"
proof -
  have "unat (c - 48) < 16" if "48 \<le> c" "c \<le> 57"
    using that by (simp add: unat_sub word_le_nat_alt)
  moreover have "unat (c - 65) < 6" if "65 \<le> c" "c \<le> 70"
    using that by (simp add: unat_sub word_le_nat_alt)
  moreover have "unat (c - 97) < 6" if "97 \<le> c" "c \<le> 102"
    using that by (simp add: unat_sub word_le_nat_alt)
  ultimately show "decodeNibble c = Some d \<Longrightarrow> d < 16"
    by (auto simp: decodeNibble_def split: if_splits)
qed

lemma hexVal_less: "hexVal 0 s = Some v \<Longrightarrow> v < 16 ^ length s"
proof (induction s arbitrary: v)
  case (Cons c s)
  then obtain d where c: "decodeNibble c = Some d" "hexVal d s = Some v" by (auto split: option.splits)
  with hexVal_shift [of d s] obtain w where d: "decodeNibble c = Some d" "hexVal 0 s = Some w" "v = d * 16 ^ length s + w"
    by (cases "hexVal 0 s") simp_all
  have "w < 16 ^ length s" using Cons.IH d(2) by simp
  moreover have "d * 16 ^ length s \<le> 15 * 16 ^ length s"
    using decodeNibble_less [OF d(1)] by (intro mult_right_mono) simp_all
  ultimately have "v < 16 * 16 ^ length s" using d(3) by linarith
  then show ?case by simp
qed simp

lemma decodeWord_hexVal:
  "hexVal (unat w) s = Some m \<Longrightarrow> m < 2 ^ 64 \<Longrightarrow> decodeWord w s = Ok (of_nat m)"
proof (induction s arbitrary: w)
  case (Cons c s)
  then obtain d where d: "decodeNibble c = Some d" "hexVal (unat w * 16 + d) s = Some m"
    by (auto split: option.splits)
  then have "unat w * 16 + d < 2 ^ 64" using hexVal_ge [OF d(2)] Cons.prems(2) by linarith
  then have u: "unat (w * 16 + of_nat d) = unat w * 16 + d"
    by (simp add: unat_word_ariths unat_of_nat mod_simps)
  with Cons.IH [of "w * 16 + of_nat d"] d u Cons.prems(2) show ?case by simp
qed auto

lemma decodeWords_hexVal:
  "hexVal 0 raw = Some m \<Longrightarrow> length raw \<le> 16 * k \<Longrightarrow> \<exists>ws. decodeWords k raw = Ok ws \<and> setBits ws = m"
proof (induction k arbitrary: raw m)
  case (Suc k)
  let ?a = "take (length raw - 16) raw" and ?b = "drop (length raw - 16) raw"
  have "hexVal 0 (?a @ ?b) = Some m" using Suc.prems(1) by simp
  then obtain x where "hexVal 0 ?a = Some x" "hexVal x ?b = Some m"
    unfolding hexVal_append by (auto split: option.splits)
  with hexVal_shift [of x ?b] obtain v
    where x: "hexVal 0 ?a = Some x" "hexVal 0 ?b = Some v" "m = x * 16 ^ length ?b + v"
    by (cases "hexVal 0 ?b") simp_all
  have "(16 :: nat) ^ length ?b \<le> 16 ^ 16" by (rule power_increasing) simp_all
  then have v: "v < 2 ^ 64" using hexVal_less [OF x(2)] by simp
  have w: "decodeWord 0 ?b = Ok (of_nat v)" using decodeWord_hexVal [of 0 ?b v] x(2) v by simp
  have "length ?a \<le> 16 * k" using Suc.prems(2) by simp
  from Suc.IH [OF x(1) this] obtain ws where ws: "decodeWords k ?a = Ok ws" "setBits ws = x" by blast
  have "m = v + 2 ^ 64 * x"
  proof (cases "16 \<le> length raw")
    case True
    then show ?thesis using x(3) by simp
  next
    case False
    then show ?thesis using x(1,3) by simp
  qed
  then show ?case using w ws v by (simp add: Let_def unat_of_nat)
qed simp

section \<open>Properties\<close>

text \<open>
  C33: what the encoders write, the decoders read back: byte strings, 64-bit quantities, and
  non-negative quantities of at most 256 bits.
\<close>

theorem hexutil_roundtrip:
  "hex_Decode (hex_Encode b) = Ok b \<and> DecodeUint64 (EncodeUint64 i) = Ok i \<and>
   (n < 2 ^ 256 \<longrightarrow> DecodeBig (EncodeBig (int n)) = Ok (int n))"
proof (intro conjI impI)
  show "hex_Decode (hex_Encode b) = Ok b"
    by (simp add: hex_Decode_def hex_Encode_def has0xPrefix_def hexDecode_hexEncode)
  show "DecodeUint64 (EncodeUint64 i) = Ok i"
    using parseUint_hexVal [of 0 "formatHex (unat i)" "unat i"] unat_u64_less [of i]
    unfolding DecodeUint64_def EncodeUint64_def checkNumber_format by (simp add: hexVal_formatHex)
next
  assume "n < 2 ^ 256"
  then have len: "length (formatHex n) \<le> 64" by (intro length_formatHex) simp_all
  obtain ws where ws: "decodeWords (length (formatHex n) div 16 + 1) (formatHex n) = Ok ws" "setBits ws = n"
    using decodeWords_hexVal [OF hexVal_formatHex, of n "length (formatHex n) div 16 + 1"] by fastforce
  have "EncodeBig (int n) = [48, 120] @ formatHex n"
    by (simp add: EncodeBig_def formatHex.simps [of 0] hexDigit_def)
  then show "DecodeBig (EncodeBig (int n)) = Ok (int n)"
    unfolding DecodeBig_def using len ws by (simp only: checkNumber_format) simp
qed

lemma hexutil_roundtrip_witness: "DecodeBig (EncodeBig 255) = Ok 255"
  using hexutil_roundtrip [of "[]" 0 255] by simp

text \<open>
  \<open>EncodeBig\<close> writes the sign of a negative integer, and its own decoder rejects the result.
\<close>

theorem EncodeBig_negative:
  assumes "n < 0"
  shows "DecodeBig (EncodeBig n) = Err ErrMissingPrefix"
  using assms by (simp add: EncodeBig_def DecodeBig_def checkNumber_def has0xPrefix_def)

lemma EncodeBig_negative_witness: "DecodeBig (EncodeBig (- 5)) = Err ErrMissingPrefix"
  using EncodeBig_negative [of "- 5"] by simp

end
