(* ===== verification/EvmCall.thy ===== *)
theory EvmCall
  imports StateDB_Balance Hexutil RLP
begin

text \<open>
  Message calls: \<open>l2geth/core/vm/evm.go\<close> with the Turing extension, \<open>contract.go\<close>, and the transfer
  functions of \<open>l2geth/core/evm.go\<close>. Executing code (\<open>run\<close>: precompiled contracts and the
  interpreter) is a parameter, as are the off-chain endpoint of a Turing request, random numbers, the
  clock and the ABI encoding of an error message. Tracing is left out.
\<close>

section \<open>Errors and constants\<close>

definition ErrOutOfGas :: go_error where "ErrOutOfGas = GoErr ''out of gas''"
definition ErrCodeStoreOutOfGas :: go_error where
  "ErrCodeStoreOutOfGas = GoErr ''contract creation code storage out of gas''"
definition ErrDepth :: go_error where "ErrDepth = GoErr ''max call depth exceeded''"
definition ErrInsufficientBalance :: go_error where
  "ErrInsufficientBalance = GoErr ''insufficient balance for transfer''"
definition ErrContractAddressCollision :: go_error where
  "ErrContractAddressCollision = GoErr ''contract address collision''"
definition ErrTuringDepth :: go_error where "ErrTuringDepth = GoErr ''turing call depth exceeded''"
definition ErrTuringEmpty :: go_error where "ErrTuringEmpty = GoErr ''turing replay data not found''"
definition errExecutionReverted :: go_error where "errExecutionReverted = GoErr ''evm: execution reverted''"
definition errMaxCodeSizeExceeded :: go_error where
  "errMaxCodeSizeExceeded = GoErr ''evm: max code size exceeded''"

definition CallCreateDepth :: int where "CallCreateDepth = 1024"
definition MaxCodeSize :: nat where "MaxCodeSize = 2457600"
definition CreateDataGas :: u64 where "CreateDataGas = 200"

definition OvmWhitelistAddress :: addr where
  "OvmWhitelistAddress = 0x4200000000000000000000000000000000000002"

section \<open>The Turing cache\<close>

text \<open>Times are in seconds. A missing map is allocated by \<open>Get\<close>; writing to it would panic.\<close>

definition turingCacheExpire :: int where "turingCacheExpire = 5"
definition turingCacheClean :: int where "turingCacheClean = 60"

record turingCacheEntry =
  tce_expires :: int
  tce_value :: bytes

record turingCache =
  tc_entries :: "(hash \<Rightarrow> turingCacheEntry option) option"
  tc_nextClean :: int

definition cache_Init :: "int \<Rightarrow> turingCache" where
  "cache_Init now = \<lparr>tc_entries = Some Map.empty, tc_nextClean = now + turingCacheClean\<rparr>"

definition cache_Get :: "int \<Rightarrow> hash \<Rightarrow> turingCache \<Rightarrow> bytes \<times> turingCache" where
  "cache_Get now key cache =
     (let cache' = (if tc_entries cache = None then cache_Init now else cache);
          m = the (tc_entries cache')
      in case m key of
           None \<Rightarrow> ([], cache')
         | Some ent \<Rightarrow>
             if now < tce_expires ent then (tce_value ent, cache')
             else ([], cache'\<lparr>tc_entries := Some (m(key := None))\<rparr>))"

definition cache_Put :: "int \<Rightarrow> hash \<Rightarrow> bytes \<Rightarrow> turingCache \<Rightarrow> turingCache res" where
  "cache_Put now key value cache =
     (case tc_entries cache of
        None \<Rightarrow> Panic ''assignment to entry in nil map''
      | Some m \<Rightarrow>
          Ok (cache\<lparr>tc_entries := Some (m(key \<mapsto> \<lparr>tce_expires = now + turingCacheExpire, tce_value = value\<rparr>))\<rparr>))"

definition cache_Trim :: "int \<Rightarrow> turingCache \<Rightarrow> turingCache" where
  "cache_Trim now cache =
     (if tc_nextClean cache < now then
        cache\<lparr>tc_entries := map_option (\<lambda>m key. case m key of
              None \<Rightarrow> None
            | Some ent \<Rightarrow> if tce_expires ent < now then None else Some ent) (tc_entries cache),
          tc_nextClean := now + turingCacheClean\<rparr>
      else cache)"

section \<open>Environment and contracts\<close>

text \<open>
  \<open>dial\<close>, \<open>callTimeout\<close>, \<open>randomInt\<close> and \<open>clock\<close> are the outside world. Their first argument is the number
  of Turing requests the machine has made so far, so that no two requests need to get the same answer.
\<close>

record EvmEnv =
  ee_env :: RollupEnv
  ee_db :: Database
  NoRecursion :: bool
  precompiles :: "addr set"
  IsHomestead :: bool
  IsEIP158 :: bool
  IsBerlin :: bool
  Origin :: addr
  GasPrice :: int
  Sequencer :: bool
  dial :: "nat \<Rightarrow> bytes \<Rightarrow> bool"
  callTimeout :: "nat \<Rightarrow> bytes \<Rightarrow> addr \<Rightarrow> bytes \<Rightarrow> bytes res"
  randomInt :: "nat \<Rightarrow> nat res"
  clock :: "nat \<Rightarrow> nat \<Rightarrow> int"
  encodeSolidityError :: "addr \<Rightarrow> bytes option"

record EVM =
  evm_StateDB :: StateDB
  evm_depth :: int
  evm_Turing :: bytes
  evm_TuringDepth :: int
  evm_cache :: turingCache
  evm_world :: nat

record Contract =
  c_CallerAddress :: addr
  c_self :: addr
  c_Code :: "bytes option"
  c_CodeHash :: hash
  c_CodeAddr :: "addr option"
  c_Gas :: u64
  c_value :: int

definition NewContract :: "addr \<Rightarrow> addr \<Rightarrow> int \<Rightarrow> u64 \<Rightarrow> Contract" where
  "NewContract caller object value gas =
     \<lparr>c_CallerAddress = caller, c_self = object, c_Code = None, c_CodeHash = 0, c_CodeAddr = None,
      c_Gas = gas, c_value = value\<rparr>"

definition SetCallCode :: "addr \<Rightarrow> hash \<Rightarrow> bytes option \<Rightarrow> Contract \<Rightarrow> Contract" where
  "SetCallCode a h code c = c\<lparr>c_Code := code, c_CodeHash := h, c_CodeAddr := Some a\<rparr>"

definition UseGas :: "u64 \<Rightarrow> u64 \<Rightarrow> bool \<times> u64" where
  "UseGas gas available = (if available < gas then (False, available) else (True, available - gas))"

text \<open>
  \<open>run\<close> returns the output, the error, the gas that is left in the contract and the machine, whose
  state and Turing context nested calls may have changed.
\<close>

type_synonym runner = "EVM \<Rightarrow> Contract \<Rightarrow> bytes \<Rightarrow> bool \<Rightarrow> (bytes \<times> go_error option) \<times> u64 \<times> EVM"

type_synonym outcome = "(bytes \<times> u64 \<times> go_error option) \<times> EVM"

definition CanTransfer :: "EvmEnv \<Rightarrow> addr \<Rightarrow> int \<Rightarrow> StateDB \<Rightarrow> bool \<times> StateDB" where
  "CanTransfer ee a amount s = (case GetBalance (ee_env ee) (ee_db ee) a s of (bal, s') \<Rightarrow> (amount \<le> bal, s'))"

definition Transfer :: "EvmEnv \<Rightarrow> addr \<Rightarrow> addr \<Rightarrow> int \<Rightarrow> StateDB \<Rightarrow> StateDB" where
  "Transfer ee sender recipient amount s =
     AddBalance (ee_env ee) (ee_db ee) recipient amount (SubBalance (ee_env ee) (ee_db ee) sender amount s)"

section \<open>Turing requests\<close>

text \<open>
  A slice of the input may reach into its spare capacity, the bytes \<open>spare\<close> behind it. An error
  response is the input with an error code in byte 35, the last byte of the request type. While it is
  being computed the response is also in the cache, as the same slice, so its final content is there.
\<close>

definition sliceBounds :: string where
  "sliceBounds = ''slice bounds out of range''"

definition rTypeIs :: "nat \<Rightarrow> bytes \<Rightarrow> bytes" where
  "rTypeIs code input = input[35 := of_nat code]"

definition bobaTuringRandom :: "EvmEnv \<Rightarrow> nat \<Rightarrow> bytes \<Rightarrow> bytes res" where
  "bobaTuringRandom ee w input =
     (let rest = drop 4 input in
      if length input < 4 then Panic sliceBounds
      else if length rest \<le> 31 then Panic outOfRange
      else if rest ! 31 \<noteq> 1 then Ok (rTypeIs 10 input)
      else if length rest < 2 * 32 then Ok (rTypeIs 11 input)
      else
        case randomInt ee w of
          Ok n \<Rightarrow> Ok (take 4 input @ be_bytes 32 2 @ be_bytes 32 n)
        | _ \<Rightarrow> Ok (rTypeIs 16 input))"

definition turingKey :: "RollupEnv \<Rightarrow> addr \<Rightarrow> addr \<Rightarrow> u64 \<Rightarrow> bytes \<Rightarrow> hash" where
  "turingKey env caller origin nonce input =
     keccak env (be_bytes 20 (unat caller) @ be_bytes 20 (unat origin) @ min_be (unat nonce) @ input)"

text \<open>The part after the cache: the response, or the code of the failure.\<close>

definition turingFetch :: "EvmEnv \<Rightarrow> nat \<Rightarrow> bytes \<Rightarrow> bytes \<Rightarrow> addr \<Rightarrow> (nat + bytes) res" where
  "turingFetch ee w input spare caller =
     (let rest = drop 4 input;
          startIDXurl = unat (rest ! 63) + 32;
          startIDXpayload = unat (rest ! 95);
          lengthURL = unat (rest ! 127);
          endIDX = startIDXurl + lengthURL
      in if 64 < lengthURL then Ok (Inl 12)
         else if length (rest @ spare) < endIDX then Panic sliceBounds
         else
           let url = take lengthURL (drop startIDXurl (rest @ spare)) in
           if length rest < startIDXpayload then Panic sliceBounds
           else
             let payload = drop startIDXpayload rest in
             if \<not> dial ee w url then Ok (Inl 15)
             else
               case callTimeout ee w url caller payload of
                 Ok responseStringEnc \<Rightarrow>
                   if 322 < length responseStringEnc then Ok (Inl 17)
                   else
                     (case hex_Decode responseStringEnc of
                        Ok responseString \<Rightarrow>
                          if 160 < length responseString then Ok (Inl 18)
                          else if startIDXpayload + 4 \<le> 35 then Panic outOfRange
                          else Ok (Inr ((take (startIDXpayload + 4) input)[35 := 2] @ responseString))
                      | _ \<Rightarrow> Ok (Inl 14))
               | _ \<Rightarrow> Ok (Inl 13))"

definition bobaTuringCall ::
    "EvmEnv \<Rightarrow> bytes \<Rightarrow> bytes \<Rightarrow> addr \<Rightarrow> bool \<Rightarrow> EVM \<Rightarrow> ((bytes \<times> nat) \<times> EVM) res" where
  "bobaTuringCall ee input spare caller mayBlock evm =
     (let rest = drop 4 input; w = evm_world evm in
      if length input < 4 then Panic sliceBounds
      else if length rest \<le> 31 then Panic outOfRange
      else if rest ! 31 \<noteq> 1 then Ok ((rTypeIs 10 input, 10), evm)
      else if length rest < 7 * 32 then Ok ((rTypeIs 11 input, 11), evm)
      else
        let (nonce, s) = GetNonce (ee_env ee) (Origin ee) (evm_StateDB evm);
            key = turingKey (ee_env ee) caller (Origin ee) nonce input;
            (hit, cache) = cache_Get (clock ee w 0) key (evm_cache evm);
            evm1 = evm\<lparr>evm_StateDB := s, evm_cache := cache\<rparr>
        in if hit \<noteq> [] then Ok ((hit, 0), evm1)
           else if \<not> mayBlock then Ok ((rTypeIs 20 input, 20), evm1)
           else
             res_bind (turingFetch ee w input spare caller) (\<lambda>answer.
               case answer of
                 Inl code \<Rightarrow>
                   res_map (\<lambda>c. ((rTypeIs code input, code), evm1\<lparr>evm_cache := c\<rparr>))
                     (cache_Put (clock ee w 1) key (rTypeIs code input) cache)
               | Inr ret \<Rightarrow>
                   res_map (\<lambda>c. ((ret, 0), evm1\<lparr>evm_cache := cache_Trim (clock ee w 3) c\<rparr>))
                     (cache_Put (clock ee w 2) key ret cache)))"

section \<open>Calls\<close>

definition isTuring2 :: "bytes \<Rightarrow> bool" where
  "isTuring2 input \<longleftrightarrow> 4 \<le> length input \<and> take 4 input = [125, 147, 97, 108]"

definition isGetRand2 :: "bytes \<Rightarrow> bool" where
  "isGetRand2 input \<longleftrightarrow> 4 \<le> length input \<and> take 4 input = [73, 61, 87, 214]"

text \<open>
  How a call ends after \<open>run\<close>: on an error the state is reverted to the snapshot, and any error but a
  revert by the contract itself consumes all gas.
\<close>

definition finishCall :: "EvmEnv \<Rightarrow> nat \<Rightarrow> bytes \<Rightarrow> go_error option \<Rightarrow> u64 \<Rightarrow> EVM \<Rightarrow> outcome res" where
  "finishCall ee snapshot ret err gas evm =
     (case err of
        None \<Rightarrow> Ok ((ret, gas, None), evm)
      | Some e \<Rightarrow>
          res_map (\<lambda>s. ((ret, if e \<noteq> errExecutionReverted then snd (UseGas gas gas) else gas, Some e),
                       evm\<lparr>evm_StateDB := s\<rparr>))
            (RevertToSnapshot (ee_env ee) snapshot (evm_StateDB evm)))"

text \<open>The updated calldata of a request; the machine changes its cache, and counts the request.\<close>

definition turingRequest :: "EvmEnv \<Rightarrow> bytes \<Rightarrow> bytes \<Rightarrow> addr \<Rightarrow> EVM \<Rightarrow> (bytes \<times> EVM) res" where
  "turingRequest ee input spare caller evm =
     (if isTuring2 input then
        res_map (\<lambda>((updated, _), evm2). (updated, evm2\<lparr>evm_world := evm_world evm + 1\<rparr>))
          (bobaTuringCall ee input spare caller (GasPrice ee = 0) evm)
      else
        res_map (\<lambda>updated. (updated, evm\<lparr>evm_world := evm_world evm + 1\<rparr>))
          (bobaTuringRandom ee (evm_world evm) input))"

text \<open>After a Turing request was executed, it is charged for.\<close>

definition turingFinish ::
    "EvmEnv \<Rightarrow> nat \<Rightarrow> addr \<Rightarrow> u64 \<Rightarrow> (bytes \<times> go_error option) \<times> u64 \<times> EVM \<Rightarrow> outcome res" where
  "turingFinish ee snapshot caller gas executed =
     (case executed of
        ((ret, err), g, evm) \<Rightarrow>
          (case TuringCharge (ee_env ee) (ee_db ee) caller (evm_StateDB evm) of
             (charge, s) \<Rightarrow>
               let evm' = evm\<lparr>evm_StateDB := s\<rparr> in
               if charge \<noteq> Ok () then Ok (([], gas, Some ErrInsufficientBalance), evm')
               else finishCall ee snapshot ret err g evm'))"

text \<open>The checks and the execution of a Turing request, between the transfer and the end of a call.\<close>

definition turingCallPart ::
    "EvmEnv \<Rightarrow> runner \<Rightarrow> nat \<Rightarrow> addr \<Rightarrow> bytes \<Rightarrow> bytes \<Rightarrow> Contract \<Rightarrow> u64 \<Rightarrow> EVM \<Rightarrow> outcome res" where
  "turingCallPart ee run snapshot caller input spare contract gas evm =
     (if 1 < evm_TuringDepth evm then Ok (([], gas, Some ErrTuringDepth), evm)
      else if \<not> Sequencer ee \<and> length (evm_Turing evm) < 2 then Ok (([], gas, Some ErrTuringEmpty), evm)
      else
        let (check, s1) = TuringCheck (ee_env ee) (ee_db ee) caller (evm_StateDB evm);
            evm1 = evm\<lparr>evm_StateDB := s1\<rparr>
        in if check \<noteq> Ok () then Ok (([], gas, Some ErrInsufficientBalance), evm1)
           else
             res_bind
               (if Sequencer ee \<and> length (evm_Turing evm1) < 2 then
                  res_map (\<lambda>(updated, evm2).
                      case run evm2 contract updated False of
                        (r, g, evm3) \<Rightarrow>
                          (r, g, evm3\<lparr>evm_Turing := updated, evm_TuringDepth := evm_TuringDepth evm3 + 1\<rparr>))
                    (turingRequest ee input spare caller evm1)
                else Ok (run evm1 contract (evm_Turing evm1) False))
               (turingFinish ee snapshot caller gas))"

definition callContract :: "EvmEnv \<Rightarrow> addr \<Rightarrow> Contract \<Rightarrow> StateDB \<Rightarrow> Contract \<times> StateDB" where
  "callContract ee a c s =
     (let (h, s1) = GetCodeHash (ee_env ee) a s; (code, s2) = GetCode (ee_env ee) (ee_db ee) a s1
      in (SetCallCode a h code c, s2))"

definition Call ::
    "EvmEnv \<Rightarrow> runner \<Rightarrow> addr \<Rightarrow> addr \<Rightarrow> bytes \<Rightarrow> bytes \<Rightarrow> u64 \<Rightarrow> int \<Rightarrow> EVM \<Rightarrow> outcome res" where
  "Call ee run caller a input spare gas value evm =
     (if NoRecursion ee \<and> 0 < evm_depth evm then Ok (([], gas, None), evm)
      else if CallCreateDepth < evm_depth evm then Ok (([], gas, Some ErrDepth), evm)
      else
        let (can, s1) = CanTransfer ee caller value (evm_StateDB evm) in
        if \<not> can then Ok (([], gas, Some ErrInsufficientBalance), evm\<lparr>evm_StateDB := s1\<rparr>)
        else
          let (snapshot, s2) = Snapshot s1; (exists, s3) = Exist (ee_env ee) a s2 in
          if \<not> exists \<and> a \<notin> precompiles ee \<and> IsEIP158 ee \<and> value = 0
          then Ok (([], gas, None), evm\<lparr>evm_StateDB := s3\<rparr>)
          else
            let s4 = (if exists then s3 else CreateAccount (ee_env ee) a s3);
                s5 = Transfer ee caller a value s4;
                (contract, s6) = callContract ee a (NewContract caller a value gas) s5;
                evm6 = evm\<lparr>evm_StateDB := s6\<rparr>
            in if isTuring2 input \<or> isGetRand2 input
               then turingCallPart ee run snapshot caller input spare contract gas evm6
               else
                 (case run evm6 contract input False of
                    ((ret, err), g, evm7) \<Rightarrow> finishCall ee snapshot ret err g evm7))"

definition CallCode :: "EvmEnv \<Rightarrow> runner \<Rightarrow> addr \<Rightarrow> addr \<Rightarrow> bytes \<Rightarrow> u64 \<Rightarrow> int \<Rightarrow> EVM \<Rightarrow> outcome res" where
  "CallCode ee run caller a input gas value evm =
     (if NoRecursion ee \<and> 0 < evm_depth evm then Ok (([], gas, None), evm)
      else if CallCreateDepth < evm_depth evm then Ok (([], gas, Some ErrDepth), evm)
      else
        let (can, s1) = CanTransfer ee caller value (evm_StateDB evm) in
        if \<not> can then Ok (([], gas, Some ErrInsufficientBalance), evm\<lparr>evm_StateDB := s1\<rparr>)
        else
          let (snapshot, s2) = Snapshot s1;
              (contract, s3) = callContract ee a (NewContract caller caller value gas) s2
          in case run (evm\<lparr>evm_StateDB := s3\<rparr>) contract input False of
               ((ret, err), g, evm4) \<Rightarrow> finishCall ee snapshot ret err g evm4)"

text \<open>A delegate call takes the caller and the value of the calling contract.\<close>

definition DelegateCall :: "EvmEnv \<Rightarrow> runner \<Rightarrow> Contract \<Rightarrow> addr \<Rightarrow> bytes \<Rightarrow> u64 \<Rightarrow> EVM \<Rightarrow> outcome res" where
  "DelegateCall ee run parent a input gas evm =
     (if NoRecursion ee \<and> 0 < evm_depth evm then Ok (([], gas, None), evm)
      else if CallCreateDepth < evm_depth evm then Ok (([], gas, Some ErrDepth), evm)
      else
        let (snapshot, s1) = Snapshot (evm_StateDB evm);
            c = (NewContract (c_self parent) (c_self parent) 0 gas)
                  \<lparr>c_CallerAddress := c_CallerAddress parent, c_value := c_value parent\<rparr>;
            (contract, s2) = callContract ee a c s1
        in case run (evm\<lparr>evm_StateDB := s2\<rparr>) contract input False of
             ((ret, err), g, evm3) \<Rightarrow> finishCall ee snapshot ret err g evm3)"

definition StaticCall :: "EvmEnv \<Rightarrow> runner \<Rightarrow> addr \<Rightarrow> addr \<Rightarrow> bytes \<Rightarrow> u64 \<Rightarrow> EVM \<Rightarrow> outcome res" where
  "StaticCall ee run caller a input gas evm =
     (if NoRecursion ee \<and> 0 < evm_depth evm then Ok (([], gas, None), evm)
      else if CallCreateDepth < evm_depth evm then Ok (([], gas, Some ErrDepth), evm)
      else
        let (snapshot, s1) = Snapshot (evm_StateDB evm);
            (contract, s2) = callContract ee a (NewContract caller a 0 gas) s1;
            s3 = AddBalance (ee_env ee) (ee_db ee) a 0 s2
        in case run (evm\<lparr>evm_StateDB := s3\<rparr>) contract input True of
             ((ret, err), g, evm4) \<Rightarrow> finishCall ee snapshot ret err g evm4)"

section \<open>Contract creation\<close>

definition CreateAddress :: "RollupEnv \<Rightarrow> addr \<Rightarrow> u64 \<Rightarrow> addr" where
  "CreateAddress env b nonce =
     (let data = (case EncodeToBytes (VSlice [VInterface (Some (VByteArray (be_bytes 20 (unat b)))),
                                              VInterface (Some (VUint nonce))]) of
                    Ok d \<Rightarrow> d | _ \<Rightarrow> [])
      in ucast (keccak env data))"

definition CreateAddress2 :: "RollupEnv \<Rightarrow> addr \<Rightarrow> hash \<Rightarrow> hash \<Rightarrow> addr" where
  "CreateAddress2 env b salt inithash =
     ucast (keccak env ([0xFF] @ be_bytes 20 (unat b) @ be_bytes 32 (unat salt) @ be_bytes 32 (unat inithash)))"

definition AddressWhitelisted :: "EvmEnv \<Rightarrow> addr \<Rightarrow> StateDB \<Rightarrow> bool \<times> StateDB" where
  "AddressWhitelisted ee a s =
     (let (owner, s1) = GetState (ee_env ee) (ee_db ee) OvmWhitelistAddress 0 s in
      if owner = 0 then (True, s1)
      else
        case GetState (ee_env ee) (ee_db ee) OvmWhitelistAddress (mappingKey (ee_env ee) a 1) s1 of
          (listed, s2) \<Rightarrow> (listed \<noteq> 0, s2))"

text \<open>
  The result also has the address. The code is that of the creation transaction; the hash of the code
  is only set for \<open>CREATE2\<close>.
\<close>

type_synonym createOutcome = "(bytes \<times> addr \<times> u64 \<times> go_error option) \<times> EVM"

text \<open>Storing the code the constructor returned\<close>

definition storeCode ::
    "EvmEnv \<Rightarrow> addr \<Rightarrow> bytes \<Rightarrow> go_error option \<Rightarrow> u64 \<Rightarrow> EVM \<Rightarrow> go_error option \<times> u64 \<times> EVM" where
  "storeCode ee address ret err gas evm =
     (if err = None \<and> \<not> (IsEIP158 ee \<and> MaxCodeSize < length ret) then
        case UseGas (of_nat (length ret) * CreateDataGas) gas of
          (True, gas') \<Rightarrow>
            (None, gas', evm\<lparr>evm_StateDB := SetCode (ee_env ee) (ee_db ee) address (Some ret) (evm_StateDB evm)\<rparr>)
        | (False, gas') \<Rightarrow> (Some ErrCodeStoreOutOfGas, gas', evm)
      else (err, gas, evm))"

definition finishCreate ::
    "EvmEnv \<Rightarrow> nat \<Rightarrow> addr \<Rightarrow> bytes \<Rightarrow> go_error option \<Rightarrow> u64 \<Rightarrow> EVM \<Rightarrow> createOutcome res" where
  "finishCreate ee snapshot address ret err gas evm =
     (let exceeded = IsEIP158 ee \<and> MaxCodeSize < length ret;
          (err1, gas1, evm1) = storeCode ee address ret err gas evm;
          err2 = (if exceeded \<and> err1 = None then Some errMaxCodeSizeExceeded else err1)
      in if exceeded \<or> (err1 \<noteq> None \<and> (IsHomestead ee \<or> err1 \<noteq> Some ErrCodeStoreOutOfGas)) then
           res_map (\<lambda>s. ((ret, address, if err1 \<noteq> Some errExecutionReverted then snd (UseGas gas1 gas1) else gas1, err2),
                        evm1\<lparr>evm_StateDB := s\<rparr>))
             (RevertToSnapshot (ee_env ee) snapshot (evm_StateDB evm1))
         else Ok ((ret, address, gas1, err2), evm1))"

definition create ::
    "EvmEnv \<Rightarrow> runner \<Rightarrow> addr \<Rightarrow> bytes \<Rightarrow> hash \<Rightarrow> u64 \<Rightarrow> int \<Rightarrow> addr \<Rightarrow> EVM \<Rightarrow> createOutcome res" where
  "create ee run caller code codeHash gas value address evm =
     (if CallCreateDepth < evm_depth evm then Ok (([], 0, gas, Some ErrDepth), evm)
      else
        let (can, s1) = CanTransfer ee caller value (evm_StateDB evm) in
        if \<not> can then Ok (([], 0, gas, Some ErrInsufficientBalance), evm\<lparr>evm_StateDB := s1\<rparr>)
        else
          let (listed, s2) = (if UsingOVM (ee_env ee) then AddressWhitelisted ee caller s1 else (True, s1)) in
          if \<not> listed then
            (case encodeSolidityError ee caller of
               Some ret \<Rightarrow> Ok ((ret, 0, gas, Some errExecutionReverted), evm\<lparr>evm_StateDB := s2\<rparr>)
             | None \<Rightarrow> Ok (([], 0, gas, Some (GoErr ''deployer address not whitelisted'')), evm\<lparr>evm_StateDB := s2\<rparr>))
          else
            let (nonce, s3) = GetNonce (ee_env ee) caller s2;
                s4 = SetNonce (ee_env ee) caller (nonce + 1) s3;
                s5 = (if IsBerlin ee then AddAddressToAccessList address s4 else s4);
                (contractHash, s6) = GetCodeHash (ee_env ee) address s5;
                (n, s7) = GetNonce (ee_env ee) address s6
            in if n \<noteq> 0 \<or> contractHash \<noteq> 0 \<and> contractHash \<noteq> emptyCodeHash (ee_env ee)
               then Ok (([], 0, 0, Some ErrContractAddressCollision), evm\<lparr>evm_StateDB := s7\<rparr>)
               else
                 let (snapshot, s8) = Snapshot s7;
                     s9 = CreateAccount (ee_env ee) address s8;
                     s10 = (if IsEIP158 ee then SetNonce (ee_env ee) address 1 s9 else s9);
                     s11 = Transfer ee caller address value s10;
                     contract = (NewContract caller address value gas)
                       \<lparr>c_Code := Some code, c_CodeHash := codeHash, c_CodeAddr := Some address\<rparr>;
                     evm11 = evm\<lparr>evm_StateDB := s11\<rparr>
                 in if NoRecursion ee \<and> 0 < evm_depth evm then Ok (([], address, gas, None), evm11)
                    else
                      (case run evm11 contract [] False of
                         ((ret, err), g, evm12) \<Rightarrow> finishCreate ee snapshot address ret err g evm12))"

definition Create :: "EvmEnv \<Rightarrow> runner \<Rightarrow> addr \<Rightarrow> bytes \<Rightarrow> u64 \<Rightarrow> int \<Rightarrow> EVM \<Rightarrow> createOutcome res" where
  "Create ee run caller code gas value evm =
     (case GetNonce (ee_env ee) caller (evm_StateDB evm) of
        (nonce, s) \<Rightarrow>
          create ee run caller code 0 gas value (CreateAddress (ee_env ee) caller nonce) (evm\<lparr>evm_StateDB := s\<rparr>))"

definition Create2 :: "EvmEnv \<Rightarrow> runner \<Rightarrow> addr \<Rightarrow> bytes \<Rightarrow> u64 \<Rightarrow> int \<Rightarrow> int \<Rightarrow> EVM \<Rightarrow> createOutcome res" where
  "Create2 ee run caller code gas endowment salt evm =
     (let codeHash = keccak (ee_env ee) code in
      create ee run caller code codeHash gas endowment
        (CreateAddress2 (ee_env ee) caller (BigToHash salt) codeHash) evm)"

section \<open>State before and after a call\<close>

lemma runOps_append: "runOps env db (ps @ qs) s = res_bind (runOps env db ps s) (runOps env db qs)"
proof (induction ps arbitrary: s)
  case (Cons p ps)
  then show ?case by (cases "execOp env db p s") simp_all
qed simp

text \<open>
  What is relied on of the execution of code: it changes the state through its interface only, it
  leaves the snapshots that were open valid, and it does not create gas.
\<close>

definition runnerOk :: "EvmEnv \<Rightarrow> runner \<Rightarrow> bool" where
  "runnerOk ee run \<longleftrightarrow>
     (\<forall>evm c input ro r g evm'. run evm c input ro = (r, g, evm') \<longrightarrow>
        (\<exists>ops. runOps (ee_env ee) (ee_db ee) ops (evm_StateDB evm) = Ok (evm_StateDB evm')) \<and>
        fst ` set (validRevisions (evm_StateDB evm)) \<subseteq> fst ` set (validRevisions (evm_StateDB evm')) \<and>
        g \<le> c_Gas c)"

lemma runnerOkD:
  assumes "runnerOk ee run" and "run evm c input ro = (r, g, evm')"
  shows "\<exists>ops. runOps (ee_env ee) (ee_db ee) ops (evm_StateDB evm) = Ok (evm_StateDB evm')"
    "fst ` set (validRevisions (evm_StateDB evm)) \<subseteq> fst ` set (validRevisions (evm_StateDB evm'))" "g \<le> c_Gas c"
  using assms(1) [unfolded runnerOk_def, rule_format, OF assms(2)] by simp_all

text \<open>From the snapshot to the execution of the code.\<close>

definition enterOps :: "addr \<Rightarrow> addr \<Rightarrow> int \<Rightarrow> bool \<Rightarrow> stateOp list" where
  "enterOps caller a value exists =
     [OpExist a] @ (if exists then [] else [OpCreateAccount a]) @
     [OpSubBalance caller value, OpAddBalance a value, OpGetCodeHash a, OpGetCode a]"

lemma enter_runOps:
  assumes "Exist (ee_env ee) a s2 = (exists, s3)"
    and "callContract ee a c (Transfer ee caller a value (if exists then s3 else CreateAccount (ee_env ee) a s3)) =
      (contract, s6)"
  shows "runOps (ee_env ee) (ee_db ee) (enterOps caller a value exists) s2 = Ok s6"
  using assms by (auto simp: enterOps_def Transfer_def callContract_def Let_def split: prod.splits if_splits)

lemma tracks_runOps:
  assumes "\<forall>p \<in> set ps. p \<noteq> OpSnapshot \<and> (\<forall>i. p \<noteq> OpRevertToSnapshot i)"
  shows "runOps env db ps s = Ok s' \<Longrightarrow> al_inv (st_access s) \<Longrightarrow> tracks env db s s'"
  using assms
proof (induction ps arbitrary: s)
  case (Cons p ps)
  then obtain t where t: "execOp env db p s = Ok t" "runOps env db ps t = Ok s'" by (auto simp: res_bind_eq_Ok)
  have st: "tracks env db s t" using t(1) Cons.prems by (intro execOp_tracks) auto
  then have "al_inv (st_access t)" using Cons.prems(2) by (simp add: tracks_def)
  with Cons.IH [OF t(2)] Cons.prems(3) show ?case using tracks_trans [OF st] by auto
qed simp

lemma CanTransfer_read:
  assumes "CanTransfer ee a amount s = (can, s')" and "usable (ee_env ee) (ee_db ee) s"
  shows "usable (ee_env ee) (ee_db ee) s'" "abst (ee_env ee) (ee_db ee) s' = abst (ee_env ee) (ee_db ee) s"
proof -
  have s': "s' = snd (GetBalance (ee_env ee) (ee_db ee) a s)" using assms(1) by (auto simp: CanTransfer_def split: prod.splits)
  then show "usable (ee_env ee) (ee_db ee) s'"
    using usable_Op [OF assms(2), of "OpGetBalance a" s'] by simp
  show "abst (ee_env ee) (ee_db ee) s' = abst (ee_env ee) (ee_db ee) s"
    unfolding s' by (auto simp: GetBalance_def getStateObject_load case_prod_beta split: option.splits)
qed

text \<open>An error at the end of a call: the state is the one of the snapshot.\<close>

lemma finishCall_error:
  assumes "usable (ee_env ee) (ee_db ee) s" and "Snapshot s = (snapshot, s2)"
    and "runOps (ee_env ee) (ee_db ee) ops s2 = Ok (evm_StateDB evm)"
    and "snapshot \<in> fst ` set (validRevisions (evm_StateDB evm))"
    and "finishCall ee snapshot ret err g evm = Ok ((ret', g', Some e), evm')"
  shows "abst (ee_env ee) (ee_db ee) (evm_StateDB evm') = abst (ee_env ee) (ee_db ee) s"
    and "g' = (if e = errExecutionReverted then g else 0)"
proof -
  have err: "err = Some e" using assms(5) by (auto simp: finishCall_def res_map_eq_Ok split: option.splits)
  obtain s3 where s3: "RevertToSnapshot (ee_env ee) snapshot (evm_StateDB evm) = Ok s3"
    "abst (ee_env ee) (ee_db ee) s3 = abst (ee_env ee) (ee_db ee) s"
    using snapshot_restores [OF assms(1-4)] by blast
  with err assms(5) show "abst (ee_env ee) (ee_db ee) (evm_StateDB evm') = abst (ee_env ee) (ee_db ee) s"
    and "g' = (if e = errExecutionReverted then g else 0)"
    by (auto simp: finishCall_def UseGas_def)
qed

lemma Snapshot_valid: "Snapshot s = (i, s') \<Longrightarrow> i \<in> fst ` set (validRevisions s')"
  by (auto simp: Snapshot_def Let_def)

lemma tracks_valid: "tracks env db s s' \<Longrightarrow> validRevisions s' = validRevisions s"
  by (simp add: tracks_def)

lemma enter_valid:
  assumes "usable (ee_env ee) (ee_db ee) s" and "Snapshot s = (snapshot, s2)"
    and "runOps (ee_env ee) (ee_db ee) (enterOps caller a value exists) s2 = Ok s6"
  shows "snapshot \<in> fst ` set (validRevisions s6)"
proof -
  have "usable (ee_env ee) (ee_db ee) s2" using usable_Op [OF assms(1), of OpSnapshot s2] assms(2) by simp
  then have "al_inv (st_access s2)" using usable_revOk by (auto simp: revOk_def)
  from tracks_runOps [OF _ assms(3) this] have "tracks (ee_env ee) (ee_db ee) s2 s6"
    by (auto simp: enterOps_def split: if_splits)
  then show ?thesis using Snapshot_valid [OF assms(2)] tracks_valid by metis
qed

lemma c_Gas_callContract: "callContract ee a (NewContract caller b value gas) s = (c, s') \<Longrightarrow> c_Gas c = gas"
  by (auto simp: callContract_def SetCallCode_def NewContract_def Let_def split: prod.splits)

text \<open>What a call does before it executes code.\<close>

lemma Call_cases:
  assumes "Call ee run caller a input spare gas value evm = Ok ((ret, g, Some e), evm')"
  obtains (Depth) "evm' = evm" "g = gas"
  | (Poor) s1 where "CanTransfer ee caller value (evm_StateDB evm) = (False, s1)" "evm' = evm\<lparr>evm_StateDB := s1\<rparr>" "g = gas"
  | (Run) s1 snapshot s2 exists s3 contract s6 where
      "CanTransfer ee caller value (evm_StateDB evm) = (True, s1)" "Snapshot s1 = (snapshot, s2)"
      "Exist (ee_env ee) a s2 = (exists, s3)"
      "callContract ee a (NewContract caller a value gas)
         (Transfer ee caller a value (if exists then s3 else CreateAccount (ee_env ee) a s3)) = (contract, s6)"
      "(if isTuring2 input \<or> isGetRand2 input
        then turingCallPart ee run snapshot caller input spare contract gas (evm\<lparr>evm_StateDB := s6\<rparr>)
        else case run (evm\<lparr>evm_StateDB := s6\<rparr>) contract input False of
          ((ret, err), g, evm7) \<Rightarrow> finishCall ee snapshot ret err g evm7) = Ok ((ret, g, Some e), evm')"
proof (cases "NoRecursion ee \<and> 0 < evm_depth evm \<or> CallCreateDepth < evm_depth evm")
  case True
  then show thesis using assms Depth by (auto simp: Call_def split: if_splits)
next
  case False
  then have g1: "(NoRecursion ee \<and> 0 < evm_depth evm) = False" and g2: "(CallCreateDepth < evm_depth evm) = False"
    by blast+
  obtain can s1 where can: "CanTransfer ee caller value (evm_StateDB evm) = (can, s1)" by fastforce
  obtain snapshot s2 where sn: "Snapshot s1 = (snapshot, s2)" by fastforce
  obtain exists s3 where ex: "Exist (ee_env ee) a s2 = (exists, s3)" by fastforce
  obtain contract s6 where c: "callContract ee a (NewContract caller a value gas)
      (Transfer ee caller a value (if exists then s3 else CreateAccount (ee_env ee) a s3)) = (contract, s6)" by fastforce
  show thesis
  proof (cases can)
    case True
    note u = assms [unfolded Call_def g1 g2 if_False can Let_def prod.case sn ex c]
    have n: "(\<not> exists \<and> a \<notin> precompiles ee \<and> IsEIP158 ee \<and> value = 0) = False"
      using u True by (auto split: if_splits)
    have "CanTransfer ee caller value (evm_StateDB evm) = (True, s1)" using can True by simp
    then show thesis
      by (rule Run [OF _ sn ex c]) (use u True in \<open>simp only: n if_False not_True_eq_False\<close>)
  next
    case F: False
    have "CanTransfer ee caller value (evm_StateDB evm) = (False, s1)" using can F by simp
    then show thesis
      by (rule Poor) (use assms [unfolded Call_def g1 g2 if_False can Let_def prod.case] F in simp_all)
  qed
qed

section \<open>Balances around a call\<close>

lemma abst_reads [simp]:
  "abst env db (snd (GetBalance env db a s)) = abst env db s"
  "abst env db (snd (GetNonce env a s)) = abst env db s"
  "abst env db (snd (GetCodeHash env a s)) = abst env db s"
  "abst env db (snd (GetCode env db a s)) = abst env db s"
  "abst env db (snd (Exist env a s)) = abst env db s"
  "abst env db (snd (Snapshot s)) = abst env db s"
  by (auto simp: GetBalance_def GetNonce_def GetCodeHash_def GetCode_def Exist_def Snapshot_def getStateObject_load
      abst_reput Let_def case_prod_beta split: option.splits)

lemma abst_callContract: "callContract ee a c s = (c', s') \<Longrightarrow> abst (ee_env ee) (ee_db ee) s' = abst (ee_env ee) (ee_db ee) s"
  by (auto simp: callContract_def Let_def case_prod_beta)

lemma Exist_live: "Exist env a s = (ex, s') \<Longrightarrow> ex \<longleftrightarrow> live env s' a \<noteq> None"
  by (auto simp: Exist_def getStateObject_load)

lemma slot_CreateAccount:
  assumes "live env s a = None" and "emptyTrieOk db"
  shows "slotOf (abst env db (CreateAccount env a s)) = slotOf (abst env db s)"
proof -
  have n: "xlive (abst env db s) a = None" using assms(1) by (simp add: xlive_abst)
  have b: "v_storage (view env db (obj_setBalance b (newObject env (emptyAccount env)))) = (\<lambda>_. 0)" for b
    using assms(2) view_newObject_storage [of env db] by (simp add: emptyTrieOk_def fun_eq_iff)
  have w: "slotOf (xput a w (abst env db s)) = slotOf (abst env db s)" if "v_storage w = (\<lambda>_. 0)" for w
    using n that by (intro ext) (auto simp: slotOf_def xlive_def xput_def)
  show ?thesis
    using w [OF b] w [OF view_newObject_storage [of env db, unfolded assms(2) [unfolded emptyTrieOk_def]]]
    by (auto simp: CreateAccount_def createObject_eq Let_def split: option.splits)
qed

lemma ethOf_abst: "UsingOVM env \<Longrightarrow> slotOf (abst env db s') = slotOf (abst env db s) \<Longrightarrow> ethOf env db s' = ethOf env db s"
  by (intro ext) (simp add: ethOf_slot)

lemma Transfer_eth:
  assumes "ethOk (ee_env ee) (ee_db ee)" and "0 \<le> value" and "value \<le> ethOf (ee_env ee) (ee_db ee) s caller"
    and "caller \<noteq> a" and "ethOf (ee_env ee) (ee_db ee) s a + value < 2 ^ 256"
  shows "ethOf (ee_env ee) (ee_db ee) (Transfer ee caller a value s) =
    (ethOf (ee_env ee) (ee_db ee) s)(caller := ethOf (ee_env ee) (ee_db ee) s caller - value,
       a := ethOf (ee_env ee) (ee_db ee) s a + value)"
proof -
  have "0 \<le> ethOf (ee_env ee) (ee_db ee) s a" by (rule eth.bal_nonneg [OF assms(1)])
  then show ?thesis
    unfolding Transfer_def eth.bal_add [OF assms(1)] eth.sub_enough [OF assms(1-3)]
    using assms(2,4,5) by simp
qed

text \<open>The balances when the code of a call starts to run.\<close>

lemma enter_eth:
  assumes "ethOk (ee_env ee) (ee_db ee)" and "CanTransfer ee caller value s = (True, s1)"
    and "Snapshot s1 = (snapshot, s2)" and "Exist (ee_env ee) a s2 = (exists, s3)"
    and "callContract ee a c (Transfer ee caller a value (if exists then s3 else CreateAccount (ee_env ee) a s3)) =
      (contract, s6)"
    and "0 \<le> value" and "caller \<noteq> a" and "ethOf (ee_env ee) (ee_db ee) s a + value < 2 ^ 256"
  shows "ethOf (ee_env ee) (ee_db ee) s6 =
    (ethOf (ee_env ee) (ee_db ee) s)(caller := ethOf (ee_env ee) (ee_db ee) s caller - value,
       a := ethOf (ee_env ee) (ee_db ee) s a + value)"
proof -
  let ?env = "ee_env ee" and ?db = "ee_db ee"
  have u: "UsingOVM ?env" "emptyTrieOk ?db" using assms(1) by (simp_all add: ethOk_def)
  have s1: "s1 = snd (GetBalance ?env ?db caller s)" "value \<le> ethOf ?env ?db s caller"
    using assms(2) by (auto simp: CanTransfer_def ethOf_def split: prod.splits)
  have a3: "abst ?env ?db s3 = abst ?env ?db s"
    using s1(1) arg_cong [OF assms(3), of snd] arg_cong [OF assms(4), of snd] by (metis abst_reads(1,5,6) snd_conv)
  let ?s4 = "if exists then s3 else CreateAccount ?env a s3"
  have "slotOf (abst ?env ?db ?s4) = slotOf (abst ?env ?db s)"
    using a3 slot_CreateAccount [OF _ u(2), of ?env s3 a] Exist_live [OF assms(4)] by auto
  then have e4: "ethOf ?env ?db ?s4 = ethOf ?env ?db s" by (rule ethOf_abst [OF u(1)])
  have "ethOf ?env ?db s6 = ethOf ?env ?db (Transfer ee caller a value ?s4)"
    by (rule ethOf_abst [OF u(1)]) (simp add: abst_callContract [OF assms(5)])
  then show ?thesis
    using Transfer_eth [OF assms(1,6), of ?s4 caller a] s1(2) assms(7,8) by (simp add: e4)
qed

section \<open>Replaying a Turing request\<close>

definition withTuring :: "bytes \<Rightarrow> int \<Rightarrow> turingCache \<Rightarrow> nat \<Rightarrow> EVM \<Rightarrow> EVM" where
  "withTuring t d k w evm = evm\<lparr>evm_Turing := t, evm_TuringDepth := d, evm_cache := k, evm_world := w\<rparr>"

text \<open>Code that makes no nested Turing request does not look at the Turing context.\<close>

definition turingFree :: "runner \<Rightarrow> bool" where
  "turingFree run \<longleftrightarrow>
     (\<forall>evm c input ro t d k w. run (withTuring t d k w evm) c input ro =
        (case run evm c input ro of (r, g, evm') \<Rightarrow> (r, g, withTuring t d k w evm')))"

lemma withTuring_simps [simp]:
  "evm_StateDB (withTuring t d k w evm) = evm_StateDB evm" "evm_depth (withTuring t d k w evm) = evm_depth evm"
  "evm_Turing (withTuring t d k w evm) = t" "evm_TuringDepth (withTuring t d k w evm) = d"
  "(withTuring t d k w evm)\<lparr>evm_StateDB := s\<rparr> = withTuring t d k w (evm\<lparr>evm_StateDB := s\<rparr>)"
  "withTuring t d k w (withTuring t' d' k' w' evm) = withTuring t d k w evm"
  by (simp_all add: withTuring_def)

lemma withTuring_update:
  "(withTuring t d k w evm)\<lparr>evm_Turing := t', evm_TuringDepth := d'\<rparr> = withTuring t' d' k w evm"
  by (cases evm) (simp add: withTuring_def)

text \<open>A replica: the same chain with a different outside world.\<close>

definition elsewhere ::
    "(nat \<Rightarrow> bytes \<Rightarrow> bool) \<Rightarrow> (nat \<Rightarrow> bytes \<Rightarrow> addr \<Rightarrow> bytes \<Rightarrow> bytes res) \<Rightarrow> (nat \<Rightarrow> nat res) \<Rightarrow> (nat \<Rightarrow> nat \<Rightarrow> int) \<Rightarrow>
     EvmEnv \<Rightarrow> EvmEnv" where
  "elsewhere d ct rand cl ee = ee\<lparr>dial := d, callTimeout := ct, randomInt := rand, clock := cl\<rparr>"

lemma elsewhere_simps [simp]:
  "ee_env (elsewhere d ct rand cl ee) = ee_env ee" "ee_db (elsewhere d ct rand cl ee) = ee_db ee"
  "NoRecursion (elsewhere d ct rand cl ee) = NoRecursion ee" "precompiles (elsewhere d ct rand cl ee) = precompiles ee"
  "IsEIP158 (elsewhere d ct rand cl ee) = IsEIP158 ee" "Origin (elsewhere d ct rand cl ee) = Origin ee"
  "Sequencer (elsewhere d ct rand cl ee) = Sequencer ee"
  by (simp_all add: elsewhere_def)

lemma turingFinish_env:
  assumes "ee_env ee' = ee_env ee" and "ee_db ee' = ee_db ee"
  shows "turingFinish ee' snapshot caller gas (r, g, withTuring t d k w evm) =
     res_map (\<lambda>(out, evm'). (out, withTuring t d k w evm')) (turingFinish ee snapshot caller gas (r, g, evm))"
  by (cases r; cases "RevertToSnapshot (ee_env ee) snapshot
        (snd (TuringCharge (ee_env ee) (ee_db ee) caller (evm_StateDB evm)))")
    (auto simp: turingFinish_def finishCall_def assms Let_def case_prod_beta split: option.splits)

text \<open>An object that was read once stays in memory.\<close>

definition loaded :: "addr \<Rightarrow> StateDB \<Rightarrow> bool" where
  "loaded a s \<longleftrightarrow> stateObjects s a \<noteq> None"

lemma load_loaded: "loaded a s \<Longrightarrow> load env a s = s"
  by (auto simp: loaded_def load_def objAt_def setStateObject_def map_upd_triv)

lemma loaded_basic [simp]:
  "loaded a s \<Longrightarrow> loaded a (setStateObject b ob s)" "loaded a (journal_append e s) \<longleftrightarrow> loaded a s"
  "loaded a s \<Longrightarrow> loaded a (load env b s)"
  by (auto simp: loaded_def load_def setStateObject_def journal_append_def journal_dirty_def Let_def split: option.splits)

lemma loaded_GetState [simp]: "loaded a s \<Longrightarrow> loaded a (snd (GetState env db c k s))"
  by (auto simp: GetState_eq split: option.splits)

lemma loaded_GetOrNew: "loaded a s \<Longrightarrow> GetOrNewStateObject env c s = (ob, s') \<Longrightarrow> loaded a s'"
  by (auto simp: GetOrNewStateObject_def getStateObject_load createObject_eq Let_def split: option.splits)

lemma loaded_SetState [simp]: "loaded a s \<Longrightarrow> loaded a (SetState env db c k v s)"
  by (auto simp: SetState_def obj_SetState_def split: prod.splits dest: loaded_GetOrNew)

lemma loaded_Transfer [simp]:
  "UsingOVM (ee_env ee) \<Longrightarrow> loaded b s \<Longrightarrow> loaded b (Transfer ee caller a value s)"
  by (simp add: Transfer_def AddBalance_def SubBalance_def updateSlot_def case_prod_beta)

lemma loaded_CreateAccount [simp]: "loaded b s \<Longrightarrow> loaded b (CreateAccount env a s)"
  by (auto simp: CreateAccount_def createObject_eq Let_def split: option.splits)

lemma loaded_reads [simp]:
  "loaded b s \<Longrightarrow> loaded b (snd (GetBalance env db a s))" "loaded b (snd (Snapshot s)) \<longleftrightarrow> loaded b s"
  "loaded b s \<Longrightarrow> loaded b (snd (Exist env a s))" "loaded b s \<Longrightarrow> loaded b (snd (GetCodeHash env a s))"
  "loaded b s \<Longrightarrow> loaded b (snd (GetCode env db a s))" "loaded b s \<Longrightarrow> loaded b (snd (TuringCheck env db u s))"
  by (auto simp: GetBalance_def Exist_def GetCodeHash_def GetCode_def TuringCheck_def getStateObject_load Let_def
      case_prod_beta Snapshot_def split: option.splits) (simp_all add: loaded_def)

lemma loaded_callContract: "callContract ee a c s = (c', s') \<Longrightarrow> loaded b s \<Longrightarrow> loaded b s'"
  by (auto simp: callContract_def Let_def case_prod_beta)

lemma bobaTuringCall_state:
  assumes "bobaTuringCall ee input spare caller mayBlock evm = Ok ((updated, code), evm')"
    and "loaded (Origin ee) (evm_StateDB evm)"
  shows "\<exists>k. evm' = withTuring (evm_Turing evm) (evm_TuringDepth evm) k (evm_world evm) evm"
proof -
  have n: "snd (GetNonce (ee_env ee) (Origin ee) (evm_StateDB evm)) = evm_StateDB evm"
    using load_loaded [OF assms(2)] by (auto simp: GetNonce_def getStateObject_load split: option.splits)
  have w: "evm\<lparr>evm_cache := k\<rparr> = withTuring (evm_Turing evm) (evm_TuringDepth evm) k (evm_world evm) evm" for k
    by (simp add: withTuring_def)
  have self: "\<exists>k. evm = evm\<lparr>evm_cache := k\<rparr>" by (rule exI [of _ "evm_cache evm"]) simp
  have upd: "evm\<lparr>evm_StateDB := snd (GetNonce (ee_env ee) (Origin ee) (evm_StateDB evm)), evm_cache := k\<rparr> =
      evm\<lparr>evm_cache := k\<rparr>" for k
    by (simp add: n)
  let ?f = "turingFetch ee (evm_world evm) input spare caller"
  consider c where "?f = Ok (Inl c)" | t where "?f = Ok (Inr t)" | "\<forall>x. ?f \<noteq> Ok x" by (metis sum.exhaust)
  then have "\<exists>k. evm' = evm\<lparr>evm_cache := k\<rparr>"
    using assms(1) self unfolding bobaTuringCall_def Let_def case_prod_beta upd
    by cases (auto simp: res_bind_eq_Ok res_map_eq_Ok split: if_splits)
  then show ?thesis using w by auto
qed

lemma turingRequest_state:
  assumes "turingRequest ee input spare caller evm = Ok (updated, evm')" and "loaded (Origin ee) (evm_StateDB evm)"
  shows "\<exists>k. evm' = withTuring (evm_Turing evm) (evm_TuringDepth evm) k (evm_world evm + 1) evm"
proof (cases "isTuring2 input")
  case True
  then obtain code evm2 where "bobaTuringCall ee input spare caller (GasPrice ee = 0) evm = Ok ((updated, code), evm2)"
    "evm' = evm2\<lparr>evm_world := evm_world evm + 1\<rparr>"
    using assms(1) by (auto simp: turingRequest_def res_map_eq_Ok)
  with bobaTuringCall_state [OF this(1) assms(2)] show ?thesis by (auto simp: withTuring_def)
next
  case False
  then have "evm' = evm\<lparr>evm_world := evm_world evm + 1\<rparr>" using assms(1) by (auto simp: turingRequest_def res_map_eq_Ok)
  then show ?thesis by (intro exI [of _ "evm_cache evm"]) (simp add: withTuring_def)
qed

lemma turingCallPart_replay:
  assumes "Sequencer ee" and "turingFree run" and "length (evm_Turing evm) < 2"
    and "loaded (Origin ee) (evm_StateDB evm)"
    and part: "turingCallPart ee run snapshot caller input spare c gas evm = Ok (out, evm')"
    and "2 \<le> length (evm_Turing evm')"
    and ee': "ee_env ee' = ee_env ee" "ee_db ee' = ee_db ee" "\<not> Sequencer ee'"
  shows "\<exists>evm''. turingCallPart ee' run snapshot caller input spare c gas
      (withTuring (evm_Turing evm') 1 k w evm) = Ok (out, evm'') \<and> evm_StateDB evm'' = evm_StateDB evm'"
proof -
  have d: "(1 < evm_TuringDepth evm) = False" using part assms(3,6) by (auto simp: turingCallPart_def)
  obtain check s1 where ck: "TuringCheck (ee_env ee) (ee_db ee) caller (evm_StateDB evm) = (check, s1)" by fastforce
  let ?evm1 = "evm\<lparr>evm_StateDB := s1\<rparr>"
  have ok: "check = Ok ()" using part assms(1,3,6) d ck by (auto simp: turingCallPart_def Let_def split: if_splits)
  have "loaded (Origin ee) (evm_StateDB ?evm1)"
    using assms(4) ck loaded_reads(6) [of "Origin ee" "evm_StateDB evm" "ee_env ee" "ee_db ee" caller] by simp
  note st = turingRequest_state [OF _ this]
  obtain updated evm2 where rq: "turingRequest ee input spare caller ?evm1 = Ok (updated, evm2)"
    and fin: "turingFinish ee snapshot caller gas (case run evm2 c updated False of
        (r, g, evm3) \<Rightarrow> (r, g, evm3\<lparr>evm_Turing := updated, evm_TuringDepth := evm_TuringDepth evm3 + 1\<rparr>)) = Ok (out, evm')"
    using part assms(1,3) d ck ok
    by (simp add: turingCallPart_def Let_def res_bind_eq_Ok res_map_eq_Ok) auto
  obtain k2 w2 where e2: "evm2 = withTuring (evm_Turing evm) (evm_TuringDepth evm) k2 w2 ?evm1"
    using st [OF rq] by auto
  obtain r g evm3 where run1: "run ?evm1 c updated False = (r, g, evm3)" by (metis prod_cases3)
  have free: "run (withTuring t d k w ?evm1) c updated False = (r, g, withTuring t d k w evm3)" for t d k w
    using assms(2) [unfolded turingFree_def, rule_format, of t d k w ?evm1 c updated False] run1 by simp
  have "turingFinish ee snapshot caller gas (r, g, withTuring updated (evm_TuringDepth evm + 1) k2 w2 evm3) = Ok (out, evm')"
    using fin unfolding e2 free by (simp add: withTuring_update)
  then obtain e0 where e0: "turingFinish ee snapshot caller gas (r, g, evm3) = Ok (out, e0)"
    "evm' = withTuring updated (evm_TuringDepth evm + 1) k2 w2 e0"
    by (auto simp: turingFinish_env [OF refl refl] res_map_eq_Ok)
  have "turingCallPart ee' run snapshot caller input spare c gas (withTuring updated 1 k w evm) =
      turingFinish ee' snapshot caller gas (r, g, withTuring updated 1 k w evm3)"
    using assms(6) e0(2) ck ok free ee' by (simp add: turingCallPart_def Let_def)
  then show ?thesis using e0 by (simp add: turingFinish_env [OF ee'(1,2)])
qed

section \<open>The answer to a request\<close>

lemma turingFetch_code: "turingFetch ee w input spare caller = Ok (Inl code) \<Longrightarrow> code \<noteq> 0"
  by (auto simp: turingFetch_def Let_def split: if_splits res.splits)

lemma turingFetch_Inr:
  assumes "turingFetch ee w input spare caller = Ok (Inr ret)" and "228 \<le> length input"
  shows "let n = unat (input ! 99) + 4;
      url = take (unat (input ! 131)) (drop (unat (input ! 67) + 36) (input @ spare)) in
    \<exists>enc response. dial ee w url \<and> callTimeout ee w url caller (drop n input) = Ok enc \<and>
      hex_Decode enc = Ok response \<and> length response \<le> 160 \<and> 36 \<le> n \<and> n \<le> length input \<and>
      ret = (take n input)[35 := 2] @ response"
proof -
  have e: "drop 4 input ! 95 = input ! 99" "drop 4 input ! 63 = input ! 67" "drop 4 input ! 127 = input ! 131"
    using assms(2) by simp_all
  have "drop 4 input @ spare = drop 4 (input @ spare)" using assms(2) by simp
  then have d: "drop (k + 32) (drop 4 input @ spare) = drop (k + 36) (input @ spare)" for k
    by (simp only: drop_drop add.assoc) simp
  have r: "drop k (drop 4 input) = drop (k + 4) input" for k by simp
  show ?thesis
    using assms unfolding turingFetch_def Let_def e d r
    by (auto simp: not_less not_le simp del: drop_append take_append drop_drop split: if_splits res.splits)
qed

lemma bobaTuringCall_miss:
  fixes ee evm caller input
  defines "w \<equiv> evm_world evm"
    and "key \<equiv> turingKey (ee_env ee) caller (Origin ee) (fst (GetNonce (ee_env ee) (Origin ee) (evm_StateDB evm))) input"
  assumes "bobaTuringCall ee input spare caller mayBlock evm = Ok ((ret, code), evm')"
    and "fst (cache_Get (clock ee w 0) key (evm_cache evm)) = []"
  obtains "code \<noteq> 0" "ret = input[35 := of_nat code]"
  | c where "code = 0" "mayBlock" "228 \<le> length input" "drop 4 input ! 31 = 1"
    "turingFetch ee w input spare caller = Ok (Inr ret)"
    "cache_Put (clock ee w 2) key ret (snd (cache_Get (clock ee w 0) key (evm_cache evm))) = Ok c"
    "evm_cache evm' = cache_Trim (clock ee w 3) c"
proof -
  let ?f = "turingFetch ee w input spare caller"
  note u = assms(3) [unfolded bobaTuringCall_def Let_def case_prod_beta, folded w_def, folded key_def]
  consider x where "?f = Ok (Inl x)" | t where "?f = Ok (Inr t)" | "\<forall>x. ?f \<noteq> Ok x" by (metis sum.exhaust)
  then show thesis
  proof cases
    case 1
    then show thesis using that(1) u assms(4) turingFetch_code [OF 1]
      by (auto simp: rTypeIs_def res_map_eq_Ok split: if_splits)
  next
    case 2
    then show thesis using that u assms(4) by (auto simp: rTypeIs_def res_map_eq_Ok split: if_splits)
  next
    case 3
    then show thesis using that(1) u assms(4) by (auto simp: rTypeIs_def res_bind_eq_Ok split: if_splits)
  qed
qed


section \<open>Properties\<close>

text \<open>
  C3: a call that fails leaves no trace in the state. Apart from Turing requests, whenever a call
  returns an error the abstract state is the one before the call: value transfer, account creation and
  all that the code did, at any depth, are undone; and no gas is created.
\<close>

theorem Call_error_restores:
  assumes "usable (ee_env ee) (ee_db ee) (evm_StateDB evm)" and "runnerOk ee run"
    and "\<not> isTuring2 input" and "\<not> isGetRand2 input"
    and "Call ee run caller a input spare gas value evm = Ok ((ret, g, Some e), evm')"
  shows "abst (ee_env ee) (ee_db ee) (evm_StateDB evm') = abst (ee_env ee) (ee_db ee) (evm_StateDB evm) \<and> g \<le> gas"
  using assms(5)
proof (cases rule: Call_cases)
  case (Poor s1)
  then show ?thesis using CanTransfer_read [OF _ assms(1)] by auto
next
  case (Run s1 snapshot s2 exists s3 contract s6)
  note u = CanTransfer_read [OF Run(1) assms(1)]
  note ops = enter_runOps [OF Run(3,4)]
  obtain ret7 err g7 evm7 where r: "run (evm\<lparr>evm_StateDB := s6\<rparr>) contract input False = ((ret7, err), g7, evm7)"
    by (metis prod_cases3 surj_pair)
  then have f: "finishCall ee snapshot ret7 err g7 evm7 = Ok ((ret, g, Some e), evm')"
    using Run(5) assms(3,4) by simp
  obtain ops' where "runOps (ee_env ee) (ee_db ee) ops' s6 = Ok (evm_StateDB evm7)"
    using runnerOkD(1) [OF assms(2) r] by auto
  with ops have all: "runOps (ee_env ee) (ee_db ee) (enterOps caller a value exists @ ops') s2 = Ok (evm_StateDB evm7)"
    by (simp add: runOps_append)
  have v: "snapshot \<in> fst ` set (validRevisions (evm_StateDB evm7))"
    using enter_valid [OF u(1) Run(2) ops] runnerOkD(2) [OF assms(2) r] by auto
  note e = finishCall_error [OF u(1) Run(2) all v f]
  have "g7 \<le> gas" using runnerOkD(3) [OF assms(2) r] c_Gas_callContract [OF Run(4)] by simp
  with e u(2) show ?thesis by auto
qed simp

text \<open>
  C36: a Turing request that is refused because Turing already ran keeps the value: the call returns an
  error and all gas, but the state is not reverted, so the caller has paid the value to the callee.
\<close>

theorem Call_turing_depth_keeps_value:
  assumes "ethOk (ee_env ee) (ee_db ee)" and "isTuring2 input \<or> isGetRand2 input" and "1 < evm_TuringDepth evm"
    and "\<not> NoRecursion ee" and "evm_depth evm \<le> CallCreateDepth"
    and "0 < value" and "value \<le> ethOf (ee_env ee) (ee_db ee) (evm_StateDB evm) caller" and "caller \<noteq> a"
    and "ethOf (ee_env ee) (ee_db ee) (evm_StateDB evm) a + value < 2 ^ 256"
  shows "\<exists>evm'. Call ee run caller a input spare gas value evm = Ok (([], gas, Some ErrTuringDepth), evm') \<and>
    ethOf (ee_env ee) (ee_db ee) (evm_StateDB evm') =
      (ethOf (ee_env ee) (ee_db ee) (evm_StateDB evm))
        (caller := ethOf (ee_env ee) (ee_db ee) (evm_StateDB evm) caller - value,
         a := ethOf (ee_env ee) (ee_db ee) (evm_StateDB evm) a + value)"
proof -
  let ?s = "evm_StateDB evm"
  obtain s1 where can: "CanTransfer ee caller value ?s = (True, s1)"
    using assms(7) by (simp add: CanTransfer_def ethOf_def case_prod_beta)
  obtain snapshot s2 where sn: "Snapshot s1 = (snapshot, s2)" by fastforce
  obtain exists s3 where ex: "Exist (ee_env ee) a s2 = (exists, s3)" by fastforce
  obtain contract s6 where c: "callContract ee a (NewContract caller a value gas)
      (Transfer ee caller a value (if exists then s3 else CreateAccount (ee_env ee) a s3)) = (contract, s6)" by fastforce
  have "Call ee run caller a input spare gas value evm =
      Ok (([], gas, Some ErrTuringDepth), evm\<lparr>evm_StateDB := s6\<rparr>)"
    using assms(2-6) can sn ex c by (simp add: Call_def Let_def turingCallPart_def)
  moreover have "ethOf (ee_env ee) (ee_db ee) s6 = (ethOf (ee_env ee) (ee_db ee) ?s)
      (caller := ethOf (ee_env ee) (ee_db ee) ?s caller - value, a := ethOf (ee_env ee) (ee_db ee) ?s a + value)"
    by (rule enter_eth [OF assms(1) can sn ex c]) (use assms(6,8,9) in simp_all)
  ultimately show ?thesis by auto
qed

text \<open>
  C4: a replica reproduces the sequencer. When the sequencer executed a Turing request in a call, a
  replica that is given the recorded response in its Turing context gets the same output, gas, error and
  state from the same call, whatever its own outside world is: the endpoint may be unreachable or answer
  differently, random numbers and the clock may differ. The code makes no nested Turing request and the
  account of the origin is in memory, as it is during a transaction.
\<close>

theorem turing_replay:
  assumes "Sequencer ee" and "turingFree run" and "UsingOVM (ee_env ee)" and "isTuring2 input \<or> isGetRand2 input"
    and "length (evm_Turing evm) < 2" and "loaded (Origin ee) (evm_StateDB evm)"
    and "Call ee run caller a input spare gas value evm = Ok (out, evm')" and "2 \<le> length (evm_Turing evm')"
  shows "\<exists>evm''. Call (elsewhere d ct rand cl (ee\<lparr>Sequencer := False\<rparr>)) run caller a input spare gas value
      (withTuring (evm_Turing evm') 1 k w evm) = Ok (out, evm'') \<and> evm_StateDB evm'' = evm_StateDB evm'"
proof -
  let ?ee = "elsewhere d ct rand cl (ee\<lparr>Sequencer := False\<rparr>)"
  have g: "(NoRecursion ee \<and> 0 < evm_depth evm) = False" "(CallCreateDepth < evm_depth evm) = False"
    using assms(5,7,8) by (auto simp: Call_def split: if_splits)
  obtain can s1 where can: "CanTransfer ee caller value (evm_StateDB evm) = (can, s1)" by fastforce
  obtain snapshot s2 where sn: "Snapshot s1 = (snapshot, s2)" by fastforce
  obtain exists s3 where ex: "Exist (ee_env ee) a s2 = (exists, s3)" by fastforce
  let ?s4 = "if exists then s3 else CreateAccount (ee_env ee) a s3"
  obtain c s6 where c: "callContract ee a (NewContract caller a value gas) (Transfer ee caller a value ?s4) = (c, s6)"
    by fastforce
  note u = assms(7) [unfolded Call_def g if_False can Let_def prod.case sn ex c]
  have b: "can = True" "(\<not> exists \<and> a \<notin> precompiles ee \<and> IsEIP158 ee \<and> value = 0) = False"
    using u assms(5,8) by (auto split: if_splits)
  have part: "turingCallPart ee run snapshot caller input spare c gas (evm\<lparr>evm_StateDB := s6\<rparr>) = Ok (out, evm')"
    using u assms(4) unfolding b by simp
  have l: "loaded (Origin ee) s6"
  proof -
    have "loaded (Origin ee) s1"
      using assms(6) arg_cong [OF can, of snd] by (auto simp: CanTransfer_def case_prod_beta)
    then have "loaded (Origin ee) s3"
      using arg_cong [OF sn, of snd] arg_cong [OF ex, of snd] loaded_reads(2,3) by (metis snd_conv)
    then have "loaded (Origin ee) (Transfer ee caller a value ?s4)" using assms(3) by simp
    then show ?thesis by (rule loaded_callContract [OF c])
  qed
  from turingCallPart_replay [OF assms(1,2) _ _ part assms(8), of ?ee k w] l assms(5) obtain evm'' where
    e: "turingCallPart ?ee run snapshot caller input spare c gas
      (withTuring (evm_Turing evm') 1 k w (evm\<lparr>evm_StateDB := s6\<rparr>)) = Ok (out, evm'')" "evm_StateDB evm'' = evm_StateDB evm'"
    by auto
  have same: "CanTransfer ?ee = CanTransfer ee" "Transfer ?ee = Transfer ee" "callContract ?ee = callContract ee"
    by (simp_all add: CanTransfer_def Transfer_def callContract_def fun_eq_iff)
  have sel: "NoRecursion ?ee = NoRecursion ee" "precompiles ?ee = precompiles ee" "IsEIP158 ?ee = IsEIP158 ee"
    "ee_env ?ee = ee_env ee" by simp_all
  have "Call ?ee run caller a input spare gas value (withTuring (evm_Turing evm') 1 k w evm) = Ok (out, evm'')"
    unfolding Call_def same sel withTuring_simps g if_False can Let_def prod.case sn ex c b
    using assms(4) e(1) by simp
  with e(2) show ?thesis by blast
qed

text \<open>
  C29: what a Turing request is replaced by when the cache has no answer. Either it failed, and the
  result is the input with the error code in byte 35; or the endpoint whose address is in the input
  was asked with the payload of the input, and the result is the input up to the payload with request type
  2 followed by the decoded response, which has at most 160 bytes, so that the result has at most 419.
\<close>

theorem turing_response:
  assumes "bobaTuringCall ee input spare caller mayBlock evm = Ok ((ret, code), evm')"
    and "fst (cache_Get (clock ee (evm_world evm) 0)
      (turingKey (ee_env ee) caller (Origin ee) (fst (GetNonce (ee_env ee) (Origin ee) (evm_StateDB evm))) input)
      (evm_cache evm)) = []"
  shows "code \<noteq> 0 \<and> ret = input[35 := of_nat code] \<or>
    code = 0 \<and> mayBlock \<and>
    (let n = unat (input ! 99) + 4;
         url = take (unat (input ! 131)) (drop (unat (input ! 67) + 36) (input @ spare)) in
     \<exists>enc response. dial ee (evm_world evm) url \<and>
       callTimeout ee (evm_world evm) url caller (drop n input) = Ok enc \<and>
       hex_Decode enc = Ok response \<and> length response \<le> 160 \<and> 36 \<le> n \<and> n \<le> length input \<and>
       ret = (take n input)[35 := 2] @ response \<and> length ret \<le> 419)"
  using assms
proof (cases rule: bobaTuringCall_miss)
  case (2 c)
  have "unat (input ! 99) < 256" by (rule unat_u8_less)
  with turingFetch_Inr [OF 2(5,3)] 2(1,2) show ?thesis by (auto simp: Let_def)
qed simp


section \<open>Instances\<close>

definition sampleEE :: EvmEnv where
  "sampleEE = \<lparr>ee_env = sampleEnv, ee_db = sampleDb, NoRecursion = False, precompiles = {}, IsHomestead = True,
     IsEIP158 = False, IsBerlin = False, Origin = 1, GasPrice = 0, Sequencer = True, dial = (\<lambda>_ _. True),
     callTimeout = (\<lambda>_ _ _ _. Ok [48, 120, 48, 55]), randomInt = (\<lambda>_. Ok 7), clock = (\<lambda>_ _. 0),
     encodeSolidityError = (\<lambda>_. None)\<rparr>"

definition sampleEvm :: "StateDB \<Rightarrow> EVM" where
  "sampleEvm s = \<lparr>evm_StateDB = s, evm_depth = 0, evm_Turing = [], evm_TuringDepth = 0,
     evm_cache = \<lparr>tc_entries = None, tc_nextClean = 0\<rparr>, evm_world = 0\<rparr>"

definition revertingRun :: runner where
  "revertingRun evm c input ro = (([], Some errExecutionReverted), c_Gas c, evm)"

definition succeedingRun :: runner where
  "succeedingRun evm c input ro = ((input, None), c_Gas c, evm)"

lemma runnerOk_reverting: "runnerOk sampleEE revertingRun"
  by (auto simp: runnerOk_def revertingRun_def intro: exI [of _ "[]"])

lemma turingFree_succeeding: "turingFree succeedingRun"
  by (simp add: turingFree_def succeedingRun_def)

lemmas call_simps = Call_def CanTransfer_def GetBalance_def GetState_def sampleEE_def sampleEnv_def sampleDb_def
  sampleEvm_def Exist_def Empty_def CreateAccount_def Transfer_def AddBalance_def SubBalance_def updateSlot_def
  callContract_def GetCodeHash_def GetCode_def obj_Code_def NewContract_def SetCallCode_def BigToHash_def Big_def
  obj_setBalance_def CallCreateDepth_def finishCall_def

lemma Call_error_restores_witness:
  "\<exists>ret g e evm'. Call sampleEE revertingRun 1 2 [] [] 100 0 (sampleEvm (NewStateDB Map.empty)) = Ok ((ret, g, Some e), evm') \<and>
     abst sampleEnv sampleDb (evm_StateDB evm') = abst sampleEnv sampleDb (NewStateDB Map.empty)"
proof -
  obtain ret g e evm' where c:
    "Call sampleEE revertingRun 1 2 [] [] 100 0 (sampleEvm (NewStateDB Map.empty)) = Ok ((ret, g, Some e), evm')"
    by (simp add: call_simps sample_simps revertingRun_def isTuring2_def isGetRand2_def)
  have n: "\<not> isTuring2 []" "\<not> isGetRand2 []" by (simp_all add: isTuring2_def isGetRand2_def)
  have u: "usable (ee_env sampleEE) (ee_db sampleEE) (evm_StateDB (sampleEvm (NewStateDB Map.empty)))"
    using usable_New by (simp add: sampleEvm_def)
  from Call_error_restores [OF u runnerOk_reverting n c]
  have "abst sampleEnv sampleDb (evm_StateDB evm') = abst sampleEnv sampleDb (NewStateDB Map.empty)"
    by (simp add: sampleEvm_def sampleEE_def)
  with c show ?thesis by blast
qed

definition richState :: StateDB where
  "richState = AddBalance sampleEnv sampleDb 1 10 (NewStateDB Map.empty)"

lemma richState_eth: "ethOf sampleEnv sampleDb richState = (\<lambda>_. 0)(1 := 10)"
proof -
  have "ethOf sampleEnv sampleDb (NewStateDB Map.empty) = (\<lambda>_. 0)"
    using sample_ok(1) by (intro ext) (simp add: ethOf_slot ethOk_def Big_def)
  then show ?thesis by (simp add: richState_def eth.bal_add [OF sample_ok(1)])
qed

lemma Call_turing_depth_keeps_value_witness:
  "\<exists>evm'. Call sampleEE succeedingRun 1 2 [125, 147, 97, 108] [] 100 4 ((sampleEvm richState)\<lparr>evm_TuringDepth := 2\<rparr>) =
       Ok (([], 100, Some ErrTuringDepth), evm') \<and>
     ethOf sampleEnv sampleDb (evm_StateDB evm') 1 = 6 \<and> ethOf sampleEnv sampleDb (evm_StateDB evm') 2 = 4"
proof -
  have e: "ee_env sampleEE = sampleEnv" "ee_db sampleEE = sampleDb" "evm_StateDB (sampleEvm richState) = richState"
    by (simp_all add: sampleEE_def sampleEvm_def)
  have "\<exists>evm'. Call sampleEE succeedingRun 1 2 [125, 147, 97, 108] [] 100 4 ((sampleEvm richState)\<lparr>evm_TuringDepth := 2\<rparr>) =
       Ok (([], 100, Some ErrTuringDepth), evm') \<and>
     ethOf (ee_env sampleEE) (ee_db sampleEE) (evm_StateDB evm') =
       (ethOf (ee_env sampleEE) (ee_db sampleEE) (evm_StateDB ((sampleEvm richState)\<lparr>evm_TuringDepth := 2\<rparr>)))
        (1 := ethOf (ee_env sampleEE) (ee_db sampleEE) (evm_StateDB ((sampleEvm richState)\<lparr>evm_TuringDepth := 2\<rparr>)) 1 - 4,
         2 := ethOf (ee_env sampleEE) (ee_db sampleEE) (evm_StateDB ((sampleEvm richState)\<lparr>evm_TuringDepth := 2\<rparr>)) 2 + 4)"
    by (rule Call_turing_depth_keeps_value)
      (simp_all add: e richState_eth sample_ok isTuring2_def sampleEvm_def CallCreateDepth_def, simp add: sampleEE_def)
  then show ?thesis by (auto simp: e richState_eth)
qed

definition randInput :: bytes where
  "randInput = [73, 61, 87, 214] @ replicate 31 0 @ [1] @ replicate 32 0"

text \<open>With no credit and no price, a request for a random number is executed.\<close>

lemma turing_idle:
  assumes "slotOf (abst env db s) = (\<lambda>_ _. 0)"
  shows "\<exists>s1. TuringCheck env db u s = (Ok (), s1) \<and> abst env db s1 = abst env db s"
    "\<exists>s2. TuringCharge env db u s = (Ok (), s2)"
  using assms by (simp_all add: TuringCheck_def TuringCharge_def Let_def case_prod_beta fst_GetState)

lemma slot_Transfer_0:
  assumes "ethOk (ee_env ee) (ee_db ee)"
  shows "slotOf (abst (ee_env ee) (ee_db ee) (Transfer ee a b 0 s)) = slotOf (abst (ee_env ee) (ee_db ee) s)"
  using assms
  by (simp add: Transfer_def AddBalance_def SubBalance_def slot_updateSlot ethOk_def BigToHash_def Big_def fun_upd_idem)

lemma Call_rand_idle:
  assumes "slotOf (abst sampleEnv sampleDb s) = (\<lambda>_ _. 0)"
  shows "\<exists>out evm'. Call sampleEE succeedingRun 2 3 randInput [] 100 0 (sampleEvm s) = Ok (out, evm') \<and>
    2 \<le> length (evm_Turing evm')"
proof -
  have e: "ee_env sampleEE = sampleEnv" "ee_db sampleEE = sampleDb" "evm_StateDB (sampleEvm s) = s"
    by (simp_all add: sampleEE_def sampleEvm_def)
  have t: "isGetRand2 randInput" "\<not> isTuring2 randInput" by (simp_all add: isGetRand2_def isTuring2_def randInput_def)
  have r: "bobaTuringRandom sampleEE w randInput = Ok ([73, 61, 87, 214] @ be_bytes 32 2 @ be_bytes 32 7)" for w
    by (simp add: bobaTuringRandom_def randInput_def sampleEE_def nth_append Let_def)
  have "0 \<le> fst (GetBalance sampleEnv sampleDb 2 s)"
    using eth.bal_nonneg [OF sample_ok(1), of s 2] by (simp add: ethOf_def)
  then obtain s1 where can: "CanTransfer sampleEE 2 0 s = (True, s1)" by (simp add: CanTransfer_def case_prod_beta e)
  obtain snapshot s2 where sn: "Snapshot s1 = (snapshot, s2)" by fastforce
  obtain exists s3 where ex: "Exist sampleEnv 3 s2 = (exists, s3)" by fastforce
  let ?s4 = "if exists then s3 else CreateAccount sampleEnv 3 s3"
  obtain c s6 where c: "callContract sampleEE 3 (NewContract 2 3 0 100) (Transfer sampleEE 2 3 0 ?s4) = (c, s6)" by fastforce
  have a3: "abst sampleEnv sampleDb s3 = abst sampleEnv sampleDb s"
    using arg_cong [OF can, of snd] arg_cong [OF sn, of snd] arg_cong [OF ex, of snd]
    by (auto simp: CanTransfer_def case_prod_beta e)
  have "slotOf (abst sampleEnv sampleDb ?s4) = (\<lambda>_ _. 0)"
    using a3 assms slot_CreateAccount [OF _ sample_ok(3), of sampleEnv s3 3] Exist_live [OF ex] by auto
  then have z: "slotOf (abst sampleEnv sampleDb s6) = (\<lambda>_ _. 0)"
    using abst_callContract [OF c] slot_Transfer_0 [of sampleEE 2 3 ?s4] sample_ok(1) by (simp add: e)
  obtain s7 where s7: "TuringCheck sampleEnv sampleDb 2 s6 = (Ok (), s7)"
    "abst sampleEnv sampleDb s7 = abst sampleEnv sampleDb s6" using turing_idle(1) [OF z] by blast
  obtain s8 where s8: "TuringCharge sampleEnv sampleDb 2 s7 = (Ok (), s8)"
    using turing_idle(2) [of sampleEnv sampleDb s7 2] z s7(2) by auto
  have g: "(NoRecursion sampleEE \<and> 0 < evm_depth (sampleEvm s)) = False"
    "(CallCreateDepth < evm_depth (sampleEvm s)) = False" "IsEIP158 sampleEE = False"
    by (simp_all add: sampleEE_def sampleEvm_def CallCreateDepth_def)
  have q: "Sequencer sampleEE" by (simp add: sampleEE_def)
  have "\<exists>out evm'. turingCallPart sampleEE succeedingRun snapshot 2 randInput [] c 100 ((sampleEvm s)\<lparr>evm_StateDB := s6\<rparr>) = Ok (out, evm') \<and>
      2 \<le> length (evm_Turing evm')"
    using t r s7(1) s8 q
    by (simp add: turingCallPart_def turingRequest_def turingFinish_def finishCall_def succeedingRun_def e sampleEvm_def)
  then show ?thesis
    unfolding Call_def e g if_False can Let_def prod.case sn ex c using t by simp
qed

lemma turing_replay_witness:
  "\<exists>out evm' evm''. Call sampleEE succeedingRun 2 3 randInput [] 100 0
       (sampleEvm (SetNonce sampleEnv 1 5 (NewStateDB Map.empty))) = Ok (out, evm') \<and>
     Call (elsewhere (\<lambda>_ _. False) (\<lambda>_ _ _ _. Err EOF) (\<lambda>_. Ok 8) (\<lambda>_ _. 9) (sampleEE\<lparr>Sequencer := False\<rparr>))
       succeedingRun 2 3 randInput [] 100 0
       (withTuring (evm_Turing evm') 1 \<lparr>tc_entries = None, tc_nextClean = 0\<rparr> 0
         (sampleEvm (SetNonce sampleEnv 1 5 (NewStateDB Map.empty)))) = Ok (out, evm'') \<and>
     evm_StateDB evm'' = evm_StateDB evm'"
proof -
  let ?evm = "sampleEvm (SetNonce sampleEnv 1 5 (NewStateDB Map.empty))"
  have t: "isGetRand2 randInput" by (simp add: isGetRand2_def randInput_def)
  obtain out evm' where c: "Call sampleEE succeedingRun 2 3 randInput [] 100 0 ?evm = Ok (out, evm')"
    "2 \<le> length (evm_Turing evm')"
    using Call_rand_idle [of "SetNonce sampleEnv 1 5 (NewStateDB Map.empty)"]
      slot_SetNonce [OF sample_ok(3), of sampleEnv 1 5 "NewStateDB Map.empty"]
    by (auto simp: fun_eq_iff)
  have l: "loaded (Origin sampleEE) (evm_StateDB ?evm)" "length (evm_Turing ?evm) < 2" "Sequencer sampleEE"
    "UsingOVM (ee_env sampleEE)"
    by (simp_all add: loaded_def sampleEE_def sampleEvm_def sampleEnv_def SetNonce_def obj_SetNonce_def sample_simps)
  from turing_replay [OF l(3) turingFree_succeeding l(4) disjI2 [OF t(1)] l(2,1) c] c(1) show ?thesis by blast
qed

definition turingInput :: bytes where
  "turingInput = [125, 147, 97, 108] @ (replicate 224 0)[31 := 1, 63 := 96, 95 := 192, 127 := 1]"

lemma turing_sample:
  "\<exists>ret evm'. bobaTuringCall sampleEE turingInput [] 1 True (sampleEvm (NewStateDB Map.empty)) = Ok ((ret, 0), evm') \<and>
     evm_StateDB evm' = snd (GetNonce (ee_env sampleEE) (Origin sampleEE) (NewStateDB Map.empty))"
  "fst (cache_Get t key (evm_cache (sampleEvm s))) = []"
proof -
  have n: "drop 4 turingInput ! 63 = 96" "drop 4 turingInput ! 95 = 192" "drop 4 turingInput ! 127 = 1"
    "drop 4 turingInput ! 31 = 1" "length turingInput = 228"
    by (simp_all add: turingInput_def nth_list_update)
  have d: "hex_Decode [48, 120, 48, 55] = Ok [7]" by (simp add: hex_Decode_def has0xPrefix_def decodeNibble_def)
  have "\<exists>ret. turingFetch sampleEE 0 turingInput [] 1 = Ok (Inr ret)"
    unfolding turingFetch_def Let_def n by (simp add: n d sampleEE_def)
  then obtain ret where r: "turingFetch sampleEE 0 turingInput [] 1 = Ok (Inr ret)" by blast
  show c: "fst (cache_Get t key (evm_cache (sampleEvm s))) = []" for t key s
    by (simp add: cache_Get_def sampleEvm_def cache_Init_def Let_def)
  show "\<exists>ret evm'. bobaTuringCall sampleEE turingInput [] 1 True (sampleEvm (NewStateDB Map.empty)) = Ok ((ret, 0), evm') \<and>
     evm_StateDB evm' = snd (GetNonce (ee_env sampleEE) (Origin sampleEE) (NewStateDB Map.empty))"
    unfolding bobaTuringCall_def Let_def n
    by (simp add: n case_prod_beta r sampleEvm_def cache_Get_def cache_Init_def cache_Put_def)
qed

lemma turing_response_witness:
  "\<exists>ret evm'. bobaTuringCall sampleEE turingInput [] 1 True (sampleEvm (NewStateDB Map.empty)) = Ok ((ret, 0), evm') \<and>
     ret = (take 196 turingInput)[35 := 2] @ [7] \<and> length ret \<le> 419"
proof -
  obtain ret evm' where r: "bobaTuringCall sampleEE turingInput [] 1 True (sampleEvm (NewStateDB Map.empty)) = Ok ((ret, 0), evm')"
    using turing_sample(1) by blast
  have d: "hex_Decode [48, 120, 48, 55] = Ok [7]" by (simp add: hex_Decode_def has0xPrefix_def decodeNibble_def)
  have n: "turingInput ! 99 = 192" by (simp add: turingInput_def nth_append nth_list_update)
  have ct: "callTimeout sampleEE w u a p = Ok [48, 120, 48, 55]" for w u a p by (simp add: sampleEE_def)
  from turing_response [OF r turing_sample(2)] have "ret = (take 196 turingInput)[35 := 2] @ [7] \<and> length ret \<le> 419"
    unfolding Let_def n ct by (auto simp: d)
  with r show ?thesis by blast
qed


end
