(* ===== verification/Go_Float.thy ===== *)
theory Go_Float
  imports Go_Prelude Complex_Main
begin

text \<open>
  Floating-point numbers of Go. The finite values of \<open>big.Float\<close> and \<open>float64\<close> are rational
  numbers; every operation rounds its exact result to the nearest representable number, ties to
  even, which is the default of both. The exponent of a \<open>big.Float\<close> is not bounded here. For
  \<open>float64\<close> there are the subnormal numbers, overflow to the infinities, and NaN; zero has no sign.
\<close>

section \<open>Binary exponents\<close>

text \<open>\<open>big.Int.BitLen\<close>\<close>

fun bitLen :: "nat \<Rightarrow> nat" where
  "bitLen n = (if n = 0 then 0 else Suc (bitLen (n div 2)))"

declare bitLen.simps [simp del]

lemma bitLen_0 [simp]: "bitLen 0 = 0"
  by (simp add: bitLen.simps)

lemma bitLen_upper: "n < 2 ^ bitLen n"
proof (induction n rule: bitLen.induct)
  case (1 n)
  show ?case
  proof (cases "n = 0")
    case False
    then have "n div 2 < 2 ^ bitLen (n div 2)" using 1 by blast
    then show ?thesis using False by (subst bitLen.simps) simp
  qed (simp add: bitLen.simps)
qed

lemma bitLen_lower: "0 < n \<Longrightarrow> 2 ^ bitLen n \<le> 2 * n"
proof (induction n rule: bitLen.induct)
  case (1 n)
  show ?case
  proof (cases "n = 1")
    case True
    then show ?thesis by (simp add: bitLen.simps)
  next
    case False
    with 1 have "2 ^ bitLen (n div 2) \<le> 2 * (n div 2)" by simp
    then show ?thesis using 1(2) by (subst bitLen.simps) simp
  qed
qed

text \<open>The exponent \<open>e\<close> with \<open>2\<^sup>e \<le> q < 2\<^sup>e\<^sup>+\<^sup>1\<close>, for a positive number.\<close>

definition floorLog2 :: "rat \<Rightarrow> int" where
  "floorLog2 q =
     (let (a, b) = quotient_of q; k = int (bitLen (nat a)) - int (bitLen (nat b))
      in if 2 powi k \<le> q then k else k - 1)"

lemma powi_2_diff: "(2 :: rat) powi (int m - int n) = 2 ^ m / 2 ^ n"
  by (simp add: power_int_diff)

lemma bitLen_rat:
  assumes "0 < a"
  shows "(of_int a :: rat) < 2 ^ bitLen (nat a)" "2 ^ bitLen (nat a) \<le> 2 * (of_int a :: rat)"
proof -
  have n: "(of_nat (nat a) :: rat) = of_int a" using assms by (simp add: of_nat_nat)
  have "of_nat (nat a) < (of_nat (2 ^ bitLen (nat a)) :: rat)"
    unfolding of_nat_less_iff by (rule bitLen_upper)
  then show "(of_int a :: rat) < 2 ^ bitLen (nat a)" unfolding n by simp
  have "of_nat (2 ^ bitLen (nat a)) \<le> (of_nat (2 * nat a) :: rat)"
    unfolding of_nat_le_iff using assms by (intro bitLen_lower) simp
  then show "2 ^ bitLen (nat a) \<le> 2 * (of_int a :: rat)" unfolding of_nat_mult n by simp
qed

lemma floorLog2_bounds:
  assumes "0 < q"
  shows "2 powi floorLog2 q \<le> q \<and> q < 2 powi (floorLog2 q + 1)"
proof -
  obtain a b where ab: "quotient_of q = (a, b)" by (cases "quotient_of q")
  have b: "0 < b" using quotient_of_denom_pos [OF ab] .
  have q: "q = of_int a / of_int b" using quotient_of_div [OF ab] .
  have a: "0 < a" using assms b unfolding q by (simp add: zero_less_divide_iff)
  let ?m = "bitLen (nat a)" and ?n = "bitLen (nat b)"
  note au = bitLen_rat [OF a] and bu = bitLen_rat [OF b]
  let ?k = "int ?m - int ?n"
  have b': "(0 :: rat) < of_int b" using b by simp
  have "q < 2 ^ ?m / of_int b" unfolding q using au(1) b' by (simp add: divide_strict_right_mono)
  also have "\<dots> \<le> 2 ^ ?m / (2 ^ ?n / 2)" using bu(2) b' by (intro divide_left_mono) simp_all
  also have "\<dots> = 2 powi (?k + 1)" by (simp add: power_int_add powi_2_diff)
  finally have up: "q < 2 powi (?k + 1)" .
  have "2 powi (?k - 1) = (2 ^ ?m / 2 :: rat) / 2 ^ ?n" by (simp add: power_int_diff)
  also have "\<dots> \<le> of_int a / 2 ^ ?n" using au(2) by (intro divide_right_mono) simp_all
  also have "\<dots> \<le> q" unfolding q using bu(1) b' a by (intro divide_left_mono) simp_all
  finally have lo: "2 powi (?k - 1) \<le> q" .
  from up lo show ?thesis by (simp add: floorLog2_def ab Let_def)
qed

section \<open>Rounding\<close>

definition roundEven :: "rat \<Rightarrow> int" where
  "roundEven q =
     (let f = \<lfloor>q\<rfloor>; d = q - of_int f
      in if d < 1 / 2 then f else if 1 / 2 < d then f + 1 else if even f then f else f + 1)"

definition roundTo :: "int \<Rightarrow> rat \<Rightarrow> rat" where
  "roundTo e q = of_int (roundEven (q / 2 powi e)) * 2 powi e"

text \<open>A \<open>big.Float\<close> with a mantissa of \<open>p\<close> bits.\<close>

definition roundPrec :: "nat \<Rightarrow> rat \<Rightarrow> rat" where
  "roundPrec p q = (if q = 0 then 0 else roundTo (floorLog2 \<bar>q\<bar> + 1 - int p) q)"

lemma roundEven_error: "\<bar>of_int (roundEven q) - q\<bar> \<le> 1 / 2"
  unfolding roundEven_def Let_def using floor_correct [of q] by (auto simp: abs_le_iff)

lemma roundEven_of_int [simp]: "roundEven (of_int i) = i"
  by (simp add: roundEven_def)

lemma roundEven_mono: "q \<le> q' \<Longrightarrow> roundEven q \<le> roundEven q'"
proof -
  assume le: "q \<le> q'"
  then consider "\<lfloor>q\<rfloor> = \<lfloor>q'\<rfloor>" | "\<lfloor>q\<rfloor> + 1 \<le> \<lfloor>q'\<rfloor>" using floor_mono [OF le] by linarith
  then show ?thesis
  proof cases
    case 1
    then show ?thesis using le by (auto simp: roundEven_def Let_def)
  next
    case 2
    have "roundEven q \<le> \<lfloor>q\<rfloor> + 1" "\<lfloor>q'\<rfloor> \<le> roundEven q'" by (auto simp: roundEven_def Let_def)
    with 2 show ?thesis by linarith
  qed
qed

lemma powi_2_pos [simp]: "0 < (2 :: rat) powi e"
  by (simp add: zero_less_power_int)

lemma powi_2_nz [simp]: "(2 :: rat) powi e \<noteq> 0"
  using powi_2_pos [of e] by linarith

lemma roundTo_error: "\<bar>roundTo e q - q\<bar> \<le> 2 powi e / 2"
proof -
  let ?r = "roundEven (q / 2 powi e)"
  have "roundTo e q - q = (of_int ?r - q / 2 powi e) * 2 powi e"
    by (simp add: roundTo_def left_diff_distrib)
  then have "\<bar>roundTo e q - q\<bar> = \<bar>of_int ?r - q / 2 powi e\<bar> * 2 powi e" by (simp add: abs_mult)
  also have "\<dots> \<le> 1 / 2 * 2 powi e"
    using roundEven_error [of "q / 2 powi e"] powi_2_pos [of e] by (intro mult_right_mono) simp_all
  finally show ?thesis by simp
qed

lemma roundTo_exact: "roundTo e (of_int m * 2 powi e) = of_int m * 2 powi e"
  by (simp add: roundTo_def)

lemma roundTo_mono: "q \<le> q' \<Longrightarrow> roundTo e q \<le> roundTo e q'"
  unfolding roundTo_def
  by (intro mult_right_mono of_int_le_iff [THEN iffD2] roundEven_mono divide_right_mono) simp_all

lemma roundPrec_0 [simp]: "roundPrec p 0 = 0"
  by (simp add: roundPrec_def)

text \<open>The relative error of a mantissa of \<open>p\<close> bits.\<close>

lemma roundPrec_error: "\<bar>roundPrec p q - q\<bar> \<le> \<bar>q\<bar> / 2 ^ p"
proof (cases "q = 0")
  case False
  let ?e = "floorLog2 \<bar>q\<bar>"
  have "2 powi ?e \<le> \<bar>q\<bar>" using floorLog2_bounds [of "\<bar>q\<bar>"] False by simp
  have "\<bar>roundPrec p q - q\<bar> \<le> 2 powi (?e + 1 - int p) / 2"
    using roundTo_error [of "?e + 1 - int p" q] False by (simp add: roundPrec_def)
  also have "\<dots> = 2 powi ?e / 2 ^ p" by (simp add: power_int_diff power_int_add)
  also have "\<dots> \<le> \<bar>q\<bar> / 2 ^ p" using \<open>2 powi ?e \<le> \<bar>q\<bar>\<close> by (intro divide_right_mono) simp_all
  finally show ?thesis .
qed simp

text \<open>Numbers with a short mantissa are not changed.\<close>

lemma roundTo_exact_le:
  assumes "e \<le> d"
  shows "roundTo e (of_int m * 2 powi d) = of_int m * 2 powi d"
proof -
  obtain k where d: "d = int k + e" using zle_iff_zadd [of e d] assms by (auto simp: add.commute)
  have "of_int m * 2 powi d = (of_int (m * 2 ^ k) :: rat) * 2 powi e"
    unfolding d by (simp add: power_int_add)
  then show ?thesis using roundTo_exact by metis
qed

lemma floorLog2_less:
  assumes "0 < q" and "q < 2 powi d"
  shows "floorLog2 q < d"
proof (rule ccontr)
  assume "\<not> ?thesis"
  then have "2 powi d \<le> (2 :: rat) powi floorLog2 q" by (intro power_int_increasing) simp_all
  with floorLog2_bounds [OF assms(1)] assms(2) show False by linarith
qed

lemma roundPrec_exact:
  assumes "\<bar>m\<bar> < 2 ^ p"
  shows "roundPrec p (of_int m * 2 powi d) = of_int m * 2 powi d"
proof (cases "m = 0")
  case False
  let ?q = "of_int m * 2 powi d :: rat"
  have "(of_int \<bar>m\<bar> :: rat) < of_int (2 ^ p)" unfolding of_int_less_iff by (rule assms)
  then have "\<bar>of_int m :: rat\<bar> < 2 ^ p" by simp
  then have "\<bar>?q\<bar> < 2 powi (int p + d)"
    by (simp add: abs_mult power_int_add)
  then have "floorLog2 \<bar>?q\<bar> < int p + d" using False by (intro floorLog2_less) simp_all
  then show ?thesis using False by (simp add: roundPrec_def roundTo_exact_le)
qed simp

lemma roundPrec_nat: "n < 2 ^ p \<Longrightarrow> roundPrec p (of_nat n) = of_nat n"
  using roundPrec_exact [of "int n" p 0] by simp

section \<open>\<open>float64\<close>\<close>

datatype float64 = Fin rat | PosInf | NegInf | NaN

definition f64_round :: "rat \<Rightarrow> float64" where
  "f64_round q =
     (let r = (if q = 0 then 0 else roundTo (max (floorLog2 \<bar>q\<bar> - 52) (- 1074)) q)
      in if 2 ^ 1024 \<le> r then PosInf else if r \<le> - (2 ^ 1024) then NegInf else Fin r)"

definition f64_of_u64 :: "u64 \<Rightarrow> float64" where
  "f64_of_u64 w = f64_round (of_nat (unat w))"

fun f64_neg :: "float64 \<Rightarrow> float64" where
  "f64_neg (Fin q) = Fin (- q)"
| "f64_neg PosInf = NegInf"
| "f64_neg NegInf = PosInf"
| "f64_neg NaN = NaN"

fun f64_add :: "float64 \<Rightarrow> float64 \<Rightarrow> float64" where
  "f64_add (Fin p) (Fin q) = f64_round (p + q)"
| "f64_add NaN y = NaN"
| "f64_add x NaN = NaN"
| "f64_add (Fin p) y = y"
| "f64_add x (Fin q) = x"
| "f64_add x y = (if x = y then x else NaN)"

definition f64_sub :: "float64 \<Rightarrow> float64 \<Rightarrow> float64" where
  "f64_sub x y = f64_add x (f64_neg y)"

text \<open>The infinity with the sign of a non-zero number.\<close>

definition f64_inf :: "rat \<Rightarrow> float64" where
  "f64_inf q = (if q = 0 then NaN else if 0 < q then PosInf else NegInf)"

fun f64_sign :: "float64 \<Rightarrow> rat" where
  "f64_sign (Fin q) = sgn q"
| "f64_sign PosInf = 1"
| "f64_sign NegInf = - 1"
| "f64_sign NaN = 0"

definition f64_mul :: "float64 \<Rightarrow> float64 \<Rightarrow> float64" where
  "f64_mul x y =
     (case (x, y) of
        (Fin p, Fin q) \<Rightarrow> f64_round (p * q)
      | (NaN, _) \<Rightarrow> NaN
      | (_, NaN) \<Rightarrow> NaN
      | _ \<Rightarrow> f64_inf (f64_sign x * f64_sign y))"

definition f64_div :: "float64 \<Rightarrow> float64 \<Rightarrow> float64" where
  "f64_div x y =
     (case (x, y) of
        (Fin p, Fin q) \<Rightarrow> if q = 0 then f64_inf p else f64_round (p / q)
      | (NaN, _) \<Rightarrow> NaN
      | (_, NaN) \<Rightarrow> NaN
      | (Fin p, _) \<Rightarrow> Fin 0
      | (_, Fin q) \<Rightarrow> if q < 0 then f64_neg x else x
      | _ \<Rightarrow> NaN)"

fun f64_lt :: "float64 \<Rightarrow> float64 \<Rightarrow> bool" where
  "f64_lt (Fin p) (Fin q) = (p < q)"
| "f64_lt NaN y = False"
| "f64_lt x NaN = False"
| "f64_lt x PosInf = (x \<noteq> PosInf)"
| "f64_lt NegInf y = (y \<noteq> NegInf)"
| "f64_lt x y = False"

definition f64_le :: "float64 \<Rightarrow> float64 \<Rightarrow> bool" where
  "f64_le x y = (f64_lt x y \<or> (x = y \<and> x \<noteq> NaN))"

text \<open>\<open>math.Min\<close>, \<open>math.Max\<close>, \<open>math.Ceil\<close>, \<open>math.Abs\<close>\<close>

definition f64_min :: "float64 \<Rightarrow> float64 \<Rightarrow> float64" where
  "f64_min x y =
     (if x = NegInf \<or> y = NegInf then NegInf else if x = NaN \<or> y = NaN then NaN
      else if f64_lt x y then x else y)"

definition f64_max :: "float64 \<Rightarrow> float64 \<Rightarrow> float64" where
  "f64_max x y =
     (if x = PosInf \<or> y = PosInf then PosInf else if x = NaN \<or> y = NaN then NaN
      else if f64_lt y x then x else y)"

fun f64_ceil :: "float64 \<Rightarrow> float64" where
  "f64_ceil (Fin q) = Fin (of_int \<lceil>q\<rceil>)"
| "f64_ceil x = x"

text \<open>
  \<open>uint64(x)\<close> truncates. What it gives for a number out of range depends on the implementation;
  it is the parameter \<open>conv\<close>.
\<close>

definition truncRat :: "rat \<Rightarrow> int" where
  "truncRat q = (if q < 0 then \<lceil>q\<rceil> else \<lfloor>q\<rfloor>)"

definition f64_to_u64 :: "(float64 \<Rightarrow> u64) \<Rightarrow> float64 \<Rightarrow> u64" where
  "f64_to_u64 conv x =
     (case x of
        Fin q \<Rightarrow> if 0 \<le> truncRat q \<and> truncRat q < 2 ^ 64 then of_int (truncRat q) else conv x
      | _ \<Rightarrow> conv x)"

lemma f64_round_0 [simp]: "f64_round 0 = Fin 0"
  by (simp add: f64_round_def)

text \<open>In the range of the normal numbers, \<open>float64\<close> has a mantissa of 53 bits.\<close>

lemma f64_round_normal:
  assumes "2 powi (- 1022) \<le> \<bar>q\<bar>" and "\<bar>q\<bar> \<le> 2 ^ 1023"
  shows "f64_round q = Fin (roundPrec 53 q)"
proof -
  have q: "0 < \<bar>q\<bar>" using assms(1) powi_2_pos [of "- 1022"] by linarith
  have "- 1022 < floorLog2 \<bar>q\<bar> + 1"
  proof (rule ccontr)
    assume "\<not> ?thesis"
    then have "2 powi (floorLog2 \<bar>q\<bar> + 1) \<le> (2 :: rat) powi (- 1022)" by (intro power_int_increasing) simp_all
    with floorLog2_bounds [OF q] assms(1) show False by linarith
  qed
  then have e: "max (floorLog2 \<bar>q\<bar> - 52) (- 1074) = floorLog2 \<bar>q\<bar> + 1 - int 53" by simp
  have "\<bar>roundPrec 53 q - q\<bar> \<le> \<bar>q\<bar> / 2 ^ 53" by (rule roundPrec_error)
  also have "\<dots> \<le> \<bar>q\<bar> / 4" by (intro divide_left_mono) simp_all
  also have "\<dots> \<le> 2 ^ 1023 / 4" using assms(2) by (intro divide_right_mono) simp_all
  finally have d: "\<bar>roundPrec 53 q - q\<bar> \<le> 2 ^ 1023 / 4" .
  have "(2 :: rat) ^ 1024 = 2 * 2 ^ 1023" by simp
  then have "\<bar>roundPrec 53 q\<bar> < 2 ^ 1024" using d assms(2) by (simp add: abs_less_iff abs_le_iff)
  then show ?thesis using q e by (simp add: f64_round_def roundPrec_def Let_def abs_less_iff not_le)
qed

end
