(* ===== verification/Fees.thy ===== *)
theory Fees
  imports Transaction StateDB_Balance Go_Float
begin

text \<open>
  Rollup fees: \<open>l2geth/rollup/fees/rollup_fee.go\<close>, the slots of the gas price oracle of
  \<open>l2geth/rollup/rcfg/config.go\<close> and its cache \<open>l2geth/eth/gasprice/rollup_gasprice.go\<close>. A
  \<open>big.Float\<close> is its value, a rational number; every operation rounds to the precision Go gives the
  result. Prices are not nil.
\<close>

section \<open>Constants\<close>

definition TxGas :: u64 where "TxGas = 21000"
definition TxGasContractCreation :: u64 where "TxGasContractCreation = 53000"
definition TxDataZeroGas :: u64 where "TxDataZeroGas = 4"
definition TxDataNonZeroGasFrontier :: u64 where "TxDataNonZeroGasFrontier = 68"
definition TxDataNonZeroGasEIP2028 :: u64 where "TxDataNonZeroGasEIP2028 = 16"

definition L2GasPriceOracleOwnerSlot :: hash where "L2GasPriceOracleOwnerSlot = BigToHash 0"
definition L2GasPriceSlot :: hash where "L2GasPriceSlot = BigToHash 1"
definition L1GasPriceSlot :: hash where "L1GasPriceSlot = BigToHash 2"
definition OverheadSlot :: hash where "OverheadSlot = BigToHash 3"
definition ScalarSlot :: hash where "ScalarSlot = BigToHash 4"
definition DecimalsSlot :: hash where "DecimalsSlot = BigToHash 5"

definition L2GasPriceOracleAddress :: addr where
  "L2GasPriceOracleAddress = 0x420000000000000000000000000000000000000F"

definition ErrGasPriceTooLow :: go_error where "ErrGasPriceTooLow = GoErr ''gas price too low''"
definition ErrGasPriceTooHigh :: go_error where "ErrGasPriceTooHigh = GoErr ''gas price too high''"
definition errMissingInput :: go_error where "errMissingInput = GoErr ''missing input''"
definition errTransactionSigned :: go_error where "errTransactionSigned = GoErr ''transaction is signed''"

section \<open>Arithmetic\<close>

text \<open>\<open>big.Int.Uint64\<close>: the low 64 bits of the absolute value\<close>

definition big_Uint64 :: "int \<Rightarrow> u64" where
  "big_Uint64 n = of_int \<bar>n\<bar>"

definition mulByFloat :: "(float64 \<Rightarrow> u64) \<Rightarrow> int \<Rightarrow> rat \<Rightarrow> int" where
  "mulByFloat conv num flt =
     (let n = of_nat (unat (big_Uint64 num));
          product = roundPrec 64 (n * flt);
          pfloat = f64_round product;
          rounded = f64_ceil pfloat
      in uint (f64_to_u64 conv rounded))"

text \<open>
  \<open>ScaleDecimals\<close>: converting the integers is exact, the quotient has the larger of their
  precisions, each at least 64.
\<close>

definition ScaleDecimals :: "int \<Rightarrow> int \<Rightarrow> rat" where
  "ScaleDecimals scalar decimals =
     (let divisor = 10 ^ nat decimals;
          prec = max (max (bitLen (nat \<bar>scalar\<bar>)) 64) (max (bitLen divisor) 64)
      in roundPrec prec (of_int scalar / of_nat divisor))"

fun zeroesAndOnes :: "bytes \<Rightarrow> u64 \<times> u64" where
  "zeroesAndOnes data = foldl (\<lambda>(zeroes, ones) byt. if byt = 0 then (zeroes + 1, ones) else (zeroes, ones + 1)) (0, 0) data"

definition CalculateL1GasUsed :: "bytes \<Rightarrow> int \<Rightarrow> int" where
  "CalculateL1GasUsed data overhead =
     (case zeroesAndOnes data of
        (zeroes, ones) \<Rightarrow>
          let zeroesGas = zeroes * TxDataZeroGas;
              onesGas = (ones + 68) * TxDataNonZeroGasEIP2028
          in uint (zeroesGas + onesGas) + overhead)"

definition CalculateL1Fee :: "(float64 \<Rightarrow> u64) \<Rightarrow> bytes \<Rightarrow> int \<Rightarrow> int \<Rightarrow> rat \<Rightarrow> int" where
  "CalculateL1Fee conv data overhead l1GasPrice scalar =
     mulByFloat conv (CalculateL1GasUsed data overhead * l1GasPrice) scalar"

section \<open>Unsigned transactions\<close>

text \<open>The encoding of a transaction without its signature, three empty strings at the end.\<close>

definition rlpEncode :: "Transaction \<Rightarrow> bytes res" where
  "rlpEncode tx =
     res_bind (Tx_EncodeRLP tx) (\<lambda>raw.
       if SigR (tx_data tx) \<noteq> 0 \<or> SigV (tx_data tx) \<noteq> 0 \<or> SigS (tx_data tx) \<noteq> 0 then Err errTransactionSigned
       else if length raw < 3 then Panic ''slice bounds out of range''
       else Ok (take (length raw - 3) raw))"

definition asTransaction :: "Message \<Rightarrow> Transaction" where
  "asTransaction msg =
     (case msg_to msg of
        None \<Rightarrow> NewContractCreation (msg_nonce msg) (Some (msg_amount msg)) (msg_gasLimit msg)
                  (Some (msg_gasPrice msg)) (msg_data msg)
      | Some a \<Rightarrow> NewTransaction (msg_nonce msg) a (Some (msg_amount msg)) (msg_gasLimit msg)
                  (Some (msg_gasPrice msg)) (msg_data msg))"

definition copyTransaction :: "Transaction \<Rightarrow> Transaction" where
  "copyTransaction tx =
     (let d = tx_data tx in
      case Recipient d of
        None \<Rightarrow> NewContractCreation (AccountNonce d) (Some (Amount d)) (GasLimit d) (Some (Price d)) (Payload d)
      | Some a \<Rightarrow> NewTransaction (AccountNonce d) a (Some (Amount d)) (GasLimit d) (Some (Price d)) (Payload d))"

section \<open>Fees from the state\<close>

text \<open>Reading the oracle loads its storage, so the state is returned as well.\<close>

record GPOSlots =
  gpo_l1GasPrice :: int
  gpo_overhead :: int
  gpo_scaled :: rat
  gpo_l2GasPrice :: int

definition readGPOStorageSlots :: "RollupEnv \<Rightarrow> Database \<Rightarrow> addr \<Rightarrow> StateDB \<Rightarrow> GPOSlots \<times> StateDB" where
  "readGPOStorageSlots env db a s =
     (let (l2GasPrice, s1) = GetState env db a L2GasPriceSlot s;
          (l1GasPrice, s2) = GetState env db a L1GasPriceSlot s1;
          (overhead, s3) = GetState env db a OverheadSlot s2;
          (scalar, s4) = GetState env db a ScalarSlot s3;
          (decimals, s5) = GetState env db a DecimalsSlot s4
      in (\<lparr>gpo_l1GasPrice = Big l1GasPrice, gpo_overhead = Big overhead,
           gpo_scaled = ScaleDecimals (Big scalar) (Big decimals), gpo_l2GasPrice = Big l2GasPrice\<rparr>, s5))"

definition ReadGasPriceOracleOwner :: "RollupEnv \<Rightarrow> Database \<Rightarrow> StateDB \<Rightarrow> addr \<times> StateDB" where
  "ReadGasPriceOracleOwner env db s =
     (case GetState env db L2GasPriceOracleAddress L2GasPriceOracleOwnerSlot s of (h, s') \<Rightarrow> (of_int (Big h), s'))"

definition gpoAddress :: "addr option \<Rightarrow> addr" where
  "gpoAddress gpo = (case gpo of None \<Rightarrow> L2GasPriceOracleAddress | Some a \<Rightarrow> a)"

definition CalculateL1MsgFee ::
    "RollupEnv \<Rightarrow> Database \<Rightarrow> (float64 \<Rightarrow> u64) \<Rightarrow> Message \<Rightarrow> addr option \<Rightarrow> StateDB \<Rightarrow> int res \<times> StateDB" where
  "CalculateL1MsgFee env db conv msg gpo s =
     (case rlpEncode (asTransaction msg) of
        Err e \<Rightarrow> (Err e, s)
      | Panic p \<Rightarrow> (Panic p, s)
      | Ok raw \<Rightarrow>
          (case readGPOStorageSlots env db (gpoAddress gpo) s of
             (g, s') \<Rightarrow> (Ok (CalculateL1Fee conv raw (gpo_overhead g) (gpo_l1GasPrice g) (gpo_scaled g)), s')))"

definition CalculateL1DataFee ::
    "RollupEnv \<Rightarrow> Database \<Rightarrow> (float64 \<Rightarrow> u64) \<Rightarrow> bytes \<Rightarrow> addr option \<Rightarrow> StateDB \<Rightarrow> int res \<times> StateDB" where
  "CalculateL1DataFee env db conv txData gpo s =
     (case readGPOStorageSlots env db (gpoAddress gpo) s of
        (g, s') \<Rightarrow> (Ok (CalculateL1Fee conv txData (gpo_overhead g) (gpo_l1GasPrice g) (gpo_scaled g)), s'))"

text \<open>\<open>big.Int.Div\<close> by a positive number rounds down.\<close>

definition feeAsGas :: "int \<Rightarrow> int \<Rightarrow> int" where
  "feeAsGas l1Fee l2GasPrice = (if l2GasPrice = 0 then 0 else l1Fee div l2GasPrice)"

definition CalculateL1GasFromState ::
    "RollupEnv \<Rightarrow> Database \<Rightarrow> (float64 \<Rightarrow> u64) \<Rightarrow> bytes \<Rightarrow> StateDB \<Rightarrow> int res \<times> StateDB" where
  "CalculateL1GasFromState env db conv txData s =
     (case CalculateL1DataFee env db conv txData (Some L2GasPriceOracleAddress) s of
        (Ok l1Fee, s1) \<Rightarrow>
          (case readGPOStorageSlots env db L2GasPriceOracleAddress s1 of
             (g, s2) \<Rightarrow> (Ok (feeAsGas l1Fee (gpo_l2GasPrice g)), s2))
      | r \<Rightarrow> r)"

definition CalculateL2GasForL1Msg ::
    "RollupEnv \<Rightarrow> Database \<Rightarrow> (float64 \<Rightarrow> u64) \<Rightarrow> Message \<Rightarrow> StateDB \<Rightarrow> int res \<times> StateDB" where
  "CalculateL2GasForL1Msg env db conv msg s =
     (case CalculateL1MsgFee env db conv msg (Some L2GasPriceOracleAddress) s of
        (Ok l1Fee, s1) \<Rightarrow>
          (case readGPOStorageSlots env db L2GasPriceOracleAddress s1 of
             (g, s2) \<Rightarrow> (Ok (feeAsGas l1Fee (gpo_l2GasPrice g)), s2))
      | r \<Rightarrow> r)"

definition CalculateTotalMsgFee ::
    "RollupEnv \<Rightarrow> Database \<Rightarrow> (float64 \<Rightarrow> u64) \<Rightarrow> Message \<Rightarrow> int \<Rightarrow> addr option \<Rightarrow> StateDB \<Rightarrow> int res \<times> StateDB" where
  "CalculateTotalMsgFee env db conv msg gasUsed gpo s =
     (case CalculateL1MsgFee env db conv msg (Some (gpoAddress gpo)) s of
        (r, s') \<Rightarrow> (res_map (\<lambda>l1Fee. l1Fee + msg_gasPrice msg * gasUsed) r, s'))"

definition DeriveL1GasInfo ::
    "RollupEnv \<Rightarrow> Database \<Rightarrow> (float64 \<Rightarrow> u64) \<Rightarrow> Message \<Rightarrow> StateDB \<Rightarrow> (int \<times> int \<times> int \<times> rat) res \<times> StateDB" where
  "DeriveL1GasInfo env db conv msg s =
     (case rlpEncode (asTransaction msg) of
        Err e \<Rightarrow> (Err e, s)
      | Panic p \<Rightarrow> (Panic p, s)
      | Ok raw \<Rightarrow>
          (case readGPOStorageSlots env db L2GasPriceOracleAddress s of
             (g, s') \<Rightarrow>
               (Ok (CalculateL1Fee conv raw (gpo_overhead g) (gpo_l1GasPrice g) (gpo_scaled g), gpo_l1GasPrice g,
                    CalculateL1GasUsed raw (gpo_overhead g), gpo_scaled g), s')))"

definition DeriveL1GasDataInfo ::
    "RollupEnv \<Rightarrow> Database \<Rightarrow> (float64 \<Rightarrow> u64) \<Rightarrow> Message \<Rightarrow> StateDB \<Rightarrow> (int \<times> int \<times> int \<times> rat) res \<times> StateDB" where
  "DeriveL1GasDataInfo env db conv msg s =
     (case readGPOStorageSlots env db L2GasPriceOracleAddress s of
        (g, s') \<Rightarrow>
          (Ok (CalculateL1Fee conv (msg_data msg) (gpo_overhead g) (gpo_l1GasPrice g) (gpo_scaled g), gpo_l1GasPrice g,
               CalculateL1GasUsed (msg_data msg) (gpo_overhead g), gpo_scaled g), s'))"

section \<open>The cached oracle\<close>

record RollupOracle =
  ro_l1GasPrice :: int
  ro_l2GasPrice :: int
  ro_overhead :: int
  ro_scalar :: rat

definition NewRollupOracle :: RollupOracle where
  "NewRollupOracle = \<lparr>ro_l1GasPrice = 0, ro_l2GasPrice = 0, ro_overhead = 0, ro_scalar = 0\<rparr>"

definition SetL1GasPrice :: "int \<Rightarrow> RollupOracle \<Rightarrow> RollupOracle" where
  "SetL1GasPrice p gpo = gpo\<lparr>ro_l1GasPrice := p\<rparr>"

definition SetL2GasPrice :: "int \<Rightarrow> RollupOracle \<Rightarrow> RollupOracle" where
  "SetL2GasPrice p gpo = gpo\<lparr>ro_l2GasPrice := p\<rparr>"

definition SetOverhead :: "int \<Rightarrow> RollupOracle \<Rightarrow> RollupOracle" where
  "SetOverhead v gpo = gpo\<lparr>ro_overhead := v\<rparr>"

definition SetScalar :: "int \<Rightarrow> int \<Rightarrow> RollupOracle \<Rightarrow> RollupOracle" where
  "SetScalar scalar decimals gpo = gpo\<lparr>ro_scalar := ScaleDecimals scalar decimals\<rparr>"

definition CalculateTotalFee :: "(float64 \<Rightarrow> u64) \<Rightarrow> Transaction \<Rightarrow> RollupOracle \<Rightarrow> int res" where
  "CalculateTotalFee conv tx gpo =
     res_map (\<lambda>raw.
         CalculateL1Fee conv raw (ro_overhead gpo) (ro_l1GasPrice gpo) (ro_scalar gpo) +
         Price (tx_data tx) * uint (GasLimit (tx_data tx)))
       (rlpEncode (copyTransaction tx))"

definition CalculateL1GasFromGPO :: "(float64 \<Rightarrow> u64) \<Rightarrow> bytes \<Rightarrow> int \<Rightarrow> RollupOracle \<Rightarrow> int" where
  "CalculateL1GasFromGPO conv txData l2GasPrice gpo =
     feeAsGas (CalculateL1Fee conv txData (ro_overhead gpo) (ro_l1GasPrice gpo) (ro_scalar gpo)) l2GasPrice"

section \<open>Checking the price a user offers\<close>

record PaysEnoughOpts =
  UserGasPrice :: "int option"
  ExpectedGasPrice :: "int option"
  ThresholdUp :: "rat option"
  ThresholdDown :: "rat option"

definition PaysEnough :: "(float64 \<Rightarrow> u64) \<Rightarrow> PaysEnoughOpts \<Rightarrow> unit res" where
  "PaysEnough conv opts =
     (case UserGasPrice opts of
        None \<Rightarrow> Err (GoWrap ''no user fee'' errMissingInput)
      | Some user \<Rightarrow>
          (case ExpectedGasPrice opts of
             None \<Rightarrow> Err (GoWrap ''no expected fee'' errMissingInput)
           | Some expected \<Rightarrow>
               let fee = (case ThresholdDown opts of None \<Rightarrow> expected | Some t \<Rightarrow> mulByFloat conv expected t) in
               if user < fee then Err ErrGasPriceTooLow
               else
                 (case ThresholdUp opts of
                    None \<Rightarrow> Ok ()
                  | Some t \<Rightarrow>
                      if mulByFloat conv expected t < user - expected then Err ErrGasPriceTooHigh else Ok ())))"

section \<open>Rounding\<close>

lemma f64_to_u64_ceil:
  assumes "0 \<le> q" and "q \<le> 2 ^ 63"
  shows "uint (f64_to_u64 conv (f64_ceil (Fin q))) = \<lceil>q\<rceil>"
proof -
  have b: "0 \<le> \<lceil>q\<rceil>" "\<lceil>q\<rceil> \<le> 2 ^ 63" using assms by (auto simp: ceiling_le_iff)
  have t: "truncRat (of_int \<lceil>q\<rceil>) = \<lceil>q\<rceil>" by (simp add: truncRat_def)
  have "\<lceil>q\<rceil> < 2 ^ 64" using b(2) by simp
  then show ?thesis using b(1) by (simp add: f64_to_u64_def t uint_word_of_int)
qed

text \<open>Two roundings, each within a relative error.\<close>

lemma double_round:
  fixes x :: rat
  assumes "2 powi (- 1000) \<le> x" and "x \<le> 2 ^ 62"
  defines "r \<equiv> roundPrec 53 (roundPrec 64 x)"
  shows "f64_round (roundPrec 64 x) = Fin r" "(1 - 1 / 2 ^ 52) * x \<le> r" "r \<le> (1 + 1 / 2 ^ 52) * x" "0 \<le> r" "r \<le> 2 ^ 63"
proof -
  let ?p = "roundPrec 64 x"
  have x: "0 < x" using assms(1) powi_2_pos [of "- 1000"] by linarith
  have e1: "\<bar>?p - x\<bar> \<le> x / 2 ^ 64" using roundPrec_error [of 64 x] x by simp
  have h: "x / 2 ^ 64 \<le> x / 2" using x by (intro divide_left_mono) simp_all
  have p: "x / 2 \<le> ?p" "?p \<le> 2 * x" "0 < ?p" using e1 h x unfolding abs_le_iff by linarith+
  have "(2 :: rat) powi (- 1022) \<le> 2 powi (- 1001)" by (rule power_int_increasing) simp_all
  also have "(2 :: rat) powi (- 1001) = 2 powi (- 1000) / 2"
    using power_int_diff [of "2 :: rat" "- 1000" 1] by simp
  also have "\<dots> \<le> x / 2" using assms(1) by (rule divide_right_mono) simp
  also have "\<dots> \<le> ?p" by (rule p(1))
  finally have lo: "2 powi (- 1022) \<le> \<bar>?p\<bar>" using p(3) by simp
  have "(2 :: rat) ^ 63 \<le> 2 ^ 1023" by (rule power_increasing) simp_all
  then have hi: "\<bar>?p\<bar> \<le> 2 ^ 1023" using p(2,3) assms(2) by simp
  show "f64_round ?p = Fin r" unfolding r_def by (rule f64_round_normal [OF lo hi])
  have e2: "\<bar>r - ?p\<bar> \<le> ?p / 2 ^ 53" using roundPrec_error [of 53 ?p] p(3) by (simp add: r_def)
  show "(1 - 1 / 2 ^ 52) * x \<le> r" "r \<le> (1 + 1 / 2 ^ 52) * x" "0 \<le> r" "r \<le> 2 ^ 63"
    using e1 e2 x assms(2) unfolding abs_le_iff by (simp_all add: field_simps)
qed

lemma mulByFloat_eq:
  assumes "0 \<le> num" and "num < 2 ^ 64"
  shows "mulByFloat conv num flt = uint (f64_to_u64 conv (f64_ceil (f64_round (roundPrec 64 (of_int num * flt)))))"
proof -
  have "unat (big_Uint64 num) = nat num"
    using assms by (simp add: big_Uint64_def unat_eq_nat_uint uint_word_of_int)
  then have "(of_nat (unat (big_Uint64 num)) :: rat) = of_int num" using assms(1) by simp
  then show ?thesis by (simp add: mulByFloat_def Let_def)
qed

lemma mulByFloat_range:
  assumes "0 \<le> num" and "num < 2 ^ 64" and "2 powi (- 1000) \<le> of_int num * flt" and "of_int num * flt \<le> 2 ^ 62"
  shows "(1 - 1 / 2 ^ 52) * (of_int num * flt) \<le> of_int (mulByFloat conv num flt) \<and>
    of_int (mulByFloat conv num flt) < (1 + 1 / 2 ^ 52) * (of_int num * flt) + 1"
proof -
  let ?x = "of_int num * flt" and ?r = "roundPrec 53 (roundPrec 64 (of_int num * flt))"
  note r = double_round [OF assms(3,4)]
  have "mulByFloat conv num flt = \<lceil>?r\<rceil>"
    unfolding mulByFloat_eq [OF assms(1,2)] r(1) using r(4,5) by (rule f64_to_u64_ceil)
  moreover have "?r \<le> of_int \<lceil>?r\<rceil>" "of_int \<lceil>?r\<rceil> < ?r + 1" by linarith+
  ultimately show ?thesis using r(2,3) by linarith
qed

lemma mulByFloat_nat:
  assumes "0 \<le> num" and "num < 2 ^ 64" and "of_int num * flt = of_nat k" and "k < 2 ^ 53"
  shows "mulByFloat conv num flt = int k"
proof (cases "k = 0")
  case True
  then have z: "of_int num * flt = 0" using assms(3) by simp
  show ?thesis
    unfolding mulByFloat_eq [OF assms(1,2)] z using True f64_to_u64_ceil [of 0 conv] by simp
next
  case False
  have p: "roundPrec 64 (of_nat k) = (of_nat k :: rat)" "roundPrec 53 (of_nat k) = (of_nat k :: rat)"
    using assms(4) by (simp_all add: roundPrec_nat)
  have "(2 :: rat) powi (- 1022) \<le> 2 powi 0" by (rule power_int_increasing) simp_all
  also have "\<dots> \<le> of_nat k" using False by simp
  finally have lo: "2 powi (- 1022) \<le> \<bar>of_nat k :: rat\<bar>" by simp
  have k: "(of_nat k :: rat) \<le> 2 ^ 53" using assms(4) by (metis less_imp_le of_nat_le_iff of_nat_numeral of_nat_power)
  also have "(2 :: rat) ^ 53 \<le> 2 ^ 1023" by (rule power_increasing) simp_all
  finally have "f64_round (of_nat k) = Fin (of_nat k)" using f64_round_normal [OF lo] p(2) by simp
  moreover have "(of_nat k :: rat) \<le> 2 ^ 63" using k by simp
  ultimately show ?thesis
    using f64_to_u64_ceil [of "of_nat k" conv] by (simp add: mulByFloat_eq [OF assms(1,2)] assms(3) p(1))
qed

section \<open>Encoding without signature\<close>

lemma enc_item_zero: "enc_item (RStr []) = [0x80]"
  by (simp add: enc_string_def puthead_def)

lemma txdata_items:
  assumes "0 \<le> Price d" and "0 \<le> Amount d" and "SigV d = 0" and "SigR d = 0" and "SigS d = 0"
  shows "\<exists>xs. items_of (txdata_val d) = Some [RList (xs @ [RStr [], RStr [], RStr []])]"
  using assms by (cases "Recipient d") (auto simp: txdata_val_def not_less)

lemma rlp_bytes_unsigned:
  assumes "0 \<le> Price d" and "0 \<le> Amount d" and "SigV d = 0" and "SigR d = 0" and "SigS d = 0"
  shows "\<exists>b. rlp_bytes (txdata_val d) = b @ [0x80, 0x80, 0x80]"
proof -
  obtain xs where "items_of (txdata_val d) = Some [RList (xs @ [RStr [], RStr [], RStr []])]"
    using txdata_items [OF assms] by blast
  then show ?thesis by (simp add: rlp_bytes_def enc_item_zero)
qed

lemma asTransaction_data:
  "tx_data (asTransaction msg) =
     \<lparr>AccountNonce = msg_nonce msg, Price = msg_gasPrice msg, GasLimit = msg_gasLimit msg, Recipient = msg_to msg,
      Amount = msg_amount msg, Payload = msg_data msg, SigV = 0, SigR = 0, SigS = 0\<rparr>"
  by (auto simp: asTransaction_def NewTransaction_def NewContractCreation_def newTransaction_def Let_def
      split: option.splits)

section \<open>Counting bytes\<close>

lemma zeroesAndOnes_count:
  "zeroesAndOnes data = (of_nat (length (filter (\<lambda>b. b = 0) data)), of_nat (length (filter (\<lambda>b. b \<noteq> 0) data)))"
proof -
  have "foldl (\<lambda>(zeroes, ones) byt. if byt = 0 then (zeroes + 1, ones) else (zeroes, ones + 1)) (z, n) data =
      (z + of_nat (length (filter (\<lambda>b. b = 0) data)), n + of_nat (length (filter (\<lambda>b. b \<noteq> 0) data)))"
    for z n :: u64
    by (induction data arbitrary: z n) (auto simp: algebra_simps)
  then show ?thesis by simp
qed

declare zeroesAndOnes.simps [simp del]

lemma uint_data_gas:
  assumes "z + n < 2 ^ 58"
  shows "uint (of_nat z * 4 + (of_nat n + 68) * 16 :: u64) = int z * 4 + (int n + 68) * 16"
proof -
  have "of_nat z * 4 + (of_nat n + 68) * 16 = (of_int (int z * 4 + (int n + 68) * 16) :: u64)" by simp
  moreover have "0 \<le> int z * 4 + (int n + 68) * 16" "int z * 4 + (int n + 68) * 16 < 2 ^ 64"
    using assms by simp_all
  ultimately show ?thesis by (simp add: uint_word_of_int del: of_int_add of_int_mult)
qed

section \<open>Properties\<close>

text \<open>
  C24: the product of an integer below \<open>2 ^ 64\<close> and a number is computed up to a relative error of
  \<open>2 ^ (- 52)\<close> and rounding up: in between the precision of the two roundings is lost, but no bit of
  the integer, as long as the product stays below \<open>2 ^ 62\<close>.
\<close>

theorem mulByFloat_bounds:
  assumes "0 \<le> num" and "num < 2 ^ 64" and "2 powi (- 1000) \<le> of_int num * flt" and "of_int num * flt \<le> 2 ^ 62"
  shows "(1 - 1 / 2 ^ 52) * (of_int num * flt) \<le> of_int (mulByFloat conv num flt) \<and>
    of_int (mulByFloat conv num flt) < (1 + 1 / 2 ^ 52) * (of_int num * flt) + 1"
  using assms by (rule mulByFloat_range)

lemma mulByFloat_bounds_witness:
  "1500 \<le> mulByFloat (\<lambda>_. 0) 1000 (3 / 2) \<and> mulByFloat (\<lambda>_. 0) 1000 (3 / 2) \<le> 1501"
proof -
  have "(2 :: rat) powi (- 1000) \<le> 2 powi 0" by (rule power_int_increasing) simp_all
  with mulByFloat_bounds [of 1000 "3 / 2" "\<lambda>_. 0"]
  have "(1 - 1 / 2 ^ 52) * 1500 \<le> (of_int (mulByFloat (\<lambda>_. 0) 1000 (3 / 2)) :: rat)"
    "(of_int (mulByFloat (\<lambda>_. 0) 1000 (3 / 2)) :: rat) < (1 + 1 / 2 ^ 52) * 1500 + 1" by simp_all
  then have "(1499 :: rat) < of_int (mulByFloat (\<lambda>_. 0) 1000 (3 / 2))"
    "of_int (mulByFloat (\<lambda>_. 0) 1000 (3 / 2)) < (1502 :: rat)" by simp_all
  then show ?thesis by linarith
qed

text \<open>
  a product that is an integer below \<open>2 ^ 53\<close> is exact.
\<close>

theorem mulByFloat_exact:
  assumes "0 \<le> num" and "num < 2 ^ 64" and "of_int num * flt = of_nat k" and "k < 2 ^ 53"
  shows "mulByFloat conv num flt = int k"
  using assms by (rule mulByFloat_nat)

lemma mulByFloat_exact_witness: "mulByFloat (\<lambda>_. 0) 1000 (3 / 2) = 1500"
  using mulByFloat_exact [of 1000 "3 / 2" 1500 "\<lambda>_. 0"] by simp

text \<open>
  only the low 64 bits of the integer enter the product, so a fee of \<open>2 ^ 64\<close> or more wraps
  around; the wrapped fee can be zero.
\<close>

theorem mulByFloat_wraps:
  "mulByFloat conv (int n) flt = mulByFloat conv (int n mod 2 ^ 64) flt \<and> mulByFloat conv (2 ^ 64) flt = 0"
proof
  have "big_Uint64 (int n mod 2 ^ 64) = big_Uint64 (int n)"
    unfolding big_Uint64_def 
    by (rule word_uint_eqI) (simp add: uint_word_of_int unsigned_of_nat take_bit_eq_mod zmod_int)
  then show "mulByFloat conv (int n) flt = mulByFloat conv (int n mod 2 ^ 64) flt" by (simp add: mulByFloat_def)
  have "big_Uint64 (2 ^ 64) = 0" by (simp add: big_Uint64_def)
  then show "mulByFloat conv (2 ^ 64) flt = 0"
    using f64_to_u64_ceil [of 0 conv] by (simp add: mulByFloat_def Let_def)
qed

text \<open>
  the L1 gas of a transaction is 4 per zero byte and 16 per other byte, of which there are 68
  more for the signature, plus the overhead; no sum overflows for data of less than \<open>2 ^ 58\<close> bytes.
\<close>

theorem CalculateL1GasUsed_spec:
  assumes "length data < 2 ^ 58"
  shows "CalculateL1GasUsed data overhead =
    4 * int (length (filter (\<lambda>b. b = 0) data)) + 16 * (int (length (filter (\<lambda>b. b \<noteq> 0) data)) + 68) + overhead"
proof -
  have "length (filter (\<lambda>b. b = 0) data) + length (filter (\<lambda>b. b \<noteq> 0) data) < 2 ^ 58"
    using assms by (simp add: sum_length_filter_compl)
  from uint_data_gas [OF this] show ?thesis
    by (simp add: CalculateL1GasUsed_def zeroesAndOnes_count TxDataZeroGas_def TxDataNonZeroGasEIP2028_def Let_def)
qed

lemma CalculateL1GasUsed_spec_witness: "CalculateL1GasUsed [0, 1, 0] 2100 = 3212"
  using CalculateL1GasUsed_spec [of "[0, 1, 0]" 2100] by simp

lemma rlpEncode_drop:
  assumes "0 \<le> msg_gasPrice msg" and "0 \<le> msg_amount msg"
    and "length (rlp_bytes (txdata_val (tx_data (asTransaction msg)))) < 2 ^ 64"
  shows "\<exists>b. rlpEncode (asTransaction msg) = Ok b \<and>
    Tx_EncodeRLP (asTransaction msg) = Ok (b @ [0x80, 0x80, 0x80])"
proof -
  let ?tx = "asTransaction msg"
  have "encodable (tx_data ?tx)" using assms by (simp add: encodable_def asTransaction_data)
  from Tx_EncodeRLP_Ok [OF this] have e: "Tx_EncodeRLP ?tx = Ok (rlp_bytes (txdata_val (tx_data ?tx)))" .
  obtain b where "rlp_bytes (txdata_val (tx_data ?tx)) = b @ [0x80, 0x80, 0x80]"
    using rlp_bytes_unsigned [of "tx_data ?tx"] assms(1,2) by (auto simp: asTransaction_data)
  with e show ?thesis by (simp add: rlpEncode_def asTransaction_data)
qed

text \<open>
  the bytes charged for a message are the wire encoding of its unsigned transaction without its
  last three bytes, the three empty strings of the missing signature.
\<close>

theorem rlpEncode_unsigned:
  assumes "0 \<le> msg_gasPrice msg" and "0 \<le> msg_amount msg"
    and "length (rlp_bytes (txdata_val (tx_data (asTransaction msg)))) < 2 ^ 64"
  shows "\<exists>b. rlpEncode (asTransaction msg) = Ok b \<and>
    Tx_EncodeRLP (asTransaction msg) = Ok (b @ [0x80, 0x80, 0x80])"
  by (rule rlpEncode_drop [OF assms])

text \<open>
  C25: a price that is accepted is not below the expected price scaled by the lower threshold and not
  above the expected price by more than its upper threshold, up to the rounding of the products.
\<close>

theorem PaysEnough_bounds:
  assumes "PaysEnough conv \<lparr>UserGasPrice = Some user, ExpectedGasPrice = Some expected,
      ThresholdUp = Some up, ThresholdDown = Some down\<rparr> = Ok ()"
    and "0 < expected" and "expected < 2 ^ 64" and "2 powi (- 1000) \<le> down" and "of_int expected * down \<le> 2 ^ 62"
    and "2 powi (- 1000) \<le> up" and "of_int expected * up \<le> 2 ^ 62"
  shows "(1 - 1 / 2 ^ 52) * (of_int expected * down) \<le> of_int user \<and>
    of_int user < of_int expected + (1 + 1 / 2 ^ 52) * (of_int expected * up) + 1"
proof -
  have e: "(1 :: rat) \<le> of_int expected" using assms(2) by simp
  have d: "2 powi (- 1000) \<le> of_int expected * down" "2 powi (- 1000) \<le> of_int expected * up"
    using mult_right_mono [OF e, of down] mult_right_mono [OF e, of up] assms(4,6) powi_2_pos [of "- 1000"]
    by linarith+
  have "mulByFloat conv expected down \<le> user" "user - expected \<le> mulByFloat conv expected up"
    using assms(1) by (auto simp: PaysEnough_def Let_def split: if_splits)
  then have "(of_int (mulByFloat conv expected down) :: rat) \<le> of_int user"
    "(of_int user :: rat) \<le> of_int expected + of_int (mulByFloat conv expected up)" by linarith+
  moreover have "0 \<le> expected" using assms(2) by simp
  note b = mulByFloat_range [OF this assms(3) d(1) assms(5), of conv] mulByFloat_range [OF this assms(3) d(2) assms(7), of conv]
  ultimately show ?thesis using b by linarith
qed

definition sampleMsg :: Message where
  "sampleMsg = \<lparr>msg_to = Some 7, msg_from = 1, msg_nonce = 0, msg_amount = 0, msg_gasLimit = 100000, msg_gasPrice = 1,
     msg_data = [], msg_checkNonce = True, msg_l1Timestamp = 0, msg_l1BlockNumber = None, msg_l1Turing = None,
     msg_queueOrigin = QueueOriginSequencer\<rparr>"

lemma sampleMsg_bytes:
  "length (rlp_bytes (txdata_val (tx_data (asTransaction sampleMsg)))) < 2 ^ 64"
proof -
  have p: "length (puthead a b n) \<le> 9" for a b n by (auto simp: puthead_def putint_def Let_def)
  have e: "length (enc_string b) \<le> 9 + length b" for b using p by (simp add: enc_string_def)
  have "length (min_be (Suc 0)) \<le> 1" "length (min_be 0) \<le> 1" "length (min_be 100000) \<le> 3"
    by (rule length_min_be; simp)+
  then show ?thesis
    unfolding asTransaction_data sampleMsg_def
    using e [of "min_be (Suc 0)"] e [of "min_be 0"] e [of "min_be 100000"] e [of "addr_bytes 7"]
    by (simp add: rlp_bytes_def txdata_val_def) (rule le_less_trans [OF add_right_mono [OF p]], linarith)
qed

lemma rlpEncode_unsigned_witness:
  "\<exists>b. rlpEncode (asTransaction sampleMsg) = Ok b \<and> Tx_EncodeRLP (asTransaction sampleMsg) = Ok (b @ [0x80, 0x80, 0x80])"
  by (rule rlpEncode_unsigned [OF _ _ sampleMsg_bytes]) (simp_all add: sampleMsg_def)

lemma PaysEnough_bounds_witness:
  "PaysEnough (\<lambda>_. 0) \<lparr>UserGasPrice = Some 1100, ExpectedGasPrice = Some 1000, ThresholdUp = Some (1 / 2),
       ThresholdDown = Some (1 / 2)\<rparr> = Ok () \<and>
     (1 - 1 / 2 ^ 52) * 500 \<le> (1100 :: rat) \<and> (1100 :: rat) < 1000 + (1 + 1 / 2 ^ 52) * 500 + 1"
proof -
  have m: "mulByFloat (\<lambda>_. 0) 1000 (1 / 2) = 500" using mulByFloat_nat [of 1000 "1 / 2" 500 "\<lambda>_. 0"] by simp
  have ok: "PaysEnough (\<lambda>_. 0) \<lparr>UserGasPrice = Some 1100, ExpectedGasPrice = Some 1000, ThresholdUp = Some (1 / 2),
      ThresholdDown = Some (1 / 2)\<rparr> = Ok ()"
    by (simp add: PaysEnough_def m Let_def)
  have h: "(2 :: rat) powi (- 1000) \<le> 1 / 2"
    using power_int_increasing [of "- 1000" "- 1" "2 :: rat"] by simp
  show ?thesis using ok PaysEnough_bounds [OF ok] h by simp
qed

end
