(* ===== verification/StateTransition.thy ===== *)
theory StateTransition
  imports EvmCall Fees
begin

text \<open>
  Applying one message to the state: \<open>l2geth/core/state_transition.go\<close> with the gas pool of
  \<open>gaspool.go\<close> and the fork heights of \<open>params/config.go\<close>. The fee is bought before the message
  is executed and what is not used is given back afterwards, in ETH or in BOBA. The access list of a
  message of this chain is empty.
\<close>

section \<open>Forks\<close>

definition OpMainnetChainID :: int where "OpMainnetChainID = 288"
definition OpRinkebyChainID :: int where "OpRinkebyChainID = 28"
definition BobaMainnetGasUpdatedForkNum :: int where "BobaMainnetGasUpdatedForkNum = 400000"
definition BobaRinkebyGasUpdatedForkNum :: int where "BobaRinkebyGasUpdatedForkNum = 0"
definition BobaMainnetFeeUpdatedForkNum :: int where "BobaMainnetFeeUpdatedForkNum = 485000"
definition BobaRinkebyFeeUpdatedForkNum :: int where "BobaRinkebyFeeUpdatedForkNum = 50000"

fun isForked :: "int option \<Rightarrow> int option \<Rightarrow> bool" where
  "isForked (Some s) (Some head) \<longleftrightarrow> s \<le> head"
| "isForked _ _ \<longleftrightarrow> False"

definition IsGasUpdate :: "int option \<Rightarrow> int option \<Rightarrow> bool" where
  "IsGasUpdate chainID num =
     (case chainID of
        None \<Rightarrow> True
      | Some c \<Rightarrow>
          if c = OpMainnetChainID then isForked (Some BobaMainnetGasUpdatedForkNum) num
          else if c = OpRinkebyChainID then isForked (Some BobaRinkebyGasUpdatedForkNum) num
          else True)"

definition IsFeeTokenUpdate :: "int option \<Rightarrow> int option \<Rightarrow> bool" where
  "IsFeeTokenUpdate chainID num =
     (case chainID of
        None \<Rightarrow> True
      | Some c \<Rightarrow>
          if c = OpMainnetChainID then isForked (Some BobaMainnetFeeUpdatedForkNum) num
          else if c = OpRinkebyChainID then isForked (Some BobaRinkebyFeeUpdatedForkNum) num
          else True)"

section \<open>The gas pool\<close>

definition ErrGasLimitReached :: go_error where "ErrGasLimitReached = GoErr ''gas limit reached''"
definition ErrNonceTooHigh :: go_error where "ErrNonceTooHigh = GoErr ''nonce too high''"
definition ErrNonceTooLow :: go_error where "ErrNonceTooLow = GoErr ''nonce too low''"
definition errInsufficientBalanceForGas :: go_error where
  "errInsufficientBalanceForGas = GoErr ''insufficient balance to pay for gas''"
definition errInsufficientBobaBalanceForGas :: go_error where
  "errInsufficientBobaBalanceForGas = GoErr ''insufficient boba balance to pay for gas''"

definition AddGas :: "u64 \<Rightarrow> u64 \<Rightarrow> u64 res" where
  "AddGas amount gp = (if - 1 - amount < gp then Panic ''gas pool pushed above uint64'' else Ok (gp + amount))"

definition SubGas :: "u64 \<Rightarrow> u64 \<Rightarrow> u64 res" where
  "SubGas amount gp = (if gp < amount then Err ErrGasLimitReached else Ok (gp - amount))"

section \<open>Intrinsic gas\<close>

text \<open>\<open>- 1\<close> is the largest 64-bit integer.\<close>

fun nonZeroes :: "bytes \<Rightarrow> u64" where
  "nonZeroes [] = 0"
| "nonZeroes (b # bs) = (if b \<noteq> 0 then 1 else 0) + nonZeroes bs"

definition IntrinsicGas :: "bytes \<Rightarrow> bool \<Rightarrow> bool \<Rightarrow> bool \<Rightarrow> u64 res" where
  "IntrinsicGas data contractCreation isHomestead isEIP2028 =
     (let gas = (if contractCreation \<and> isHomestead then TxGasContractCreation else TxGas) in
      if data = [] then Ok gas
      else
        let nz = nonZeroes data;
            nonZeroGas = (if isEIP2028 then TxDataNonZeroGasEIP2028 else TxDataNonZeroGasFrontier)
        in if (- 1 - gas) div nonZeroGas < nz then Err ErrOutOfGas
           else
             let gas = gas + nz * nonZeroGas; z = of_nat (length data) - nz in
             if (- 1 - gas) div TxDataZeroGas < z then Err ErrOutOfGas
             else Ok (gas + z * TxDataZeroGas))"

section \<open>The transition\<close>

text \<open>
  \<open>te_ee\<close> is the environment of the virtual machine; \<open>te_conv\<close> the conversion of floats out of range.
  The state is the one of the virtual machine.
\<close>

record TxEnv =
  te_ee :: EvmEnv
  te_conv :: "float64 \<Rightarrow> u64"
  Coinbase :: addr
  ChainID :: "int option"
  BlockNumber :: int
  IsIstanbul :: bool
  ActivePrecompiles :: "addr list"

abbreviation te_env :: "TxEnv \<Rightarrow> RollupEnv" where "te_env te \<equiv> ee_env (te_ee te)"
abbreviation te_db :: "TxEnv \<Rightarrow> Database" where "te_db te \<equiv> ee_db (te_ee te)"

record StateTransition =
  st_gp :: u64
  st_msg :: Message
  st_gas :: u64
  st_gasPrice :: int
  st_initialGas :: u64
  st_value :: int
  st_data :: bytes
  st_evm :: EVM
  st_l1Fee :: "int option"
  st_l2ExtraGas :: int
  isGasUpdate :: bool
  isFeeTokenUpdate :: bool
  isBobaFeeTokenSelect :: bool
  bobaPriceRatio :: int

abbreviation st_state :: "StateTransition \<Rightarrow> StateDB" where "st_state st \<equiv> evm_StateDB (st_evm st)"

definition withState :: "(StateDB \<Rightarrow> StateDB) \<Rightarrow> StateTransition \<Rightarrow> StateTransition" where
  "withState f st = st\<lparr>st_evm := (st_evm st)\<lparr>evm_StateDB := f (st_state st)\<rparr>\<rparr>"

text \<open>
  The fee fields, computed from the state before the message. Errors are dropped: there is no L1 fee
  then, and no extra gas.
\<close>

definition dropErr :: "'a res \<times> StateDB \<Rightarrow> ('a option \<times> StateDB) res" where
  "dropErr r = (case r of (Ok x, s) \<Rightarrow> Ok (Some x, s) | (Err _, s) \<Rightarrow> Ok (None, s) | (Panic p, s) \<Rightarrow> Panic p)"

definition orZero :: "int option \<Rightarrow> int" where
  "orZero v = (case v of None \<Rightarrow> 0 | Some x \<Rightarrow> x)"

definition rollupFees :: "TxEnv \<Rightarrow> Message \<Rightarrow> bool \<Rightarrow> StateDB \<Rightarrow> ((int option \<times> int) \<times> StateDB) res" where
  "rollupFees te msg feeUpdate s =
     (if 0 < msg_gasPrice msg then
        res_bind (dropErr (CalculateL1MsgFee (te_env te) (te_db te) (te_conv te) msg None s)) (\<lambda>(l1Fee, s1).
          if feeUpdate then
            res_map (\<lambda>(extra, s2). ((Some 0, orZero extra), s2))
              (dropErr (CalculateL1GasFromState (te_env te) (te_db te) (te_conv te) (msg_data msg) s1))
          else
            res_map (\<lambda>(extra, s2). ((l1Fee, orZero extra), s2))
              (dropErr (CalculateL2GasForL1Msg (te_env te) (te_db te) (te_conv te) msg s1)))
      else Ok ((Some 0, 0), s))"

definition NewStateTransition :: "TxEnv \<Rightarrow> EVM \<Rightarrow> Message \<Rightarrow> u64 \<Rightarrow> StateTransition res" where
  "NewStateTransition te evm msg gp =
     (let gasUpdate = IsGasUpdate (ChainID te) (Some (BlockNumber te));
          feeUpdate = IsFeeTokenUpdate (ChainID te) (Some (BlockNumber te));
          ovm = UsingOVM (te_env te)
      in res_map (\<lambda>((l1Fee, l2ExtraGas), s1).
           let (selection, s2) = (if ovm then GetFeeTokenSelection (te_env te) (te_db te) (msg_from msg) s1 else (0, s1));
               boba = (selection = 1 \<and> feeUpdate);
               (ratio, s3) = (if boba then GetBobaPriceRatio (te_env te) (te_db te) s2 else (0, s2))
           in \<lparr>st_gp = gp, st_msg = msg, st_gas = 0, st_gasPrice = if boba then 0 else msg_gasPrice msg,
               st_initialGas = 0, st_value = msg_amount msg, st_data = msg_data msg,
               st_evm = evm\<lparr>evm_StateDB := s3\<rparr>, st_l1Fee = l1Fee, st_l2ExtraGas = l2ExtraGas,
               isGasUpdate = gasUpdate, isFeeTokenUpdate = feeUpdate, isBobaFeeTokenSelect = boba,
               bobaPriceRatio = ratio\<rparr>)
         (if ovm then rollupFees te msg feeUpdate (evm_StateDB evm) else Ok ((Some 0, 0), evm_StateDB evm)))"

definition useGas :: "u64 \<Rightarrow> StateTransition \<Rightarrow> StateTransition res" where
  "useGas amount st = (if st_gas st < amount then Err ErrOutOfGas else Ok (st\<lparr>st_gas := st_gas st - amount\<rparr>))"

text \<open>The fee in ETH for the whole gas of the message; adding a missing L1 fee dereferences nil.\<close>

definition gasFee :: "TxEnv \<Rightarrow> StateTransition \<Rightarrow> int res" where
  "gasFee te st =
     (let mgval = uint (msg_gasLimit (st_msg st)) * st_gasPrice st in
      if UsingOVM (te_env te) \<and> msg_queueOrigin (st_msg st) = QueueOriginSequencer then
        if isGasUpdate st \<and> \<not> isFeeTokenUpdate st then Ok (mgval + st_l2ExtraGas st * st_gasPrice st)
        else
          (case st_l1Fee st of
             None \<Rightarrow> Panic nilPointer
           | Some l1Fee \<Rightarrow> Ok (mgval + l1Fee))
      else Ok mgval)"

definition bobaFee :: "u64 \<Rightarrow> StateTransition \<Rightarrow> int" where
  "bobaFee gas st = uint gas * msg_gasPrice (st_msg st) * bobaPriceRatio st"

text \<open>On an error the gas pool and the balances are as before; a state is returned since reading loads objects.\<close>

definition buyGas :: "TxEnv \<Rightarrow> StateTransition \<Rightarrow> unit res \<times> StateTransition" where
  "buyGas te st =
     (case gasFee te st of
        Err e \<Rightarrow> (Err e, st)
      | Panic p \<Rightarrow> (Panic p, st)
      | Ok due \<Rightarrow>
          let from = msg_from (st_msg st); gas = msg_gasLimit (st_msg st);
              (balance, s1) = GetBalance (te_env te) (te_db te) from (st_state st)
          in if balance < due \<and> \<not> UsingOVM (te_env te)
             then (Err errInsufficientBalanceForGas, withState (\<lambda>_. s1) st)
             else
               let mgval = (if balance < due then balance else due);
                   bobaval = (if isBobaFeeTokenSelect st then bobaFee gas st else 0);
                   (boba, s2) = (if isBobaFeeTokenSelect st then GetBobaBalance (te_env te) (te_db te) from s1 else (0, s1))
               in if isBobaFeeTokenSelect st \<and> boba < bobaval
                  then (Err errInsufficientBobaBalanceForGas, withState (\<lambda>_. s2) st)
                  else
                    (case SubGas gas (st_gp st) of
                       Ok gp \<Rightarrow>
                         (let s3 = (if isBobaFeeTokenSelect st then SubBobaBalance (te_env te) (te_db te) from bobaval s2
                                    else s2)
                          in (Ok (), withState (\<lambda>_. SubBalance (te_env te) (te_db te) from mgval s3)
                                (st\<lparr>st_gp := gp, st_gas := st_gas st + gas, st_initialGas := gas\<rparr>)))
                     | Err e \<Rightarrow> (Err e, withState (\<lambda>_. s2) st)
                     | Panic p \<Rightarrow> (Panic p, withState (\<lambda>_. s2) st)))"

definition preCheck :: "TxEnv \<Rightarrow> StateTransition \<Rightarrow> unit res \<times> StateTransition" where
  "preCheck te st =
     (if msg_checkNonce (st_msg st) \<and>
         \<not> (UsingOVM (te_env te) \<and> msg_queueOrigin (st_msg st) = QueueOriginL1ToL2) then
        (case GetNonce (te_env te) (msg_from (st_msg st)) (st_state st) of
           (nonce, s) \<Rightarrow>
             if nonce < msg_nonce (st_msg st) then (Err ErrNonceTooHigh, withState (\<lambda>_. s) st)
             else if msg_nonce (st_msg st) < nonce then (Err ErrNonceTooLow, withState (\<lambda>_. s) st)
             else buyGas te (withState (\<lambda>_. s) st))
      else buyGas te st)"

definition gasUsed :: "TxEnv \<Rightarrow> StateTransition \<Rightarrow> u64" where
  "gasUsed te st =
     (if UsingOVM (te_env te) \<and> isGasUpdate st \<and> \<not> isFeeTokenUpdate st
      then st_initialGas st - st_gas st + big_Uint64 (st_l2ExtraGas st)
      else st_initialGas st - st_gas st)"

definition refundGas :: "TxEnv \<Rightarrow> StateTransition \<Rightarrow> StateTransition res" where
  "refundGas te st =
     (let half = (if isGasUpdate st then (gasUsed te st - big_Uint64 (st_l2ExtraGas st)) div 2 else gasUsed te st div 2);
          refund = (if st_refund (st_state st) < half then st_refund (st_state st) else half);
          st1 = st\<lparr>st_gas := st_gas st + refund\<rparr>;
          from = msg_from (st_msg st);
          st2 = (if isBobaFeeTokenSelect st
                 then withState (AddBobaBalance (te_env te) (te_db te) from (bobaFee (st_gas st1) st1)) st1
                 else withState (AddBalance (te_env te) (te_db te) from (uint (st_gas st1) * st_gasPrice st1)) st1)
      in res_map (\<lambda>gp. st2\<lparr>st_gp := gp\<rparr>) (AddGas (st_gas st2) (st_gp st2)))"

text \<open>Executing the message: the access list, then a creation or a call with the next nonce.\<close>

definition execMessage ::
    "TxEnv \<Rightarrow> runner \<Rightarrow> bytes \<Rightarrow> StateTransition \<Rightarrow> ((bytes \<times> go_error option) \<times> StateTransition) res" where
  "execMessage te run spare st =
     (let ee = te_ee te; msg = st_msg st; from = msg_from msg in
      res_bind
        (if IsBerlin ee then PrepareAccessList from (msg_to msg) (ActivePrecompiles te) [] (st_state st)
         else Ok (st_state st))
        (\<lambda>s. let evm = (st_evm st)\<lparr>evm_StateDB := s\<rparr> in
           case msg_to msg of
             None \<Rightarrow>
               res_map (\<lambda>((ret, _, gas, vmerr), evm'). ((ret, vmerr), st\<lparr>st_gas := gas, st_evm := evm'\<rparr>))
                 (Create ee run from (st_data st) (st_gas st) (st_value st) evm)
           | Some a \<Rightarrow>
               (case GetNonce (te_env te) from s of
                  (nonce, s1) \<Rightarrow>
                    res_map (\<lambda>((ret, gas, vmerr), evm'). ((ret, vmerr), st\<lparr>st_gas := gas, st_evm := evm'\<rparr>))
                      (Call ee run from a (st_data st) spare (st_gas st) (st_value st)
                         (evm\<lparr>evm_StateDB := StateDB.SetNonce (te_env te) from (nonce + 1) s1\<rparr>)))))"

text \<open>The fee for the gas that was used goes to the BOBA oracle and to the fee wallet.\<close>

definition payFees :: "TxEnv \<Rightarrow> StateTransition \<Rightarrow> StateTransition res" where
  "payFees te st =
     (let st1 = (if isBobaFeeTokenSelect st
                 then withState (AddBobaBalance (te_env te) (te_db te) (OvmBobaGasPricOracle (te_env te))
                        (bobaFee (gasUsed te st) st)) st
                 else st);
          l2Fee = uint (gasUsed te st1) * st_gasPrice st1
      in if isGasUpdate st then Ok (withState (AddBalance (te_env te) (te_db te) (Coinbase te) l2Fee) st1)
         else
           (case st_l1Fee st1 of
              None \<Rightarrow> Panic nilPointer
            | Some l1Fee \<Rightarrow> Ok (withState (AddBalance (te_env te) (te_db te) (Coinbase te) (l1Fee + l2Fee)) st1)))"

text \<open>Everything before and everything after the execution.\<close>

definition payIntrinsic :: "TxEnv \<Rightarrow> StateTransition \<Rightarrow> StateTransition res" where
  "payIntrinsic te st =
     res_bind (IntrinsicGas (st_data st) (msg_to (st_msg st) = None) (IsHomestead (te_ee te)) (IsIstanbul te))
       (\<lambda>gas. useGas (if isFeeTokenUpdate st then gas + big_Uint64 (st_l2ExtraGas st) else gas) st)"

definition settle :: "TxEnv \<Rightarrow> StateTransition \<Rightarrow> StateTransition res" where
  "settle te st = res_bind (refundGas te st) (payFees te)"

definition TransitionDb ::
    "TxEnv \<Rightarrow> runner \<Rightarrow> bytes \<Rightarrow> StateTransition \<Rightarrow> (bytes \<times> u64 \<times> bool) res \<times> StateTransition" where
  "TransitionDb te run spare st =
     (case preCheck te st of
        (Err e, st1) \<Rightarrow> (Err e, st1)
      | (Panic p, st1) \<Rightarrow> (Panic p, st1)
      | (Ok _, st1) \<Rightarrow>
          (case payIntrinsic te st1 of
             Err e \<Rightarrow> (Err e, st1)
           | Panic p \<Rightarrow> (Panic p, st1)
           | Ok st2 \<Rightarrow>
               (case execMessage te run spare st2 of
                  Err e \<Rightarrow> (Err e, st2)
                | Panic p \<Rightarrow> (Panic p, st2)
                | Ok ((ret, vmerr), st3) \<Rightarrow>
                    if vmerr = Some ErrInsufficientBalance then (Err ErrInsufficientBalance, st3)
                    else
                      (case settle te st3 of
                         Err e \<Rightarrow> (Err e, st3)
                       | Panic p \<Rightarrow> (Panic p, st3)
                       | Ok st4 \<Rightarrow> (Ok (ret, gasUsed te st4, vmerr \<noteq> None), st4)))))"

definition ApplyMessage ::
    "TxEnv \<Rightarrow> runner \<Rightarrow> bytes \<Rightarrow> EVM \<Rightarrow> Message \<Rightarrow> u64 \<Rightarrow> ((bytes \<times> u64 \<times> bool) res \<times> StateTransition) res" where
  "ApplyMessage te run spare evm msg gp = res_map (TransitionDb te run spare) (NewStateTransition te evm msg gp)"

section \<open>Intrinsic gas does not overflow\<close>

lemma nonZeroes_count: "nonZeroes data = of_nat (length (filter (\<lambda>b. b \<noteq> 0) data))"
  by (induction data) simp_all

text \<open>The check before a multiplication in 64 bits.\<close>

lemma mul_fits:
  fixes gas k n :: u64
  assumes "0 < k"
  shows "(- 1 - gas) div k < n \<longleftrightarrow> 2 ^ 64 \<le> unat gas + unat n * unat k"
proof -
  have m: "unat (- 1 - gas) = 2 ^ 64 - 1 - unat gas"
    unfolding unat_sub [OF word_order.extremum] by (simp add: unsigned_minus_1_eq_mask mask_eq_exp_minus_1)
  have "unat gas < 2 ^ 64" using unsigned_less [of gas, where 'a = nat] by simp
  moreover have "0 < unat k" using assms by (simp add: unat_gt_0 word_gt_0)
  ultimately show ?thesis
    unfolding word_less_nat_alt unat_div m by (auto simp: div_less_iff_less_mult)
qed

lemma fits_eq: "unat gas + unat n * unat k < 2 ^ 64 \<Longrightarrow> unat (gas + n * (k :: u64)) = unat gas + unat n * unat k"
  by (simp add: unat_word_ariths)

section \<open>Gas is not created by execution\<close>

lemma finishCall_gas: "finishCall ee sn ret err g evm = Ok ((ret', g', e), evm') \<Longrightarrow> g' \<le> g"
  by (auto simp: finishCall_def UseGas_def res_map_eq_Ok split: option.splits if_splits)

lemma turingCallPart_gas:
  assumes "turingCallPart ee run sn caller input spare c gas evm = Ok ((ret, g, e), evm')"
    and "runnerOk ee run" and "c_Gas c = gas"
  shows "g \<le> gas"
proof -
  have f: "g' \<le> gas" if "turingFinish ee sn caller gas (r, g1, evm1) = Ok ((ret', g', e'), evm'')" and "g1 \<le> gas"
    for r g1 evm1 ret' g' e' evm''
    using that finishCall_gas
    by (fastforce simp: turingFinish_def Let_def split: prod.splits if_splits)
  have r: "g1 \<le> gas" if "run evm1 c i ro = (x, g1, evm2)" for evm1 i ro x g1 evm2
    using runnerOkD(3) [OF assms(2) that] assms(3) by simp
  obtain check s1 where ch: "TuringCheck (ee_env ee) (ee_db ee) caller (evm_StateDB evm) = (check, s1)" by fastforce
  let ?evm1 = "evm\<lparr>evm_StateDB := s1\<rparr>"
  note u = assms(1) [unfolded turingCallPart_def ch Let_def prod.case]
  consider "g = gas"
    | (exec) x where "(if Sequencer ee \<and> length (evm_Turing ?evm1) < 2 then
                  res_map (\<lambda>(updated, evm2).
                      case run evm2 c updated False of
                        (r, g, evm3) \<Rightarrow>
                          (r, g, evm3\<lparr>evm_Turing := updated, evm_TuringDepth := evm_TuringDepth evm3 + 1\<rparr>))
                    (turingRequest ee input spare caller ?evm1)
                else Ok (run ?evm1 c (evm_Turing ?evm1) False)) = Ok x"
       "turingFinish ee sn caller gas x = Ok ((ret, g, e), evm')"
    using u by (auto simp: res_bind_eq_Ok split: if_splits)
  then show ?thesis
  proof cases
    case exec
    obtain y g1 evm1 where x: "x = (y, g1, evm1)" by (rule prod_cases3)
    have "g1 \<le> gas" using exec(1) r unfolding x
      by (auto simp: res_map_eq_Ok split: if_splits prod.splits) (metis prod_cases3 surj_pair)
    then show ?thesis using f exec(2) x by blast
  qed simp
qed

lemma Call_gas:
  assumes "Call ee run caller a input spare gas value evm = Ok ((ret, g, e), evm')" and "runnerOk ee run"
  shows "g \<le> gas"
proof (cases "NoRecursion ee \<and> 0 < evm_depth evm \<or> CallCreateDepth < evm_depth evm")
  case True
  then show ?thesis using assms(1) by (auto simp: Call_def split: if_splits)
next
  case False
  then have g1: "(NoRecursion ee \<and> 0 < evm_depth evm) = False" and g2: "(CallCreateDepth < evm_depth evm) = False"
    by blast+
  obtain can s1 where can: "CanTransfer ee caller value (evm_StateDB evm) = (can, s1)" by fastforce
  obtain snapshot s2 where sn: "Snapshot s1 = (snapshot, s2)" by fastforce
  obtain exists s3 where ex: "Exist (ee_env ee) a s2 = (exists, s3)" by fastforce
  obtain c s6 where c: "callContract ee a (NewContract caller a value gas)
      (Transfer ee caller a value (if exists then s3 else CreateAccount (ee_env ee) a s3)) = (c, s6)" by fastforce
  note u = assms(1) [unfolded Call_def g1 g2 if_False can Let_def prod.case sn ex c]
  have cg: "c_Gas c = gas" by (rule c_Gas_callContract [OF c])
  consider "g = gas" | (turing) "turingCallPart ee run snapshot caller input spare c gas (evm\<lparr>evm_StateDB := s6\<rparr>) = Ok ((ret, g, e), evm')"
    | (plain) "(case run (evm\<lparr>evm_StateDB := s6\<rparr>) c input False of
          ((ret, err), g, evm7) \<Rightarrow> finishCall ee snapshot ret err g evm7) = Ok ((ret, g, e), evm')"
    using u by (auto split: if_splits)
  then show ?thesis
  proof cases
    case turing
    then show ?thesis by (rule turingCallPart_gas [OF _ assms(2) cg])
  next
    case plain
    obtain ret7 err g7 evm7 where r: "run (evm\<lparr>evm_StateDB := s6\<rparr>) c input False = ((ret7, err), g7, evm7)"
      by (metis prod_cases3 surj_pair)
    then have "g \<le> g7" using plain finishCall_gas by simp
    then show ?thesis using runnerOkD(3) [OF assms(2) r] cg by simp
  qed simp
qed

lemma finishCreate_gas:
  assumes "finishCreate ee sn address ret err gas evm = Ok ((ret', a', g, e), evm')"
  shows "g \<le> gas"
proof -
  obtain err1 gas1 evm1 where st: "storeCode ee address ret err gas evm = (err1, gas1, evm1)" by (rule prod_cases3)
  have sub: "x - y \<le> x" if "\<not> x < y" for x y :: u64 using that by (simp add: word_sub_le)
  have "gas1 \<le> gas" using st sub by (auto simp: storeCode_def UseGas_def split: if_splits)
  moreover have "g = gas1 \<or> g = 0"
    using assms unfolding finishCreate_def st Let_def prod.case
    by (auto simp: UseGas_def res_map_eq_Ok split: if_splits)
  ultimately show ?thesis by auto
qed

lemma create_gas:
  assumes "create ee run caller code h gas value address evm = Ok ((ret, a, g, e), evm')" and "runnerOk ee run"
  shows "g \<le> gas"
proof -
  obtain can s1 where 1: "CanTransfer ee caller value (evm_StateDB evm) = (can, s1)" by fastforce
  obtain listed s2 where 2: "(if UsingOVM (ee_env ee) then AddressWhitelisted ee caller s1 else (True, s1)) = (listed, s2)"
    by fastforce
  obtain nonce s3 where 3: "GetNonce (ee_env ee) caller s2 = (nonce, s3)" by fastforce
  let ?s4 = "StateDB.SetNonce (ee_env ee) caller (nonce + 1) s3"
  obtain ch s6 where 4: "GetCodeHash (ee_env ee) address (if IsBerlin ee then AddAddressToAccessList address ?s4 else ?s4) = (ch, s6)"
    by fastforce
  obtain n s7 where 5: "GetNonce (ee_env ee) address s6 = (n, s7)" by fastforce
  obtain sn s8 where 6: "Snapshot s7 = (sn, s8)" by fastforce
  let ?c = "(NewContract caller address value gas)\<lparr>c_Code := Some code, c_CodeHash := h, c_CodeAddr := Some address\<rparr>"
  have cg: "c_Gas ?c = gas" by (simp add: NewContract_def)
  let ?s9 = "CreateAccount (ee_env ee) address s8"
  let ?s10 = "if IsEIP158 ee then StateDB.SetNonce (ee_env ee) address 1 ?s9 else ?s9"
  obtain ret7 err g7 evm7 where
    r: "run (evm\<lparr>evm_StateDB := Transfer ee caller address value ?s10\<rparr>) ?c [] False = ((ret7, err), g7, evm7)"
    by (metis prod_cases3 surj_pair)
  have "g7 \<le> gas" using runnerOkD(3) [OF assms(2) r] cg by simp
  moreover have "g = gas \<or> g = 0 \<or> finishCreate ee sn address ret7 err g7 evm7 = Ok ((ret, a, g, e), evm')"
    using assms(1) [unfolded create_def Let_def 1 2 3 4 5 6 prod.case r] by (auto split: if_splits option.splits)
  ultimately show ?thesis using finishCreate_gas by force
qed

lemma execMessage_gas:
  assumes "execMessage te run spare st = Ok ((ret, vmerr), st3)" and "runnerOk (te_ee te) run"
  shows "st_gas st3 \<le> st_gas st" "st3 = st\<lparr>st_gas := st_gas st3, st_evm := st_evm st3\<rparr>"
proof -
  have "st_gas st3 \<le> st_gas st \<and> st3 = st\<lparr>st_gas := st_gas st3, st_evm := st_evm st3\<rparr>"
    using assms(1) Call_gas [OF _ assms(2)] create_gas [OF _ assms(2)]
    by (auto simp: execMessage_def Let_def res_bind_eq_Ok res_map_eq_Ok Create_def split: option.splits prod.splits)
  then show "st_gas st3 \<le> st_gas st" "st3 = st\<lparr>st_gas := st_gas st3, st_evm := st_evm st3\<rparr>" by blast+
qed

end
