(* ===== verification/StateTransition_Fees.thy ===== *)
theory StateTransition_Fees
  imports StateTransition
begin

text \<open>
  Where the fee of a message goes: what the sender pays, what is given back and what the fee wallet and
  the BOBA oracle receive add up, in every fork and in both tokens, and the gas pool is charged for the
  gas that was used.
\<close>

section \<open>A new transition\<close>

text \<open>What holds of the fee fields from the start to the end of a transition.\<close>

definition stOk :: "StateTransition \<Rightarrow> bool" where
  "stOk st \<longleftrightarrow>
     (isFeeTokenUpdate st \<longrightarrow> st_l1Fee st = Some 0) \<and>
     (isBobaFeeTokenSelect st \<longrightarrow> isFeeTokenUpdate st \<and> st_gasPrice st = 0) \<and>
     (\<not> isBobaFeeTokenSelect st \<longrightarrow> st_gasPrice st = msg_gasPrice (st_msg st) \<and> bobaPriceRatio st = 0) \<and>
     (msg_gasPrice (st_msg st) \<le> 0 \<longrightarrow> st_l1Fee st = Some 0 \<and> st_l2ExtraGas st = 0) \<and>
     0 \<le> st_l2ExtraGas st \<and> (\<forall>f. st_l1Fee st = Some f \<longrightarrow> 0 \<le> f) \<and> 0 \<le> bobaPriceRatio st"

lemma CalculateL1Fee_nonneg [simp]: "0 \<le> CalculateL1Fee conv data overhead price scalar"
  by (simp add: CalculateL1Fee_def mulByFloat_def Let_def)

lemma readGPOStorageSlots_read:
  "readGPOStorageSlots env db a s = (g, s') \<Longrightarrow> abst env db s' = abst env db s \<and> 0 \<le> gpo_l2GasPrice g"
  by (auto simp: readGPOStorageSlots_def Let_def case_prod_beta)

lemma CalculateL1MsgFee_read:
  "CalculateL1MsgFee env db conv msg gpo s = (r, s') \<Longrightarrow> abst env db s' = abst env db s \<and> (\<forall>f. r = Ok f \<longrightarrow> 0 \<le> f)"
  by (auto simp: CalculateL1MsgFee_def dest!: readGPOStorageSlots_read split: res.splits prod.splits)

lemma feeAsGas_nonneg: "0 \<le> f \<Longrightarrow> 0 \<le> p \<Longrightarrow> 0 \<le> feeAsGas f p"
  by (simp add: feeAsGas_def pos_imp_zdiv_nonneg_iff)

lemma CalculateL1GasFromState_read:
  "CalculateL1GasFromState env db conv data s = (r, s') \<Longrightarrow> abst env db s' = abst env db s \<and> (\<forall>f. r = Ok f \<longrightarrow> 0 \<le> f)"
  by (auto simp: CalculateL1GasFromState_def CalculateL1DataFee_def feeAsGas_nonneg dest!: readGPOStorageSlots_read
      split: res.splits prod.splits)

lemma CalculateL2GasForL1Msg_read:
  "CalculateL2GasForL1Msg env db conv msg s = (r, s') \<Longrightarrow> abst env db s' = abst env db s \<and> (\<forall>f. r = Ok f \<longrightarrow> 0 \<le> f)"
  by (auto simp: CalculateL2GasForL1Msg_def feeAsGas_nonneg dest!: readGPOStorageSlots_read CalculateL1MsgFee_read
      split: res.splits prod.splits)

lemma dropErr_Ok: "dropErr r = Ok (v, s) \<Longrightarrow> snd r = s \<and> (\<forall>x. v = Some x \<longrightarrow> fst r = Ok x)"
  by (auto simp: dropErr_def split: res.splits prod.splits)

lemma orZero_nonneg: "(\<And>x. v = Some x \<Longrightarrow> 0 \<le> x) \<Longrightarrow> 0 \<le> orZero v"
  by (auto simp: orZero_def split: option.splits)

lemmas fee_abst = CalculateL1MsgFee_read [OF surjective_pairing, THEN conjunct1]
  CalculateL1GasFromState_read [OF surjective_pairing, THEN conjunct1]
  CalculateL2GasForL1Msg_read [OF surjective_pairing, THEN conjunct1]

lemmas fee_nonneg = CalculateL1MsgFee_read [OF surjective_pairing, THEN conjunct2, rule_format]
  CalculateL1GasFromState_read [OF surjective_pairing, THEN conjunct2, rule_format]
  CalculateL2GasForL1Msg_read [OF surjective_pairing, THEN conjunct2, rule_format]

lemma rollupFees_Ok:
  assumes "rollupFees te msg feeUpdate s = Ok ((l1Fee, extra), s')"
  shows "abst (te_env te) (te_db te) s' = abst (te_env te) (te_db te) s \<and> 0 \<le> extra \<and> (\<forall>f. l1Fee = Some f \<longrightarrow> 0 \<le> f) \<and>
    (feeUpdate \<longrightarrow> l1Fee = Some 0) \<and> (msg_gasPrice msg \<le> 0 \<longrightarrow> l1Fee = Some 0 \<and> extra = 0)"
  using assms
  by (auto simp: rollupFees_def res_bind_eq_Ok res_map_eq_Ok fee_abst split: if_splits
      dest!: dropErr_Ok dest: fee_nonneg intro!: orZero_nonneg)

lemma token_read [simp]:
  "abst env db (snd (GetFeeTokenSelection env db a s)) = abst env db s"
  "abst env db (snd (GetBobaPriceRatio env db s)) = abst env db s"
  "0 \<le> fst (GetBobaPriceRatio env db s)"
  by (simp_all add: GetFeeTokenSelection_def GetBobaPriceRatio_def case_prod_beta)

lemma NewStateTransition_Ok:
  assumes "NewStateTransition te evm msg gp = Ok st"
  shows "stOk st" "abst (te_env te) (te_db te) (st_state st) = abst (te_env te) (te_db te) (evm_StateDB evm)"
    "st_msg st = msg" "st_gas st = 0" "st_gp st = gp" "st_data st = msg_data msg"
proof -
  have f: "stOk st \<and> abst (te_env te) (te_db te) (st_state st) = abst (te_env te) (te_db te) (evm_StateDB evm) \<and>
      st_msg st = msg \<and> st_gas st = 0 \<and> st_gp st = gp \<and> st_data st = msg_data msg"
  proof (cases "UsingOVM (te_env te)")
    case True
    then show ?thesis using assms
      by (auto simp: NewStateTransition_def Let_def res_map_eq_Ok case_prod_beta stOk_def dest: rollupFees_Ok)
  next
    case False
    then show ?thesis using assms
      by (auto simp: NewStateTransition_def Let_def res_map_eq_Ok stOk_def)
  qed
  then show "stOk st" "abst (te_env te) (te_db te) (st_state st) = abst (te_env te) (te_db te) (evm_StateDB evm)"
    "st_msg st = msg" "st_gas st = 0" "st_gp st = gp" "st_data st = msg_data msg" by blast+
qed

section \<open>Two tokens\<close>

text \<open>ETH and BOBA are storage of different contracts, so that changing one keeps the other.\<close>

definition twoTokens :: "RollupEnv \<Rightarrow> Database \<Rightarrow> bool" where
  "twoTokens env db \<longleftrightarrow> ethOk env db \<and> bobaOk env db \<and> OvmL2BobaToken env \<noteq> OvmEthAddress"

lemma eth_boba [simp]:
  assumes "twoTokens env db"
  shows "ethOf env db (AddBobaBalance env db a n s) = ethOf env db s"
    "ethOf env db (SubBobaBalance env db a n s) = ethOf env db s"
    "bobaOf env db (AddBalance env db a n s) = bobaOf env db s"
    "bobaOf env db (SubBalance env db a n s) = bobaOf env db s"
  using assms
  by (auto simp: twoTokens_def ethOk_def fun_eq_iff ethOf_slot bobaOf_slot AddBobaBalance_def SubBobaBalance_def
      AddBalance_def SubBalance_def slot_updateSlot)

lemma bobaOf_abst: "slotOf (abst env db s') = slotOf (abst env db s) \<Longrightarrow> bobaOf env db s' = bobaOf env db s"
  by (intro ext) (simp add: bobaOf_slot)

section \<open>Buying gas\<close>

abbreviation st_eth :: "TxEnv \<Rightarrow> StateTransition \<Rightarrow> addr \<Rightarrow> int" where
  "st_eth te st \<equiv> ethOf (te_env te) (te_db te) (st_state st)"

abbreviation st_boba :: "TxEnv \<Rightarrow> StateTransition \<Rightarrow> addr \<Rightarrow> int" where
  "st_boba te st \<equiv> bobaOf (te_env te) (te_db te) (st_state st)"

abbreviation st_from :: "StateTransition \<Rightarrow> addr" where
  "st_from st \<equiv> msg_from (st_msg st)"

definition boughtGas :: "TxEnv \<Rightarrow> int \<Rightarrow> StateTransition \<Rightarrow> StateTransition \<Rightarrow> bool" where
  "boughtGas te due st st1 \<longleftrightarrow>
     (let gas = msg_gasLimit (st_msg st); from = st_from st;
          paid = min due (st_eth te st from);
          boba = (if isBobaFeeTokenSelect st then bobaFee gas st else 0)
      in gas \<le> st_gp st \<and> boba \<le> st_boba te st from \<and>
         st1 = st\<lparr>st_gp := st_gp st - gas, st_gas := st_gas st + gas, st_initialGas := gas, st_evm := st_evm st1\<rparr> \<and>
         (0 \<le> due \<longrightarrow> st_eth te st1 = (st_eth te st)(from := st_eth te st from - paid)) \<and>
         (0 \<le> boba \<longrightarrow> st_boba te st1 = (st_boba te st)(from := st_boba te st from - boba)))"

lemma GetBobaBalance_read [simp]: "abst env db (snd (GetBobaBalance env db a s)) = abst env db s"
  by (simp add: GetBobaBalance_def case_prod_beta)

lemma buyGas_Ok:
  assumes "buyGas te st = (Ok u, st1)" and "twoTokens (te_env te) (te_db te)"
  shows "\<exists>due. gasFee te st = Ok due \<and> boughtGas te due st st1"
proof -
  let ?env = "te_env te" and ?db = "te_db te" and ?from = "st_from st" and ?gas = "msg_gasLimit (st_msg st)"
  have ok: "ethOk ?env ?db" "bobaOk ?env ?db" "UsingOVM ?env" using assms(2) by (simp_all add: twoTokens_def ethOk_def)
  obtain due where due: "gasFee te st = Ok due" using assms(1) by (auto simp: buyGas_def split: res.splits)
  obtain balance s1 where b: "GetBalance ?env ?db ?from (st_state st) = (balance, s1)" by fastforce
  obtain boba s2 where o: "(if isBobaFeeTokenSelect st then GetBobaBalance ?env ?db ?from s1 else (0, s1)) = (boba, s2)"
    by fastforce
  let ?bobaval = "if isBobaFeeTokenSelect st then bobaFee ?gas st else 0"
  let ?s3 = "if isBobaFeeTokenSelect st then SubBobaBalance ?env ?db ?from ?bobaval s2 else s2"
  have a: "abst ?env ?db s1 = abst ?env ?db (st_state st)" using arg_cong [OF b, of snd] by auto
  moreover have "abst ?env ?db s2 = abst ?env ?db s1" using arg_cong [OF o, of snd] by (auto split: if_splits)
  ultimately have e: "ethOf ?env ?db s2 = st_eth te st" "bobaOf ?env ?db s2 = st_boba te st"
    using ethOf_abst [OF ok(3), of ?db] bobaOf_abst by metis+
  have bal: "balance = st_eth te st ?from" using b by (simp add: ethOf_def)
  have bob: "boba = (if isBobaFeeTokenSelect st then st_boba te st ?from else 0)"
    using o fun_cong [OF bobaOf_abst [OF arg_cong [OF a, of slotOf]], of ?from]
    by (auto simp: bobaOf_def split: if_splits)
  let ?paid = "if balance < due then balance else due"
  have r: "?gas \<le> st_gp st" "\<not> (isBobaFeeTokenSelect st \<and> boba < ?bobaval)"
    "st1 = withState (\<lambda>_. SubBalance ?env ?db ?from ?paid ?s3)
       (st\<lparr>st_gp := st_gp st - ?gas, st_gas := st_gas st + ?gas, st_initialGas := ?gas\<rparr>)"
    using assms(1) ok(3) unfolding buyGas_def due res.case Let_def b o prod.case
    by (auto simp: SubGas_def split: if_splits)
  have enough: "?bobaval \<le> st_boba te st ?from"
    using r(2) boba.bal_nonneg [OF ok(2), of "st_state st" ?from] by (auto simp: bob split: if_splits)
  have p: "?paid = min due (st_eth te st ?from)" by (simp add: bal min_def)
  have s: "st_state st1 = SubBalance ?env ?db ?from ?paid ?s3" unfolding r(3) by (simp add: withState_def)
  have "st_eth te st1 = (st_eth te st)(?from := st_eth te st ?from - ?paid)" if "0 \<le> due"
    unfolding s using eth.sub_enough [OF ok(1), of ?paid ?s3 ?from] that eth.bal_nonneg [OF ok(1), of "st_state st" ?from]
      assms(2) by (simp add: e bal)
  moreover have "st_boba te st1 = (st_boba te st)(?from := st_boba te st ?from - ?bobaval)" if "0 \<le> ?bobaval"
    unfolding s using boba.sub_enough [OF ok(2), of ?bobaval s2 ?from] that enough assms(2)
    by (cases "isBobaFeeTokenSelect st") (simp_all add: e)
  ultimately have "boughtGas te due st st1"
    using r(1) enough unfolding boughtGas_def Let_def p by (simp add: r(3) withState_def)
  with due show ?thesis by blast
qed

lemma preCheck_Ok:
  assumes "preCheck te st = (Ok u, st1)" and "twoTokens (te_env te) (te_db te)"
  shows "\<exists>due. gasFee te st = Ok due \<and> boughtGas te due st st1"
proof (cases "msg_checkNonce (st_msg st) \<and>
    \<not> (UsingOVM (te_env te) \<and> msg_queueOrigin (st_msg st) = QueueOriginL1ToL2)")
  case True
  let ?env = "te_env te" and ?db = "te_db te"
  obtain nonce s where n: "GetNonce ?env (st_from st) (st_state st) = (nonce, s)" by fastforce
  let ?st = "withState (\<lambda>_. s) st"
  have "abst ?env ?db s = abst ?env ?db (st_state st)" using arg_cong [OF n, of snd] by auto
  then have e: "st_eth te ?st = st_eth te st" "st_boba te ?st = st_boba te st"
    using ethOf_abst [of ?env ?db s "st_state st"] bobaOf_abst [of ?env ?db s "st_state st"] assms(2)
    by (simp_all add: withState_def twoTokens_def ethOk_def)
  have "buyGas te ?st = (Ok u, st1)"
    using assms(1) True n by (auto simp: preCheck_def split: if_splits)
  from buyGas_Ok [OF this assms(2)] obtain due where d: "gasFee te ?st = Ok due" "boughtGas te due ?st st1" by blast
  have f: "gasFee te ?st = gasFee te st" "bobaFee g ?st = bobaFee g st" for g
    by (simp_all add: gasFee_def bobaFee_def withState_def Let_def cong: if_cong option.case_cong)
  have sel: "st_msg ?st = st_msg st" "isBobaFeeTokenSelect ?st = isBobaFeeTokenSelect st" by (simp_all add: withState_def)
  have "boughtGas te due st st1"
    using d(2) unfolding boughtGas_def Let_def f e sel by (simp add: withState_def)
  with d(1) show ?thesis unfolding f by blast
next
  case False
  then show ?thesis using assms(1) by (intro buyGas_Ok [OF _ assms(2)]) (auto simp: preCheck_def)
qed

section \<open>Intrinsic gas and refund\<close>

text \<open>The whole charge before the execution, without overflow.\<close>

definition intrinsicTotal :: "bytes \<Rightarrow> bool \<Rightarrow> bool \<Rightarrow> bool \<Rightarrow> nat" where
  "intrinsicTotal data contractCreation isHomestead isEIP2028 =
     (if contractCreation \<and> isHomestead then 53000 else 21000) +
     (if isEIP2028 then 16 else 68) * length (filter (\<lambda>b. b \<noteq> 0) data) + 4 * length (filter (\<lambda>b. b = 0) data)"

lemma IntrinsicGas_eq:
  assumes "length data < 2 ^ 64"
  shows "IntrinsicGas data c h e =
    (if intrinsicTotal data c h e < 2 ^ 64 then Ok (of_nat (intrinsicTotal data c h e)) else Err ErrOutOfGas)"
proof -
  let ?nz = "length (filter (\<lambda>b. b \<noteq> 0) data)" and ?z = "length (filter (\<lambda>b. b = 0) data)"
  let ?gas = "if c \<and> h then TxGasContractCreation else TxGas"
    and ?k = "if e then TxDataNonZeroGasEIP2028 else TxDataNonZeroGasFrontier"
  let ?n = "nonZeroes data" and ?m = "of_nat (length data) - nonZeroes data :: u64"
  have sum: "length data = ?nz + ?z" using sum_length_filter_compl [of "\<lambda>b. b \<noteq> 0" data] by simp
  have n: "unat ?n = ?nz" unfolding nonZeroes_count using assms sum by (simp add: unat_of_nat_u64)
  have "?m = of_nat ?z" by (simp add: sum nonZeroes_count)
  then have m: "unat ?m = ?z" using assms sum by (simp add: unat_of_nat_u64)
  have b: "unat ?gas = (if c \<and> h then 53000 else 21000)" "unat ?k = (if e then 16 else 68)" "0 < ?k" "0 < TxDataZeroGas"
      "unat TxDataZeroGas = 4"
    by (simp_all add: TxGasContractCreation_def TxGas_def TxDataNonZeroGasEIP2028_def TxDataNonZeroGasFrontier_def
        TxDataZeroGas_def)
  have t: "intrinsicTotal data c h e = unat ?gas + unat ?n * unat ?k + unat ?m * unat TxDataZeroGas"
    unfolding intrinsicTotal_def n m b by simp
  show ?thesis
  proof (cases "data = []")
    case True
    then show ?thesis using b(1) by (simp add: IntrinsicGas_def intrinsicTotal_def Let_def TxGasContractCreation_def TxGas_def)
  next
    case False
    have g: "unat (?gas + ?n * ?k) = unat ?gas + unat ?n * unat ?k" if "unat ?gas + unat ?n * unat ?k < 2 ^ 64"
      by (rule fits_eq [OF that])
    have w: "?gas + ?n * ?k + ?m * TxDataZeroGas = of_nat (intrinsicTotal data c h e)" unfolding t by simp
    show ?thesis
    proof (cases "unat ?gas + unat ?n * unat ?k < 2 ^ 64")
      case fits: True
      show ?thesis
        unfolding IntrinsicGas_def Let_def mul_fits [OF b(3)] mul_fits [OF b(4)] g [OF fits] w t [symmetric]
        using False fits by simp
    next
      case over: False
      then have "\<not> intrinsicTotal data c h e < 2 ^ 64" unfolding t by linarith
      then show ?thesis
        unfolding IntrinsicGas_def Let_def mul_fits [OF b(3)] using False over by simp
    qed
  qed
qed

lemma IntrinsicGas_bound:
  assumes "IntrinsicGas data c h e = Ok g" and "length data < 2 ^ 50"
  shows "unat g < 2 ^ 58"
proof -
  have "intrinsicTotal data c h e \<le> 53000 + 68 * length data"
    using sum_length_filter_compl [of "\<lambda>b. b \<noteq> 0" data] by (auto simp: intrinsicTotal_def)
  then have t: "intrinsicTotal data c h e < 2 ^ 58" using assms(2) by simp
  then have "g = of_nat (intrinsicTotal data c h e)" using assms by (simp add: IntrinsicGas_eq)
  then show ?thesis using t by (simp add: unat_of_nat_u64)
qed

lemma payIntrinsic_Ok:
  assumes "payIntrinsic te st = Ok st2"
  shows "\<exists>g. g \<le> st_gas st \<and> st2 = st\<lparr>st_gas := st_gas st - g\<rparr> \<and>
    (isFeeTokenUpdate st \<and> length (st_data st) < 2 ^ 50 \<and> 0 \<le> st_l2ExtraGas st \<and> st_l2ExtraGas st < 2 ^ 63 \<longrightarrow> big_Uint64 (st_l2ExtraGas st) \<le> g)"
proof -
  let ?extra = "big_Uint64 (st_l2ExtraGas st)"
  obtain gas where g: "IntrinsicGas (st_data st) (msg_to (st_msg st) = None) (IsHomestead (te_ee te)) (IsIstanbul te) = Ok gas"
    "useGas (if isFeeTokenUpdate st then gas + ?extra else gas) st = Ok st2"
    using assms by (auto simp: payIntrinsic_def res_bind_eq_Ok)
  have "?extra \<le> gas + ?extra" if "length (st_data st) < 2 ^ 50" "0 \<le> st_l2ExtraGas st" "st_l2ExtraGas st < 2 ^ 63"
  proof -
    have "unat ?extra = nat (st_l2ExtraGas st)" using that(2,3) by (simp add: big_Uint64_def unat_eq_nat_uint uint_word_of_int)
    then have "unat gas + unat ?extra < 2 ^ 64" using IntrinsicGas_bound [OF g(1) that(1)] that(3) by simp
    then show ?thesis by (simp add: word_le_nat_alt unat_word_ariths)
  qed
  with g(2) show ?thesis
    by (intro exI [of _ "if isFeeTokenUpdate st then gas + ?extra else gas"])
      (auto simp: useGas_def not_less split: if_splits)
qed

text \<open>In the fork in which the L1 part of the gas is paid on top of the gas limit\<close>

definition extraOnTop :: "TxEnv \<Rightarrow> StateTransition \<Rightarrow> bool" where
  "extraOnTop te st \<longleftrightarrow> UsingOVM (te_env te) \<and> isGasUpdate st \<and> \<not> isFeeTokenUpdate st"

lemma half_le: "x \<le> d \<Longrightarrow> x div 2 \<le> (d :: u64)"
  by (simp add: word_le_nat_alt unat_div)

definition refundTo :: "TxEnv \<Rightarrow> u64 \<Rightarrow> StateTransition \<Rightarrow> StateTransition" where
  "refundTo te g st =
     withState (if isBobaFeeTokenSelect st then AddBobaBalance (te_env te) (te_db te) (st_from st) (bobaFee g st)
                else AddBalance (te_env te) (te_db te) (st_from st) (uint g * st_gasPrice st))
       (st\<lparr>st_gas := g, st_gp := st_gp st + g\<rparr>)"

lemma refundGas_eq:
  assumes "st_gas st \<le> st_initialGas st"
    and "extraOnTop te st \<or> \<not> isGasUpdate st \<or> big_Uint64 (st_l2ExtraGas st) \<le> st_initialGas st - st_gas st"
  shows "\<exists>g. st_gas st \<le> g \<and> g \<le> st_initialGas st \<and>
    refundGas te st = (if unat (st_gp st) + unat g < 2 ^ 64 then Ok (refundTo te g st) else Panic ''gas pool pushed above uint64'')"
proof -
  let ?d = "st_initialGas st - st_gas st"
  let ?half = "if isGasUpdate st then (gasUsed te st - big_Uint64 (st_l2ExtraGas st)) div 2 else gasUsed te st div 2"
  let ?refund = "if st_refund (st_state st) < ?half then st_refund (st_state st) else ?half"
  let ?g = "st_gas st + ?refund"
  have "?half \<le> ?d"
  proof (cases "extraOnTop te st")
    case True
    then show ?thesis by (simp add: extraOnTop_def gasUsed_def half_le)
  next
    case False
    then have "gasUsed te st = ?d" by (auto simp: gasUsed_def extraOnTop_def)
    then show ?thesis using assms(2) False by (auto intro!: half_le word_sub_le)
  qed
  then have "?refund \<le> ?d" by auto
  then have "unat ?refund \<le> unat (st_initialGas st) - unat (st_gas st)"
    using assms(1) by (simp add: word_le_nat_alt unat_sub)
  moreover have "unat (st_initialGas st) < 2 ^ 64" using unsigned_less [of "st_initialGas st", where 'a = nat] by simp
  ultimately have u: "unat ?g = unat (st_gas st) + unat ?refund" "unat ?g \<le> unat (st_initialGas st)"
    using assms(1) by (simp_all add: word_le_nat_alt unat_word_ariths)
  have r: "refundGas te st = res_map (\<lambda>gp. (refundTo te ?g st)\<lparr>st_gp := gp\<rparr>) (AddGas ?g (st_gp st))"
    unfolding refundGas_def Let_def refundTo_def withState_def bobaFee_def
    by (cases "isBobaFeeTokenSelect st") simp_all
  have "- 1 - ?g < st_gp st \<longleftrightarrow> \<not> unat (st_gp st) + unat ?g < 2 ^ 64"
    using mul_fits [of 1 ?g "st_gp st"] by (simp add: add.commute not_less)
  moreover have "(refundTo te ?g st)\<lparr>st_gp := st_gp st + ?g\<rparr> = refundTo te ?g st"
    by (simp add: refundTo_def withState_def)
  ultimately have "refundGas te st =
      (if unat (st_gp st) + unat ?g < 2 ^ 64 then Ok (refundTo te ?g st) else Panic ''gas pool pushed above uint64'')"
    unfolding r AddGas_def by simp
  then show ?thesis using u by (intro exI [of _ ?g]) (simp add: word_le_nat_alt)
qed

section \<open>Settling\<close>

definition totalEth :: "TxEnv \<Rightarrow> StateDB \<Rightarrow> int" where
  "totalEth te s = (\<Sum>a\<in>UNIV. ethOf (te_env te) (te_db te) s a)"

definition totalBoba :: "TxEnv \<Rightarrow> StateDB \<Rightarrow> int" where
  "totalBoba te s = (\<Sum>a\<in>UNIV. bobaOf (te_env te) (te_db te) s a)"

lemma totalEth_add:
  assumes "ethOk (te_env te) (te_db te)" and "0 \<le> n" and "totalEth te s + n < 2 ^ 256"
  shows "totalEth te (AddBalance (te_env te) (te_db te) a n s) = totalEth te s + n"
  using eth.supply_add(2) [OF assms(1) finite_class.finite_UNIV UNIV_I assms(2)] assms(3)
  unfolding totalEth_def eth.supplyOf_def by blast

lemma totalBoba_add:
  assumes "bobaOk (te_env te) (te_db te)" and "0 \<le> n" and "totalBoba te s + n < 2 ^ 256"
  shows "totalBoba te (AddBobaBalance (te_env te) (te_db te) a n s) = totalBoba te s + n"
  using boba.supply_add(2) [OF assms(1) finite_class.finite_UNIV UNIV_I assms(2)] assms(3)
  unfolding totalBoba_def boba.supplyOf_def by blast

lemma total_frame [simp]:
  assumes "twoTokens (te_env te) (te_db te)"
  shows "totalEth te (AddBobaBalance (te_env te) (te_db te) a n s) = totalEth te s"
    "totalBoba te (AddBalance (te_env te) (te_db te) a n s) = totalBoba te s"
  using assms by (simp_all add: totalEth_def totalBoba_def)

definition l1Share :: "StateTransition \<Rightarrow> int" where
  "l1Share st = (if isGasUpdate st then 0 else case st_l1Fee st of None \<Rightarrow> 0 | Some f \<Rightarrow> f)"

lemma settle_Ok:
  assumes "settle te st = Ok st'" and "st_gas st \<le> st_initialGas st"
    and "extraOnTop te st \<or> \<not> isGasUpdate st \<or> big_Uint64 (st_l2ExtraGas st) \<le> st_initialGas st - st_gas st"
  shows "\<exists>g. st_gas st \<le> g \<and> g \<le> st_initialGas st \<and> unat (st_gp st) + unat g < 2 ^ 64 \<and>
    st' = withState (\<lambda>s. AddBalance (te_env te) (te_db te) (Coinbase te) (l1Share st + uint (gasUsed te st') * st_gasPrice st)
        (if isBobaFeeTokenSelect st
         then AddBobaBalance (te_env te) (te_db te) (OvmBobaGasPricOracle (te_env te)) (bobaFee (gasUsed te st') st) s
         else s)) (refundTo te g st)"
proof -
  obtain st4 where r: "refundGas te st = Ok st4" and p: "payFees te st4 = Ok st'"
    using assms(1) by (auto simp: settle_def res_bind_eq_Ok)
  from refundGas_eq [OF assms(2,3)] r obtain g where
    g: "st_gas st \<le> g" "g \<le> st_initialGas st" "unat (st_gp st) + unat g < 2 ^ 64" "st4 = refundTo te g st"
    by (auto split: if_splits)
  have sel: "isGasUpdate st4 = isGasUpdate st" "isBobaFeeTokenSelect st4 = isBobaFeeTokenSelect st"
    "st_l1Fee st4 = st_l1Fee st" "st_gasPrice st4 = st_gasPrice st" "bobaFee x st4 = bobaFee x st" for x
    unfolding g(4) by (simp_all add: refundTo_def withState_def bobaFee_def)
  have w: "gasUsed te (withState f x) = gasUsed te x" "st_l1Fee (withState f x) = st_l1Fee x"
    "st_gasPrice (withState f x) = st_gasPrice x" "withState f (withState h x) = withState (\<lambda>s. f (h s)) x" for f h x
    by (simp_all add: gasUsed_def withState_def)
  have e1: "st' = withState (\<lambda>s. AddBalance (te_env te) (te_db te) (Coinbase te) (l1Share st + uint (gasUsed te st4) * st_gasPrice st)
        (if isBobaFeeTokenSelect st
         then AddBobaBalance (te_env te) (te_db te) (OvmBobaGasPricOracle (te_env te)) (bobaFee (gasUsed te st4) st) s
         else s)) st4"
    using p unfolding payFees_def Let_def sel l1Share_def
    by (auto simp: w sel split: if_splits option.splits)
  then have e2: "gasUsed te st' = gasUsed te st4" by (simp only: w)
  show ?thesis using g(1-3) e1 [folded e2, unfolded g(4)] by blast
qed

lemma settle_total:
  assumes "settle te st = Ok st'" and "st_gas st \<le> st_initialGas st"
    and "extraOnTop te st \<or> \<not> isGasUpdate st \<or> big_Uint64 (st_l2ExtraGas st) \<le> st_initialGas st - st_gas st"
    and "twoTokens (te_env te) (te_db te)" and "stOk st" and "0 \<le> msg_gasPrice (st_msg st)"
  shows "\<exists>g. st_gas st \<le> g \<and> g \<le> st_initialGas st \<and> unat (st_gp st) + unat g < 2 ^ 64 \<and>
    st' = st\<lparr>st_gas := g, st_gp := st_gp st + g, st_evm := st_evm st'\<rparr> \<and>
    (let back = uint g * st_gasPrice st; fee = l1Share st + uint (gasUsed te st') * st_gasPrice st in
       totalEth te (st_state st) + back + fee < 2 ^ 256 \<longrightarrow>
       totalEth te (st_state st') = totalEth te (st_state st) + back + fee) \<and>
    (let back = bobaFee g st; fee = bobaFee (gasUsed te st') st in
       totalBoba te (st_state st) + back + fee < 2 ^ 256 \<longrightarrow>
       totalBoba te (st_state st') = totalBoba te (st_state st) + (if isBobaFeeTokenSelect st then back + fee else 0))"
proof -
  let ?env = "te_env te" and ?db = "te_db te"
  obtain g where g: "st_gas st \<le> g" "g \<le> st_initialGas st" "unat (st_gp st) + unat g < 2 ^ 64"
    "st' = withState (\<lambda>s. AddBalance ?env ?db (Coinbase te) (l1Share st + uint (gasUsed te st') * st_gasPrice st)
        (if isBobaFeeTokenSelect st
         then AddBobaBalance ?env ?db (OvmBobaGasPricOracle ?env) (bobaFee (gasUsed te st') st) s
         else s)) (refundTo te g st)"
    using settle_Ok [OF assms(1-3)] by blast
  define used where "used = gasUsed te st'"
  have ok: "ethOk ?env ?db" "bobaOk ?env ?db" using assms(4) by (simp_all add: twoTokens_def)
  have p: "0 \<le> st_gasPrice st" using assms(5,6) by (cases "isBobaFeeTokenSelect st") (auto simp: stOk_def)
  have l: "0 \<le> l1Share st" using assms(5) by (auto simp: l1Share_def stOk_def split: option.splits)
  have bf: "0 \<le> bobaFee x st" for x using assms(5,6) by (simp add: bobaFee_def stOk_def)
  have nn: "0 \<le> uint x * st_gasPrice st" for x :: u64 using p by simp
  let ?s4 = "if isBobaFeeTokenSelect st then AddBobaBalance ?env ?db (st_from st) (bobaFee g st) (st_state st)
      else AddBalance ?env ?db (st_from st) (uint g * st_gasPrice st) (st_state st)"
  have s': "st_state st' = AddBalance ?env ?db (Coinbase te) (l1Share st + uint used * st_gasPrice st)
      (if isBobaFeeTokenSelect st then AddBobaBalance ?env ?db (OvmBobaGasPricOracle ?env) (bobaFee used st) ?s4 else ?s4)"
    unfolding used_def by (subst g(4)) (simp add: withState_def refundTo_def)
  have "x = st\<lparr>st_gas := g, st_gp := st_gp st + g, st_evm := st_evm x\<rparr>" if "x = withState f (refundTo te g st)" for x f
    unfolding that by (simp add: withState_def refundTo_def)
  then have st': "st' = st\<lparr>st_gas := g, st_gp := st_gp st + g, st_evm := st_evm st'\<rparr>" using g(4) by blast
  have e: "totalEth te (st_state st') = totalEth te (st_state st) + uint g * st_gasPrice st + (l1Share st + uint used * st_gasPrice st)"
    if h: "totalEth te (st_state st) + uint g * st_gasPrice st + (l1Share st + uint used * st_gasPrice st) < 2 ^ 256"
  proof (cases "isBobaFeeTokenSelect st")
    case True
    then have z: "st_gasPrice st = 0" using assms(5) by (simp add: stOk_def)
    then show ?thesis unfolding s' using True h l assms(4) by (simp add: totalEth_add [OF ok(1)])
  next
    case False
    have "totalEth te ?s4 = totalEth te (st_state st) + uint g * st_gasPrice st"
      using False h l nn [of g] nn [of used] by (simp add: totalEth_add [OF ok(1)])
    then show ?thesis unfolding s' using False h l nn [of used] by (simp add: totalEth_add [OF ok(1)])
  qed
  have b: "totalBoba te (st_state st') =
      totalBoba te (st_state st) + (if isBobaFeeTokenSelect st then bobaFee g st + bobaFee used st else 0)"
    if h: "totalBoba te (st_state st) + bobaFee g st + bobaFee used st < 2 ^ 256"
    unfolding s' using h bf [of g] bf [of used] assms(4)
    by (cases "isBobaFeeTokenSelect st") (simp_all add: totalBoba_add [OF ok(2)])
  show ?thesis using g(1-3) st' e b unfolding used_def Let_def by blast
qed

section \<open>The whole transition\<close>

lemma stOk_upd: "stOk (st\<lparr>st_gp := a, st_gas := b, st_initialGas := c, st_evm := d\<rparr>) = stOk st"
  by (simp add: stOk_def)

lemma TransitionDb_Ok:
  assumes "NewStateTransition te evm msg gp = Ok st" and "TransitionDb te run spare st = (Ok (ret, used, failed), st')"
    and "twoTokens (te_env te) (te_db te)" and "runnerOk (te_ee te) run"
    and "length (msg_data msg) < 2 ^ 50" and "st_l2ExtraGas st < 2 ^ 63"
  obtains due st1 st2 vmerr st3 where "preCheck te st = (Ok (), st1)" "payIntrinsic te st1 = Ok st2"
    "gasFee te st = Ok due" "boughtGas te due st st1"
    "st2 = st1\<lparr>st_gas := st_gas st2\<rparr>" "execMessage te run spare st2 = Ok ((ret, vmerr), st3)"
    "st3 = st2\<lparr>st_gas := st_gas st3, st_evm := st_evm st3\<rparr>" "settle te st3 = Ok st'" "used = gasUsed te st'"
    "st_gas st3 \<le> st_initialGas st3"
    "extraOnTop te st3 \<or> \<not> isGasUpdate st3 \<or> big_Uint64 (st_l2ExtraGas st3) \<le> st_initialGas st3 - st_gas st3"
proof -
  note new = NewStateTransition_Ok [OF assms(1)]
  have ovm: "UsingOVM (te_env te)" using assms(3) by (simp add: twoTokens_def ethOk_def)
  from assms(2) obtain st1 st2 vmerr st3 where
    s: "preCheck te st = (Ok (), st1)" "payIntrinsic te st1 = Ok st2" "execMessage te run spare st2 = Ok ((ret, vmerr), st3)"
      "settle te st3 = Ok st'" "used = gasUsed te st'"
    by (auto simp: TransitionDb_def split: prod.splits res.splits if_splits)
  from preCheck_Ok [OF s(1) assms(3)] obtain due where d: "gasFee te st = Ok due" "boughtGas te due st st1" by blast
  note st3 = execMessage_gas [OF s(3) assms(4)]
  have st1: "st1 = st\<lparr>st_gp := st_gp st - msg_gasLimit (st_msg st), st_gas := st_gas st + msg_gasLimit (st_msg st),
      st_initialGas := msg_gasLimit (st_msg st), st_evm := st_evm st1\<rparr>"
    using d(2) unfolding boughtGas_def Let_def by blast
  from payIntrinsic_Ok [OF s(2)] obtain g where g: "g \<le> st_gas st1" "st2 = st1\<lparr>st_gas := st_gas st1 - g\<rparr>"
    "isFeeTokenUpdate st1 \<and> length (st_data st1) < 2 ^ 50 \<and> 0 \<le> st_l2ExtraGas st1 \<and> st_l2ExtraGas st1 < 2 ^ 63 \<longrightarrow>
      big_Uint64 (st_l2ExtraGas st1) \<le> g" by blast
  have sel: "st_gas st1 = msg_gasLimit msg" "st_initialGas st1 = msg_gasLimit msg" "isGasUpdate st1 = isGasUpdate st"
    "isFeeTokenUpdate st1 = isFeeTokenUpdate st" "st_l2ExtraGas st1 = st_l2ExtraGas st" "st_data st1 = msg_data msg"
    by (subst st1, simp add: new)+
  have sel3: "st_initialGas st3 = msg_gasLimit msg" "isGasUpdate st3 = isGasUpdate st"
    "isFeeTokenUpdate st3 = isFeeTokenUpdate st" "st_l2ExtraGas st3 = st_l2ExtraGas st"
    by (subst st3(2), simp add: g(2) sel)+
  have le: "st_gas st3 \<le> msg_gasLimit msg - g" using st3(1) by (simp add: g(2) sel)
  have gl: "g \<le> msg_gasLimit msg" using g(1) by (simp add: sel)
  then have n: "unat (st_gas st3) + unat g \<le> unat (msg_gasLimit msg)"
    using le by (simp add: word_le_nat_alt unat_sub)
  have le3: "st_gas st3 \<le> st_initialGas st3" using n by (simp add: sel3 word_le_nat_alt)
  have "big_Uint64 (st_l2ExtraGas st3) \<le> st_initialGas st3 - st_gas st3" if "isFeeTokenUpdate st"
  proof -
    have "big_Uint64 (st_l2ExtraGas st) \<le> g" using g(3) that assms(5,6) new(1) by (simp add: sel stOk_def)
    moreover have "g \<le> st_initialGas st3 - st_gas st3"
      using n le3 by (simp add: sel3 word_le_nat_alt unat_sub)
    ultimately show ?thesis by (simp add: sel3)
  qed
  then have "extraOnTop te st3 \<or> \<not> isGasUpdate st3 \<or> big_Uint64 (st_l2ExtraGas st3) \<le> st_initialGas st3 - st_gas st3"
    using ovm by (auto simp: extraOnTop_def sel3)
  moreover have "st2 = st1\<lparr>st_gas := st_gas st2\<rparr>" by (simp add: g(2))
  ultimately show thesis using that d s st3(2) le3 by blast
qed

text \<open>The fields no step changes\<close>

definition static where
  "static st = (st_msg st, st_gasPrice st, st_l1Fee st, st_l2ExtraGas st, isGasUpdate st, isFeeTokenUpdate st,
     isBobaFeeTokenSelect st, bobaPriceRatio st)"

lemma static_eq:
  assumes "static st3 = static st"
  shows "stOk st3 = stOk st" "l1Share st3 = l1Share st" "bobaFee x st3 = bobaFee x st" "extraOnTop te st3 = extraOnTop te st"
    "st_gasPrice st3 = st_gasPrice st" "isBobaFeeTokenSelect st3 = isBobaFeeTokenSelect st" "st_msg st3 = st_msg st"
    "st_l2ExtraGas st3 = st_l2ExtraGas st"
  using assms by (simp_all add: static_def stOk_def l1Share_def bobaFee_def extraOnTop_def)

lemma gasUsed_share:
  assumes "st_initialGas st = gl" and "st_gas st = g" and "g \<le> gl" and "unat gl < 2 ^ 63"
    and "0 \<le> st_l2ExtraGas st" and "st_l2ExtraGas st < 2 ^ 63"
  shows "uint (gasUsed te st) = uint gl - uint g + (if extraOnTop te st then st_l2ExtraGas st else 0)"
proof -
  have d: "unat (gl - g) = unat gl - unat g" "unat g \<le> unat gl" using assms(3) by (simp_all add: unat_sub word_le_nat_alt)
  have e: "unat (big_Uint64 (st_l2ExtraGas st)) = nat (st_l2ExtraGas st)"
    using assms(5,6) by (simp add: big_Uint64_def unat_eq_nat_uint uint_word_of_int)
  then have "unat (gl - g) + unat (big_Uint64 (st_l2ExtraGas st)) < 2 ^ 64" using d assms(4,6) by simp
  then have s: "unat (gl - g + big_Uint64 (st_l2ExtraGas st)) = unat gl - unat g + nat (st_l2ExtraGas st)"
    using d e by (simp add: unat_word_ariths)
  have "uint (gl - g) = uint gl - uint g" using arg_cong [OF d(1), of int] d(2) by (simp add: of_nat_diff)
  moreover have "uint (gl - g + big_Uint64 (st_l2ExtraGas st)) = uint gl - uint g + st_l2ExtraGas st"
    using arg_cong [OF s, of int] d(2) assms(5) by (simp add: of_nat_diff)
  ultimately show ?thesis by (simp add: gasUsed_def extraOnTop_def assms(1,2))
qed

text \<open>How the gas of a transition is shared out: \<open>g\<close> is what the sender gets back.\<close>

lemma TransitionDb_shares:
  assumes "NewStateTransition te evm msg gp = Ok st" and "TransitionDb te run spare st = (Ok (ret, used, failed), st')"
    and "twoTokens (te_env te) (te_db te)" and "runnerOk (te_ee te) run" and "0 \<le> msg_gasPrice msg"
    and "length (msg_data msg) < 2 ^ 50" and "st_l2ExtraGas st < 2 ^ 63" and "unat (msg_gasLimit msg) < 2 ^ 63"
  obtains due st1 st2 vmerr st3 g where "preCheck te st = (Ok (), st1)" "payIntrinsic te st1 = Ok st2"
    "execMessage te run spare st2 = Ok ((ret, vmerr), st3)" "settle te st3 = Ok st'"
    "gasFee te st = Ok due" "boughtGas te due st st1" "st_evm st2 = st_evm st1"
    "g \<le> msg_gasLimit msg" "msg_gasLimit msg \<le> gp" "unat (st_gp st') = unat gp - unat (msg_gasLimit msg) + unat g"
    "uint used = uint (msg_gasLimit msg) - uint g + (if extraOnTop te st then st_l2ExtraGas st else 0)"
    "totalEth te (st_state st3) + uint g * st_gasPrice st + (l1Share st + uint used * st_gasPrice st) < 2 ^ 256 \<longrightarrow>
       totalEth te (st_state st') = totalEth te (st_state st3) + uint g * st_gasPrice st + (l1Share st + uint used * st_gasPrice st)"
    "totalBoba te (st_state st3) + bobaFee g st + bobaFee used st < 2 ^ 256 \<longrightarrow>
       totalBoba te (st_state st') = totalBoba te (st_state st3) + (if isBobaFeeTokenSelect st then bobaFee g st + bobaFee used st else 0)"
proof -
  note new = NewStateTransition_Ok [OF assms(1)]
  obtain due st1 st2 vmerr st3 where ph: "preCheck te st = (Ok (), st1)" "payIntrinsic te st1 = Ok st2"
    and s: "gasFee te st = Ok due" "boughtGas te due st st1"
    "st2 = st1\<lparr>st_gas := st_gas st2\<rparr>" "execMessage te run spare st2 = Ok ((ret, vmerr), st3)"
    "st3 = st2\<lparr>st_gas := st_gas st3, st_evm := st_evm st3\<rparr>" "settle te st3 = Ok st'" "used = gasUsed te st'"
    "st_gas st3 \<le> st_initialGas st3"
    "extraOnTop te st3 \<or> \<not> isGasUpdate st3 \<or> big_Uint64 (st_l2ExtraGas st3) \<le> st_initialGas st3 - st_gas st3"
    by (rule TransitionDb_Ok [OF assms(1-4,6,7)]) (rule that, assumption+)
  let ?gl = "msg_gasLimit msg"
  have st1: "st1 = st\<lparr>st_gp := gp - ?gl, st_gas := st_gas st + ?gl, st_initialGas := ?gl, st_evm := st_evm st1\<rparr>" "?gl \<le> gp"
    using s(2) unfolding boughtGas_def Let_def new(3,5) by blast+
  have "static st3 = static st2" by (subst s(5)) (simp add: static_def)
  moreover have "static st2 = static st1" by (subst s(3)) (simp add: static_def)
  moreover have "static st1 = static st" by (subst st1(1)) (simp add: static_def)
  ultimately have "static st3 = static st" by simp
  note sel = static_eq [OF this]
  have "st_initialGas st3 = st_initialGas st2 \<and> st_gp st3 = st_gp st2" by (subst (1 2) s(5)) simp
  moreover have "st_initialGas st2 = st_initialGas st1 \<and> st_gp st2 = st_gp st1 \<and> st_evm st2 = st_evm st1"
    by (subst (1 2 3) s(3)) simp
  moreover have "st_initialGas st1 = ?gl \<and> st_gp st1 = gp - ?gl" by (subst (1 2) st1(1)) simp
  ultimately have i: "st_initialGas st3 = ?gl" "st_gp st3 = gp - ?gl" "st_evm st2 = st_evm st1" by simp_all
  obtain g where g: "st_gas st3 \<le> g" "g \<le> ?gl" "unat (st_gp st3) + unat g < 2 ^ 64"
    "st' = st3\<lparr>st_gas := g, st_gp := st_gp st3 + g, st_evm := st_evm st'\<rparr>"
    and t: "totalEth te (st_state st3) + uint g * st_gasPrice st + (l1Share st + uint used * st_gasPrice st) < 2 ^ 256 \<longrightarrow>
       totalEth te (st_state st') = totalEth te (st_state st3) + uint g * st_gasPrice st + (l1Share st + uint used * st_gasPrice st)"
    "totalBoba te (st_state st3) + bobaFee g st + bobaFee used st < 2 ^ 256 \<longrightarrow>
       totalBoba te (st_state st') = totalBoba te (st_state st3) + (if isBobaFeeTokenSelect st then bobaFee g st + bobaFee used st else 0)"
    using settle_total [OF s(6,8,9) assms(3)] new(1,3) assms(5) unfolding Let_def i sel s(7) by blast
  have "st_initialGas st' = ?gl \<and> st_gas st' = g \<and> st_gp st' = st_gp st3 + g \<and> static st' = static st3"
    by (subst (1 2 3 4) g(4)) (simp add: i static_def)
  then have f: "st_initialGas st' = ?gl" "st_gas st' = g" "st_gp st' = st_gp st3 + g" "static st' = static st3" by blast+
  have "unat (st_gp st3) = unat gp - unat ?gl" using st1(2) by (simp add: i unat_sub)
  then have "unat (st_gp st') = unat gp - unat ?gl + unat g" using g(3) by (simp add: f unat_word_ariths)
  moreover have "uint used = uint ?gl - uint g + (if extraOnTop te st then st_l2ExtraGas st else 0)"
    using gasUsed_share [OF f(1,2) g(2) assms(8), of te] new(1) assms(7)
    unfolding s(7) static_eq [OF f(4)] sel by (simp add: stOk_def)
  ultimately show thesis using that ph s(1,2,4,6) i(3) g(2) st1(2) t by blast
qed

text \<open>What is charged is what is shared out.\<close>

lemma due_shares:
  assumes "gasFee te st = Ok due" and "stOk st" and "UsingOVM (te_env te)" and "0 \<le> msg_gasPrice (st_msg st)"
    and "msg_queueOrigin (st_msg st) = QueueOriginSequencer \<or> msg_gasPrice (st_msg st) = 0"
    and "used = uint (msg_gasLimit (st_msg st)) - g + (if extraOnTop te st then st_l2ExtraGas st else 0)"
  shows "due = g * st_gasPrice st + (l1Share st + used * st_gasPrice st)" "0 \<le> due"
proof -
  have p: "0 \<le> st_gasPrice st" using assms(2,4) by (cases "isBobaFeeTokenSelect st") (auto simp: stOk_def)
  have n: "0 \<le> st_l2ExtraGas st" "\<And>f. st_l1Fee st = Some f \<Longrightarrow> 0 \<le> f" using assms(2) by (simp_all add: stOk_def)
  consider (top) "msg_queueOrigin (st_msg st) = QueueOriginSequencer" "extraOnTop te st"
    | (seq) "msg_queueOrigin (st_msg st) = QueueOriginSequencer" "\<not> extraOnTop te st"
    | (free) "msg_queueOrigin (st_msg st) \<noteq> QueueOriginSequencer" "msg_gasPrice (st_msg st) = 0"
    using assms(5) by blast
  then have "due = g * st_gasPrice st + (l1Share st + used * st_gasPrice st) \<and> 0 \<le> due"
  proof cases
    case top
    then have "due = uint (msg_gasLimit (st_msg st)) * st_gasPrice st + st_l2ExtraGas st * st_gasPrice st"
      using assms(1) by (simp add: gasFee_def extraOnTop_def)
    moreover have "l1Share st = 0" using top(2) by (simp add: l1Share_def extraOnTop_def)
    ultimately show ?thesis unfolding assms(6) using top(2) p n(1) by (simp add: algebra_simps)
  next
    case seq
    then obtain f where f: "st_l1Fee st = Some f" "due = uint (msg_gasLimit (st_msg st)) * st_gasPrice st + f"
      using assms(1,3) by (auto simp: gasFee_def extraOnTop_def Let_def split: option.splits)
    have "l1Share st = f" using f(1) seq(2) assms(2,3) by (auto simp: l1Share_def extraOnTop_def stOk_def)
    then show ?thesis unfolding assms(6) using f seq(2) p n(2) by (simp add: algebra_simps)
  next
    case free
    then have "st_gasPrice st = 0" "st_l1Fee st = Some 0"
      using assms(2) by (cases "isBobaFeeTokenSelect st"; simp add: stOk_def)+
    then show ?thesis using assms(1) free by (simp add: gasFee_def l1Share_def Let_def)
  qed
  then show "due = g * st_gasPrice st + (l1Share st + used * st_gasPrice st)" "0 \<le> due" by blast+
qed

section \<open>Errors and fixed fields\<close>

lemma static_upd [simp]:
  "static (withState f st) = static st" "static (st\<lparr>st_gp := a\<rparr>) = static st" "static (st\<lparr>st_gas := b\<rparr>) = static st"
  "static (st\<lparr>st_initialGas := c\<rparr>) = static st" "static (st\<lparr>st_evm := d\<rparr>) = static st"
  by (simp_all add: static_def withState_def)

lemma static_buyGas: "static (snd (buyGas te st)) = static st"
  by (simp add: buyGas_def Let_def case_prod_beta split: res.splits)

lemma static_preCheck: "static (snd (preCheck te st)) = static st"
  by (simp add: preCheck_def case_prod_beta static_buyGas)

lemma static_payIntrinsic: "payIntrinsic te st = Ok st2 \<Longrightarrow> static st2 = static st"
  by (auto simp: payIntrinsic_def res_bind_eq_Ok useGas_def split: if_splits)

lemma static_execMessage: "execMessage te run spare st = Ok (r, st3) \<Longrightarrow> static st3 = static st"
  by (auto simp: execMessage_def Let_def res_bind_eq_Ok res_map_eq_Ok case_prod_beta split: option.splits)

lemma static_settle: "settle te st = Ok st4 \<Longrightarrow> static st4 = static st"
  by (auto simp: settle_def refundGas_def payFees_def Let_def res_bind_eq_Ok res_map_eq_Ok split: if_splits option.splits)

lemma static_TransitionDb: "static (snd (TransitionDb te run spare st)) = static st"
proof -
  have p: "static st1 = static st" if "preCheck te st = (r, st1)" for r st1 using static_preCheck [of te st] that by simp
  show ?thesis
    unfolding TransitionDb_def
    by (auto split: prod.splits res.splits dest!: p static_payIntrinsic static_execMessage static_settle)
qed

lemma abst_withState [simp]: "st_state (withState f st) = f (st_state st)" "st_gp (withState f st) = st_gp st"
  by (simp_all add: withState_def)

lemma ethOf_same:
  assumes "abst env db s' = abst env db s"
  shows "ethOf env db s' = ethOf env db s"
proof (cases "UsingOVM env")
  case True
  then show ?thesis using assms by (intro ethOf_abst) simp_all
next
  case False
  have v: "ethOf env db t a = (case xlive (abst env db t) a of None \<Rightarrow> 0 | Some w \<Rightarrow> acc_Balance (v_data w))" for t a
    using False by (auto simp: ethOf_def GetBalance_def getStateObject_load xlive_abst view_def split: option.splits)
  show ?thesis by (intro ext) (simp add: v assms)
qed

lemma bobaOf_same: "abst env db s' = abst env db s \<Longrightarrow> bobaOf env db s' = bobaOf env db s"
  by (intro ext) (simp add: bobaOf_slot)

definition feeRefused :: "TxEnv \<Rightarrow> StateTransition \<Rightarrow> go_error \<Rightarrow> bool" where
  "feeRefused te st e \<longleftrightarrow>
     e = errInsufficientBalanceForGas \<and> \<not> UsingOVM (te_env te) \<and> (\<exists>due. gasFee te st = Ok due \<and> st_eth te st (st_from st) < due) \<or>
     e = errInsufficientBobaBalanceForGas \<and> isBobaFeeTokenSelect st \<and>
       st_boba te st (st_from st) < bobaFee (msg_gasLimit (st_msg st)) st \<or>
     e = ErrGasLimitReached \<and> st_gp st < msg_gasLimit (st_msg st)"

lemma buyGas_Err:
  assumes "buyGas te st = (Err e, st1)"
  shows "st_gp st1 = st_gp st \<and> abst (te_env te) (te_db te) (st_state st1) = abst (te_env te) (te_db te) (st_state st) \<and>
    feeRefused te st e"
proof -
  have b: "fst (GetBobaBalance (te_env te) (te_db te) a (snd (GetBalance (te_env te) (te_db te) a (st_state st)))) =
      st_boba te st a" for a
    using bobaOf_same [OF abst_reads(1), of "te_env te" "te_db te" a "st_state st"] by (simp add: bobaOf_def fun_eq_iff)
  have n: "\<not> gasFee te st = Err e'" for e' by (auto simp: gasFee_def Let_def split: option.splits)
  show ?thesis
    using assms n
    by (auto simp: buyGas_def Let_def case_prod_beta SubGas_def b feeRefused_def ethOf_def split: res.splits if_splits)
qed

section \<open>Properties\<close>

text \<open>
  C5: the fee of a message creates and destroys no ETH but what the sender could not pay. A transition
  that returns went through the check that buys the gas, the intrinsic gas, the execution and the
  settlement. Buying takes the fee, or the whole balance if that is less, out of the sum of all
  balances. Over the whole transition the sum changes by what the execution changed plus the part of the fee
  the sender did not have: what was due is given back to the sender or paid to the fee wallet, in every fork,
  with L1 fee and extra gas. The message comes from the sequencer or is free, and the sum fits 256 bits.
\<close>

theorem TransitionDb_eth:
  assumes "NewStateTransition te evm msg gp = Ok st" and "TransitionDb te run spare st = (Ok (ret, used, failed), st')"
    and "twoTokens (te_env te) (te_db te)" and "runnerOk (te_ee te) run" and "0 \<le> msg_gasPrice msg"
    and "length (msg_data msg) < 2 ^ 50" and "st_l2ExtraGas st < 2 ^ 63" and "unat (msg_gasLimit msg) < 2 ^ 63"
    and "msg_queueOrigin msg = QueueOriginSequencer \<or> msg_gasPrice msg = 0"
  shows "\<exists>due st1 st2 vmerr st3. gasFee te st = Ok due \<and> preCheck te st = (Ok (), st1) \<and> payIntrinsic te st1 = Ok st2 \<and>
    execMessage te run spare st2 = Ok ((ret, vmerr), st3) \<and> settle te st3 = Ok st' \<and>
    totalEth te (st_state st2) =
      totalEth te (evm_StateDB evm) - min due (ethOf (te_env te) (te_db te) (evm_StateDB evm) (msg_from msg)) \<and>
    (totalEth te (st_state st3) + due < 2 ^ 256 \<longrightarrow>
     totalEth te (st_state st') - totalEth te (evm_StateDB evm) =
       totalEth te (st_state st3) - totalEth te (st_state st2) +
       max 0 (due - ethOf (te_env te) (te_db te) (evm_StateDB evm) (msg_from msg)))"
proof -
  note new = NewStateTransition_Ok [OF assms(1)]
  obtain due st1 st2 vmerr st3 and g :: u64 where ph: "preCheck te st = (Ok (), st1)" "payIntrinsic te st1 = Ok st2"
    "execMessage te run spare st2 = Ok ((ret, vmerr), st3)" "settle te st3 = Ok st'"
    and s: "gasFee te st = Ok due" "boughtGas te due st st1" "st_evm st2 = st_evm st1"
    and u: "uint used = uint (msg_gasLimit msg) - uint g + (if extraOnTop te st then st_l2ExtraGas st else 0)"
    and t: "totalEth te (st_state st3) + uint g * st_gasPrice st + (l1Share st + uint used * st_gasPrice st) < 2 ^ 256 \<longrightarrow>
       totalEth te (st_state st') = totalEth te (st_state st3) + uint g * st_gasPrice st + (l1Share st + uint used * st_gasPrice st)"
    by (rule TransitionDb_shares [OF assms(1-8)]) (rule that, assumption+)
  have ovm: "UsingOVM (te_env te)" "ethOk (te_env te) (te_db te)" using assms(3) by (simp_all add: twoTokens_def ethOk_def)
  have d: "due = uint g * st_gasPrice st + (l1Share st + uint used * st_gasPrice st)" "0 \<le> due"
    using due_shares [OF s(1) new(1) ovm(1)] assms(5,9) u unfolding new(3) by blast+
  have e: "st_eth te st = ethOf (te_env te) (te_db te) (evm_StateDB evm)"
    by (rule ethOf_abst [OF ovm(1)]) (simp add: new(2))
  let ?bal = "ethOf (te_env te) (te_db te) (evm_StateDB evm)"
  have b: "st_eth te st1 = ?bal(msg_from msg := ?bal (msg_from msg) - min due (?bal (msg_from msg)))"
    using s(2) d(2) unfolding boughtGas_def Let_def new(3) e by blast
  have "totalEth te (st_state st2) = totalEth te (evm_StateDB evm) - min due (?bal (msg_from msg))"
    unfolding totalEth_def s(3) b eth.sum_upd [OF finite_class.finite_UNIV UNIV_I] by simp
  then show ?thesis using s(1) ph t d(1) by (intro exI conjI) (assumption+, auto simp: min_def max_def)
qed

text \<open>
  C13: a message whose sender chose BOBA as the fee token pays its gas limit at the price and the
  ratio of the start, which leaves the sum of all BOBA balances by as much, gets back what it did not use,
  and the oracle contract receives the rest: over the whole transition the sum changes only by what the
  execution changed, if it fits 256 bits. A message paid in ETH touches no BOBA outside its execution.
\<close>

theorem TransitionDb_boba:
  assumes "NewStateTransition te evm msg gp = Ok st" and "TransitionDb te run spare st = (Ok (ret, used, failed), st')"
    and "twoTokens (te_env te) (te_db te)" and "runnerOk (te_ee te) run" and "0 \<le> msg_gasPrice msg"
    and "length (msg_data msg) < 2 ^ 50" and "st_l2ExtraGas st < 2 ^ 63" and "unat (msg_gasLimit msg) < 2 ^ 63"
  shows "\<exists>st1 st2 vmerr st3. preCheck te st = (Ok (), st1) \<and> payIntrinsic te st1 = Ok st2 \<and>
    execMessage te run spare st2 = Ok ((ret, vmerr), st3) \<and> settle te st3 = Ok st' \<and>
    totalBoba te (st_state st2) = totalBoba te (evm_StateDB evm) -
      (if isBobaFeeTokenSelect st then uint (msg_gasLimit msg) * msg_gasPrice msg * bobaPriceRatio st else 0) \<and>
    (totalBoba te (st_state st3) + bobaFee (msg_gasLimit msg) st < 2 ^ 256 \<longrightarrow>
     totalBoba te (st_state st') - totalBoba te (evm_StateDB evm) =
       totalBoba te (st_state st3) - totalBoba te (st_state st2))"
proof -
  note new = NewStateTransition_Ok [OF assms(1)]
  obtain due st1 st2 vmerr st3 and g :: u64 where ph: "preCheck te st = (Ok (), st1)" "payIntrinsic te st1 = Ok st2"
    "execMessage te run spare st2 = Ok ((ret, vmerr), st3)" "settle te st3 = Ok st'"
    and s: "gasFee te st = Ok due" "boughtGas te due st st1" "st_evm st2 = st_evm st1"
    and u: "uint used = uint (msg_gasLimit msg) - uint g + (if extraOnTop te st then st_l2ExtraGas st else 0)"
    and t: "totalBoba te (st_state st3) + bobaFee g st + bobaFee used st < 2 ^ 256 \<longrightarrow>
       totalBoba te (st_state st') = totalBoba te (st_state st3) + (if isBobaFeeTokenSelect st then bobaFee g st + bobaFee used st else 0)"
    by (rule TransitionDb_shares [OF assms(1-8)]) (rule that, assumption+)
  let ?fee = "if isBobaFeeTokenSelect st then bobaFee (msg_gasLimit msg) st else 0"
  have f: "bobaFee g st + bobaFee used st = bobaFee (msg_gasLimit msg) st" "?fee = bobaFee (msg_gasLimit msg) st"
    "?fee = (if isBobaFeeTokenSelect st then uint (msg_gasLimit msg) * msg_gasPrice msg * bobaPriceRatio st else 0)"
  proof -
    have "uint g + uint used = uint (msg_gasLimit msg) \<or> bobaPriceRatio st = 0"
      using u new(1) by (auto simp: stOk_def extraOnTop_def)
    then show "bobaFee g st + bobaFee used st = bobaFee (msg_gasLimit msg) st"
      by (auto simp: bobaFee_def simp flip: distrib_right)
    show "?fee = bobaFee (msg_gasLimit msg) st" using new(1) by (simp add: bobaFee_def stOk_def)
  qed (simp add: bobaFee_def new(3))
  have nn: "0 \<le> ?fee" using new(1,3) assms(5) by (simp add: bobaFee_def stOk_def)
  let ?bal = "bobaOf (te_env te) (te_db te) (evm_StateDB evm)"
  have e: "st_boba te st = ?bal" by (rule bobaOf_abst) (simp add: new(2))
  have b: "st_boba te st1 = ?bal(msg_from msg := ?bal (msg_from msg) - ?fee)"
    using s(2) nn unfolding boughtGas_def Let_def new(3) e by blast
  have "totalBoba te (st_state st2) = totalBoba te (evm_StateDB evm) - ?fee"
    unfolding totalBoba_def s(3) b boba.sum_upd [OF finite_class.finite_UNIV UNIV_I] by simp
  then show ?thesis
    using ph t f by (intro exI conjI) (assumption+, auto split: if_splits)
qed

text \<open>
  C14: the gas pool of a block pays exactly for the gas a message used. The gas limit of the message
  fits the pool, and after the transition the pool has lost the gas used, apart from the extra gas of the
  fork in which it is charged on top of the gas limit; the gas used is at most the limit plus that
  extra gas. Neither the pool nor a counter wraps around, for gas limits and extra gas below \<open>2 ^ 63\<close>.
\<close>

theorem TransitionDb_gas:
  assumes "NewStateTransition te evm msg gp = Ok st" and "TransitionDb te run spare st = (Ok (ret, used, failed), st')"
    and "twoTokens (te_env te) (te_db te)" and "runnerOk (te_ee te) run" and "0 \<le> msg_gasPrice msg"
    and "length (msg_data msg) < 2 ^ 50" and "st_l2ExtraGas st < 2 ^ 63" and "unat (msg_gasLimit msg) < 2 ^ 63"
  defines "extra \<equiv> if extraOnTop te st then st_l2ExtraGas st else 0"
  shows "msg_gasLimit msg \<le> gp \<and> uint (st_gp st') = uint gp - (uint used - extra) \<and>
    extra \<le> uint used \<and> uint used \<le> uint (msg_gasLimit msg) + extra"
proof -
  obtain g :: u64 where g: "g \<le> msg_gasLimit msg" "msg_gasLimit msg \<le> gp"
    "unat (st_gp st') = unat gp - unat (msg_gasLimit msg) + unat g" "uint used = uint (msg_gasLimit msg) - uint g + (if extraOnTop te st then st_l2ExtraGas st else 0)"
    by (rule TransitionDb_shares [OF assms(1-8)]) (rule that, assumption+)
  have "uint (st_gp st') = uint gp - uint (msg_gasLimit msg) + uint g"
    using arg_cong [OF g(3), of int] g(2) by (simp add: of_nat_diff word_le_nat_alt)
  moreover have "uint g \<le> uint (msg_gasLimit msg)" using g(1) by (simp add: word_le_def)
  ultimately show ?thesis using g(2,4) by (simp add: extra_def)
qed

text \<open>
  C35: the intrinsic gas is 21000, or 53000 for a creation, plus 4 per zero byte and 16 (before the
  Istanbul fork 68) per other byte; if that does not fit 64 bits, the result is an out-of-gas error and
  never a wrapped sum.
\<close>

theorem IntrinsicGas_spec:
  assumes "length data < 2 ^ 64"
  shows "case IntrinsicGas data contractCreation isHomestead isEIP2028 of
      Ok gas \<Rightarrow> unat gas = (if contractCreation \<and> isHomestead then 53000 else 21000) +
        (if isEIP2028 then 16 else 68) * length (filter (\<lambda>b. b \<noteq> 0) data) + 4 * length (filter (\<lambda>b. b = 0) data)
    | Err e \<Rightarrow> e = ErrOutOfGas \<and> 2 ^ 64 \<le> (if contractCreation \<and> isHomestead then 53000 else 21000) +
        (if isEIP2028 then 16 else 68) * length (filter (\<lambda>b. b \<noteq> 0) data) + 4 * length (filter (\<lambda>b. b = 0) data)
    | Panic p \<Rightarrow> False"
  unfolding IntrinsicGas_eq [OF assms] intrinsicTotal_def [symmetric] by (auto simp: unat_of_nat_u64)

text \<open>
  C16: the fee fields of a transition are well-formed from its creation to its end, however it ends: the
  L1 fee is zero once it is part of the gas, BOBA is only chosen after its fork and makes the ETH price
  zero, a free message has neither L1 fee nor extra gas, and no fee field is negative.
\<close>

theorem TransitionDb_wf:
  assumes "NewStateTransition te evm msg gp = Ok st"
  shows "stOk st \<and> stOk (snd (TransitionDb te run spare st))"
  using NewStateTransition_Ok(1) [OF assms] static_eq(1) [OF static_TransitionDb] by blast

text \<open>
  C34: a message that is refused costs nothing: when the checks before the execution fail, the state and
  the gas pool are unchanged, and the error tells why: the nonce is above or below that of the account, the
  block has less gas left than the gas limit, the BOBA balance of a sender who pays in BOBA is below the fee
  for the gas limit, or, outside the rollup only, the ETH balance is below the fee.
\<close>

theorem preCheck_error:
  assumes "preCheck te st = (Err e, st1)"
  shows "st_gp st1 = st_gp st \<and> abst (te_env te) (te_db te) (st_state st1) = abst (te_env te) (te_db te) (st_state st) \<and>
    (let env = te_env te; db = te_db te; s = st_state st; msg = st_msg st; from = msg_from msg;
         nonce = fst (GetNonce env from s) in
       e = ErrNonceTooHigh \<and> nonce < msg_nonce msg \<or>
       e = ErrNonceTooLow \<and> msg_nonce msg < nonce \<or>
       e = ErrGasLimitReached \<and> st_gp st < msg_gasLimit msg \<or>
       e = errInsufficientBobaBalanceForGas \<and> isBobaFeeTokenSelect st \<and>
         bobaOf env db s from < uint (msg_gasLimit msg) * msg_gasPrice msg * bobaPriceRatio st \<or>
       e = errInsufficientBalanceForGas \<and> \<not> UsingOVM env \<and> (\<exists>due. gasFee te st = Ok due \<and> ethOf env db s from < due))"
proof (cases "msg_checkNonce (st_msg st) \<and>
    \<not> (UsingOVM (te_env te) \<and> msg_queueOrigin (st_msg st) = QueueOriginL1ToL2)")
  case True
  obtain nonce s where n: "GetNonce (te_env te) (msg_from (st_msg st)) (st_state st) = (nonce, s)" by fastforce
  have a: "abst (te_env te) (te_db te) s = abst (te_env te) (te_db te) (st_state st)" using arg_cong [OF n, of snd] by auto
  note u = assms [unfolded preCheck_def if_P [OF True] n prod.case]
  consider (high) "nonce < msg_nonce (st_msg st)" | (low) "\<not> nonce < msg_nonce (st_msg st)" "msg_nonce (st_msg st) < nonce"
    | (buy) "\<not> nonce < msg_nonce (st_msg st)" "\<not> msg_nonce (st_msg st) < nonce" by blast
  then show ?thesis
  proof cases
    case high
    then have "e = ErrNonceTooHigh" "st1 = withState (\<lambda>_. s) st" using u by simp_all
    then show ?thesis using high by (simp add: n a Let_def)
  next
    case low
    then have "e = ErrNonceTooLow" "st1 = withState (\<lambda>_. s) st" using u by simp_all
    then show ?thesis using low by (simp add: n a Let_def)
  next
    case buy
    then have "buyGas te (withState (\<lambda>_. s) st) = (Err e, st1)" using u by simp
    note b = buyGas_Err [OF this]
    have "feeRefused te st e"
      using b ethOf_same [OF a] bobaOf_same [OF a] by (auto simp: feeRefused_def withState_def gasFee_def bobaFee_def Let_def)
    then show ?thesis using b by (auto simp: a feeRefused_def bobaFee_def Let_def)
  qed
next
  case False
  then have "buyGas te st = (Err e, st1)" using assms by (auto simp: preCheck_def)
  from buyGas_Err [OF this] show ?thesis by (auto simp: feeRefused_def bobaFee_def Let_def)
qed

section \<open>A message that is applied\<close>

definition sampleTe :: TxEnv where
  "sampleTe = \<lparr>te_ee = sampleEE, te_conv = (\<lambda>_. 0), Coinbase = 17, ChainID = None, BlockNumber = 1, IsIstanbul = True,
     ActivePrecompiles = []\<rparr>"

definition sampleTxMsg :: Message where
  "sampleTxMsg = sampleMsg\<lparr>msg_checkNonce := False\<rparr>"

lemma sample_env: "te_ee sampleTe = sampleEE" "ee_env sampleEE = sampleEnv" "ee_db sampleEE = sampleDb"
  by (simp_all add: sampleTe_def sampleEE_def)

lemma sample_two: "twoTokens sampleEnv sampleDb"
  using sample_ok by (simp add: twoTokens_def sampleEnv_def OvmEthAddress_def)

lemma runnerOk_succeeding: "runnerOk sampleEE succeedingRun"
  by (auto simp: runnerOk_def succeedingRun_def intro: exI [of _ "[]"])

lemma Call_plain_idle:
  assumes "evm_depth evm = 0"
  shows "\<exists>g evm'. Call sampleEE succeedingRun 1 7 [] spare gas 0 evm = Ok (([], g, None), evm') \<and>
    slotOf (abst sampleEnv sampleDb (evm_StateDB evm')) = slotOf (abst sampleEnv sampleDb (evm_StateDB evm))"
proof -
  have e: "ee_env sampleEE = sampleEnv" "ee_db sampleEE = sampleDb" by (simp_all add: sampleEE_def)
  have t: "\<not> isTuring2 []" "\<not> isGetRand2 []" by (simp_all add: isTuring2_def isGetRand2_def)
  have "0 \<le> fst (GetBalance sampleEnv sampleDb 1 (evm_StateDB evm))"
    using eth.bal_nonneg [OF sample_ok(1), of "evm_StateDB evm" 1] by (simp add: ethOf_def)
  then obtain s1 where can: "CanTransfer sampleEE 1 0 (evm_StateDB evm) = (True, s1)" by (simp add: CanTransfer_def case_prod_beta e)
  obtain snapshot s2 where sn: "Snapshot s1 = (snapshot, s2)" by fastforce
  obtain exists s3 where ex: "Exist sampleEnv 7 s2 = (exists, s3)" by fastforce
  let ?s4 = "if exists then s3 else CreateAccount sampleEnv 7 s3"
  obtain c s6 where c: "callContract sampleEE 7 (NewContract 1 7 0 gas) (Transfer sampleEE 1 7 0 ?s4) = (c, s6)" by fastforce
  have "abst sampleEnv sampleDb s3 = abst sampleEnv sampleDb (evm_StateDB evm)"
    using arg_cong [OF can, of snd] arg_cong [OF sn, of snd] arg_cong [OF ex, of snd]
    by (auto simp: CanTransfer_def case_prod_beta e)
  then have "slotOf (abst sampleEnv sampleDb ?s4) = slotOf (abst sampleEnv sampleDb (evm_StateDB evm))"
    using slot_CreateAccount [OF _ sample_ok(3), of sampleEnv s3 7] Exist_live [OF ex] by auto
  then have z: "slotOf (abst sampleEnv sampleDb s6) = slotOf (abst sampleEnv sampleDb (evm_StateDB evm))"
    using abst_callContract [OF c] slot_Transfer_0 [of sampleEE 1 7 ?s4] sample_ok(1) by (simp add: e)
  have g: "(NoRecursion sampleEE \<and> 0 < evm_depth evm) = False" "(CallCreateDepth < evm_depth evm) = False" "IsEIP158 sampleEE = False"
    using assms by (simp_all add: sampleEE_def CallCreateDepth_def)
  show ?thesis
    unfolding Call_def e g if_False can Let_def prod.case sn ex c using t z by (simp add: succeedingRun_def finishCall_def)
qed

text \<open>Messages on a state in which the oracle has no L2 gas price: no extra gas.\<close>

lemma readGPO_read:
  assumes "readGPOStorageSlots env db a s = (g, s')"
  shows "abst env db s' = abst env db s" "slotOf (abst env db s) a L2GasPriceSlot = 0 \<Longrightarrow> gpo_l2GasPrice g = 0"
  using assms by (auto simp: readGPOStorageSlots_def Let_def case_prod_beta fst_GetState Big_def)

lemma sample_fees:
  assumes "slotOf (abst (te_env te) (te_db te) s) L2GasPriceOracleAddress L2GasPriceSlot = 0"
  shows "\<exists>s'. rollupFees te sampleTxMsg True s = Ok ((Some 0, 0), s') \<and> abst (te_env te) (te_db te) s' = abst (te_env te) (te_db te) s"
proof -
  obtain b where b: "rlpEncode (asTransaction sampleTxMsg) = Ok b"
    using rlpEncode_drop [OF _ _ sampleMsg_bytes] by (auto simp: sampleTxMsg_def sampleMsg_def asTransaction_def)
  obtain g1 s1 where 1: "readGPOStorageSlots (te_env te) (te_db te) (gpoAddress None) s = (g1, s1)" by fastforce
  obtain g2 s2 where 2: "readGPOStorageSlots (te_env te) (te_db te) (gpoAddress (Some L2GasPriceOracleAddress)) s1 = (g2, s2)"
    by fastforce
  obtain g3 s3 where 3: "readGPOStorageSlots (te_env te) (te_db te) L2GasPriceOracleAddress s2 = (g3, s3)" by fastforce
  note r = readGPO_read [OF 1] readGPO_read [OF 2] readGPO_read [OF 3]
  have "gpo_l2GasPrice g3 = 0" using r assms by simp
  then show ?thesis
    using r(1,3,5) by (simp add: rollupFees_def CalculateL1MsgFee_def CalculateL1GasFromState_def CalculateL1DataFee_def b 1 2 3
        dropErr_def orZero_def feeAsGas_def)
qed

abbreviation feeToken :: "StateDB \<Rightarrow> int" where
  "feeToken s \<equiv> fst (GetFeeTokenSelection sampleEnv sampleDb 1 s)"

lemma sample_new:
  assumes "slotOf (abst sampleEnv sampleDb s) L2GasPriceOracleAddress L2GasPriceSlot = 0"
  shows "\<exists>st. NewStateTransition sampleTe (sampleEvm s) sampleTxMsg gp = Ok st \<and>
     st_l2ExtraGas st = 0 \<and> isBobaFeeTokenSelect st = (feeToken s = 1) \<and> st_l1Fee st = Some 0 \<and> evm_depth (st_evm st) = 0 \<and>
     isFeeTokenUpdate st \<and> st_value st = 0 \<and> isGasUpdate st \<and>
     (feeToken s = 1 \<longrightarrow> bobaPriceRatio st = Big (slotOf (abst sampleEnv sampleDb s) 8 (BigToHash 5)))"
proof -
  obtain s' where f: "rollupFees sampleTe sampleTxMsg True s = Ok ((Some 0, 0), s')"
    "abst sampleEnv sampleDb s' = abst sampleEnv sampleDb s"
    using sample_fees [of sampleTe s] assms by (auto simp: sample_env)
  have sel: "feeToken s' = feeToken s" "abst sampleEnv sampleDb (snd (GetFeeTokenSelection sampleEnv sampleDb 1 s')) = abst sampleEnv sampleDb s"
    using f(2) by (simp_all add: GetFeeTokenSelection_def case_prod_beta fst_GetState)
  have "OvmBobaGasPricOracle sampleEnv = 8" by (simp add: sampleEnv_def)
  then have ratio: "fst (GetBobaPriceRatio sampleEnv sampleDb (snd (GetFeeTokenSelection sampleEnv sampleDb 1 s'))) =
      Big (slotOf (abst sampleEnv sampleDb s) 8 (BigToHash 5))"
    by (simp add: GetBobaPriceRatio_def case_prod_beta fst_GetState sel f(2))
  have "IsFeeTokenUpdate (ChainID sampleTe) n" "IsGasUpdate (ChainID sampleTe) n" "UsingOVM sampleEnv" for n
    by (simp_all add: sampleTe_def IsFeeTokenUpdate_def IsGasUpdate_def sampleEnv_def)
  moreover have "evm_StateDB (sampleEvm s) = s" "msg_from sampleTxMsg = 1" "msg_amount sampleTxMsg = 0" "evm_depth (sampleEvm s) = 0"
    by (simp_all add: sampleEvm_def sampleTxMsg_def sampleMsg_def)
  ultimately show ?thesis
    using f(1) sel(1) ratio by (simp add: NewStateTransition_def Let_def case_prod_beta sample_env)
qed

lemma apply_plain:
  assumes new': "NewStateTransition te evm msg 1000000 = Ok st" and te: "te_ee te = sampleEE"
    and m: "msg_gasLimit msg = 100000" "msg_to msg = Some 7" "msg_from msg = 1" "msg_data msg = []"
    and q: "msg_checkNonce msg \<Longrightarrow> msg_queueOrigin msg = QueueOriginL1ToL2"
    and f: "gasFee te st = Ok due"
    and boba: "isBobaFeeTokenSelect st \<Longrightarrow> bobaFee 100000 st \<le> bobaOf sampleEnv sampleDb (st_state st) 1"
    and st: "st_l2ExtraGas st = 0" "evm_depth (st_evm st) = 0" "isFeeTokenUpdate st" "isGasUpdate st" "st_value st = 0"
  shows "\<exists>st1 st2 st3 used failed st'. preCheck te st = (Ok (), st1) \<and> payIntrinsic te st1 = Ok st2 \<and>
    execMessage te succeedingRun spare st2 = Ok (([], None), st3) \<and>
    slotOf (abst sampleEnv sampleDb (st_state st3)) = slotOf (abst sampleEnv sampleDb (st_state st2)) \<and>
    TransitionDb te succeedingRun spare st = (Ok ([], used, failed), st')"
proof -
  note new = NewStateTransition_Ok [OF new']
  let ?st1 = "\<lambda>s. withState (\<lambda>_. s) (st\<lparr>st_gp := 900000, st_gas := 100000, st_initialGas := 100000\<rparr>)"
  have ovm: "UsingOVM sampleEnv" by (simp add: sampleEnv_def)
  have "fst (GetBobaBalance sampleEnv sampleDb 1 (snd (GetBalance sampleEnv sampleDb 1 (st_state st)))) = bobaOf sampleEnv sampleDb (st_state st) 1"
    using bobaOf_same [OF abst_reads(1), of sampleEnv sampleDb 1 "st_state st"] by (simp add: bobaOf_def fun_eq_iff)
  then have "\<exists>s. preCheck te st = (Ok (), ?st1 s)"
    unfolding preCheck_def buyGas_def f res.case Let_def case_prod_beta using q boba
    by (cases "isBobaFeeTokenSelect st") (auto simp: new m ovm sample_env te st SubGas_def)
  then obtain s where s: "preCheck te st = (Ok (), ?st1 s)" by blast
  let ?st2 = "(?st1 s)\<lparr>st_gas := 79000\<rparr>"
  have p: "payIntrinsic te (?st1 s) = Ok ?st2"
    by (simp add: payIntrinsic_def IntrinsicGas_def useGas_def withState_def new m st big_Uint64_def TxGas_def)
  obtain nonce s1 where n: "GetNonce sampleEnv 1 s = (nonce, s1)" by fastforce
  let ?evm = "(st_evm st)\<lparr>evm_StateDB := StateDB.SetNonce sampleEnv 1 (nonce + 1) s1\<rparr>"
  obtain gas evm' where c: "Call sampleEE succeedingRun 1 7 [] spare 79000 0 ?evm = Ok (([], gas, None), evm')"
    "slotOf (abst sampleEnv sampleDb (evm_StateDB evm')) = slotOf (abst sampleEnv sampleDb (evm_StateDB ?evm))"
    using Call_plain_idle [of ?evm spare 79000] st(2) by auto
  let ?st3 = "?st2\<lparr>st_gas := gas, st_evm := evm'\<rparr>"
  have "\<not> IsBerlin sampleEE" by (simp add: sampleEE_def)
  then have x: "execMessage te succeedingRun spare ?st2 = Ok (([], None), ?st3)"
    using n c(1) by (simp add: execMessage_def te sample_env withState_def new m st)
  have "abst sampleEnv sampleDb s1 = abst sampleEnv sampleDb s" using arg_cong [OF n, of snd] by auto
  then have z: "slotOf (abst sampleEnv sampleDb (st_state ?st3)) = slotOf (abst sampleEnv sampleDb (st_state ?st2))"
    using c(2) slot_SetNonce [OF sample_ok(3), of sampleEnv 1 "nonce + 1" s1] by (simp add: withState_def)
  have "gas \<le> 79000" using execMessage_gas(1) [OF x] runnerOk_succeeding by (simp add: te)
  then have "gas \<le> 100000" by (rule order_trans) simp
  then obtain g where g: "g \<le> 100000" "refundGas te ?st3 =
      (if unat (900000 :: u64) + unat g < 2 ^ 64 then Ok (refundTo te g ?st3) else Panic ''gas pool pushed above uint64'')"
    using refundGas_eq [of ?st3 te] st(1) by (auto simp: withState_def big_Uint64_def)
  have "unat g \<le> 100000" using g(1) by (simp add: word_le_nat_alt)
  then have "settle te ?st3 = payFees te (refundTo te g ?st3)" using g(2) by (simp add: settle_def)
  moreover have "isGasUpdate (refundTo te g ?st3)" using st(4) by (simp add: refundTo_def withState_def)
  ultimately have "\<exists>st4. settle te ?st3 = Ok st4" by (simp add: payFees_def Let_def)
  then obtain st4 where "settle te ?st3 = Ok st4" by blast
  then have "TransitionDb te succeedingRun spare st = (Ok ([], gasUsed te st4, False), st4)"
    unfolding TransitionDb_def s p x prod.case res.case by simp
  then show ?thesis using s p x z by blast
qed

lemma sample_apply:
  assumes "slotOf (abst sampleEnv sampleDb s) L2GasPriceOracleAddress L2GasPriceSlot = 0"
    and "feeToken s = 1 \<Longrightarrow> 100000 * Big (slotOf (abst sampleEnv sampleDb s) 8 (BigToHash 5)) \<le> bobaOf sampleEnv sampleDb s 1"
  obtains st st1 st2 st3 used failed st' where "NewStateTransition sampleTe (sampleEvm s) sampleTxMsg 1000000 = Ok st"
    "TransitionDb sampleTe succeedingRun [] st = (Ok ([], used, failed), st')" "st_l2ExtraGas st = 0"
    "isBobaFeeTokenSelect st = (feeToken s = 1)" "bobaFee 100000 st = (if feeToken s = 1 then 100000 * Big (slotOf (abst sampleEnv sampleDb s) 8 (BigToHash 5)) else 0)"
    "preCheck sampleTe st = (Ok (), st1)" "payIntrinsic sampleTe st1 = Ok st2"
    "execMessage sampleTe succeedingRun [] st2 = Ok (([], None), st3)"
    "slotOf (abst sampleEnv sampleDb (st_state st3)) = slotOf (abst sampleEnv sampleDb (st_state st2))"
    "gasFee sampleTe st = Ok (if feeToken s = 1 then 0 else 100000)"
proof -
  obtain st where st: "NewStateTransition sampleTe (sampleEvm s) sampleTxMsg 1000000 = Ok st" "st_l2ExtraGas st = 0"
    "isBobaFeeTokenSelect st = (feeToken s = 1)" "st_l1Fee st = Some 0" "evm_depth (st_evm st) = 0" "isFeeTokenUpdate st"
    "isGasUpdate st" "st_value st = 0" "feeToken s = 1 \<longrightarrow> bobaPriceRatio st = Big (slotOf (abst sampleEnv sampleDb s) 8 (BigToHash 5))"
    using sample_new [OF assms(1), of 1000000] by blast
  note new = NewStateTransition_Ok [OF st(1)]
  have m: "msg_gasLimit sampleTxMsg = 100000" "\<not> msg_checkNonce sampleTxMsg" "msg_to sampleTxMsg = Some 7"
    "msg_from sampleTxMsg = 1" "msg_data sampleTxMsg = []" "msg_gasPrice sampleTxMsg = 1"
    by (simp_all add: sampleTxMsg_def sampleMsg_def)
  have p: "st_gasPrice st = (if feeToken s = 1 then 0 else 1)" using new(1) st(3) by (auto simp: stOk_def new m)
  have r: "\<not> feeToken s = 1 \<Longrightarrow> bobaPriceRatio st = 0" using new(1) st(3) by (auto simp: stOk_def)
  have f: "gasFee sampleTe st = Ok (if feeToken s = 1 then 0 else 100000)" by (simp add: gasFee_def st p new m Let_def)
  have fee: "bobaFee 100000 st = (if feeToken s = 1 then 100000 * Big (slotOf (abst sampleEnv sampleDb s) 8 (BigToHash 5)) else 0)"
    using st(9) r by (simp add: bobaFee_def new m)
  have "bobaOf sampleEnv sampleDb (st_state st) = bobaOf sampleEnv sampleDb s"
    using bobaOf_same [OF new(2)] by (simp add: sample_env sampleEvm_def)
  then have "isBobaFeeTokenSelect st \<Longrightarrow> bobaFee 100000 st \<le> bobaOf sampleEnv sampleDb (st_state st) 1"
    using assms(2) st(3) fee by simp
  from apply_plain [OF st(1) sample_env(1) m(1,3-5) _ f this st(2,5-8), of "[]"] m(2) show thesis
    using that st(1-3) f fee by blast
qed

lemma sample_msg: "0 \<le> msg_gasPrice sampleTxMsg" "length (msg_data sampleTxMsg) < 2 ^ 50" "unat (msg_gasLimit sampleTxMsg) < 2 ^ 63"
  "msg_queueOrigin sampleTxMsg = QueueOriginSequencer" "msg_gasLimit sampleTxMsg = 100000" "msg_from sampleTxMsg = 1"
  "msg_gasPrice sampleTxMsg = 1"
  by (simp_all add: sampleTxMsg_def sampleMsg_def)

lemma sample_hyps: "twoTokens (te_env sampleTe) (te_db sampleTe)" "runnerOk (te_ee sampleTe) succeedingRun"
  using sample_two runnerOk_succeeding by (simp_all add: sample_env)

lemma sampleEvm_state [simp]: "evm_StateDB (sampleEvm s) = s"
  by (simp add: sampleEvm_def)

text \<open>The empty state, where the sender has nothing to pay with.\<close>

lemma sample_start: "slotOf (abst sampleEnv sampleDb (NewStateDB Map.empty)) L2GasPriceOracleAddress L2GasPriceSlot = 0"
  "feeToken (NewStateDB Map.empty) \<noteq> 1" "ethOf sampleEnv sampleDb (NewStateDB Map.empty) a = 0"
  "totalEth sampleTe (NewStateDB Map.empty) = 0"
  by (simp_all add: GetFeeTokenSelection_def case_prod_beta fst_GetState Big_def ethOf_slot sampleEnv_def totalEth_def sample_env)

lemma TransitionDb_eth_witness:
  "\<exists>st used failed st'. NewStateTransition sampleTe (sampleEvm (NewStateDB Map.empty)) sampleTxMsg 1000000 = Ok st \<and>
     TransitionDb sampleTe succeedingRun [] st = (Ok ([], used, failed), st') \<and> totalEth sampleTe (st_state st') = 100000"
proof -
  obtain st st1 st2 st3 used failed st' where a: "NewStateTransition sampleTe (sampleEvm (NewStateDB Map.empty)) sampleTxMsg 1000000 = Ok st"
    "TransitionDb sampleTe succeedingRun [] st = (Ok ([], used, failed), st')" "st_l2ExtraGas st = 0"
    and ph: "preCheck sampleTe st = (Ok (), st1)" "payIntrinsic sampleTe st1 = Ok st2"
    "execMessage sampleTe succeedingRun [] st2 = Ok (([], None), st3)"
    "slotOf (abst sampleEnv sampleDb (st_state st3)) = slotOf (abst sampleEnv sampleDb (st_state st2))"
    "gasFee sampleTe st = Ok 100000"
    using sample_start(2) by (auto intro: sample_apply [OF sample_start(1)])
  have "totalEth sampleTe (st_state st3) = totalEth sampleTe (st_state st2)"
    using ethOf_abst [OF _ ph(4)] by (simp add: totalEth_def sample_env sampleEnv_def)
  then show ?thesis
    using a ph TransitionDb_eth [OF a(1,2) sample_hyps sample_msg(1,2) _ sample_msg(3) disjI1 [OF sample_msg(4)]]
      sample_start(3,4) by (auto simp: sample_env)
qed

text \<open>A state in which the sender has BOBA and pays with it.\<close>

definition bobaState :: "int \<Rightarrow> StateDB" where
  "bobaState n = AddBobaBalance sampleEnv sampleDb 1 n (SetBobaPriceRatio sampleEnv sampleDb 2
     (SetBobaAsFeeToken sampleEnv sampleDb 1 (NewStateDB Map.empty)))"

lemma bobaState_slots:
  assumes "0 \<le> n" and "n < 2 ^ 256"
  shows "slotOf (abst sampleEnv sampleDb (bobaState n)) L2GasPriceOracleAddress L2GasPriceSlot = 0" "feeToken (bobaState n) = 1"
    "Big (slotOf (abst sampleEnv sampleDb (bobaState n)) 8 (BigToHash 5)) = 2"
    "bobaOf sampleEnv sampleDb (bobaState n) = (\<lambda>_. 0)(1 := n)" "totalBoba sampleTe (bobaState n) = n"
proof -
  have k: "GetFeeTokenSelectionKey sampleEnv 1 = 23" "OvmBobaGasPricOracle sampleEnv = 8" "OvmL2BobaToken sampleEnv = 9"
    using sample_mappingKey [of 7 1] by (simp_all add: GetFeeTokenSelectionKey_def sampleEnv_def)
  have b: "BigToHash 1 = 1" "BigToHash 2 = 2" "BigToHash 5 = 5" "Big 1 = 1" "Big 2 = 2" "Big 0 = 0" by (simp_all add: BigToHash_def Big_def)
  let ?s = "SetBobaPriceRatio sampleEnv sampleDb 2 (SetBobaAsFeeToken sampleEnv sampleDb 1 (NewStateDB Map.empty))"
  have z: "slotOf (abst sampleEnv sampleDb ?s) = (\<lambda>_ _. 0)(8 := (\<lambda>_. 0)(23 := 1, 5 := 2))"
    by (simp add: SetBobaPriceRatio_def SetBobaAsFeeToken_def slot_SetState [OF sample_ok(3)] k b fun_eq_iff)
  have o: "slotOf (abst sampleEnv sampleDb (bobaState n)) c = slotOf (abst sampleEnv sampleDb ?s) c" if "c \<noteq> 9" for c
    using that by (simp add: bobaState_def AddBobaBalance_def slot_updateSlot [OF sample_ok(3)] k)
  have "bobaOf sampleEnv sampleDb ?s = (\<lambda>_. 0)" by (intro ext) (simp add: bobaOf_slot z k b)
  then show bal: "bobaOf sampleEnv sampleDb (bobaState n) = (\<lambda>_. 0)(1 := n)"
    using assms by (simp add: bobaState_def boba.bal_add [OF sample_ok(2)])
  show "slotOf (abst sampleEnv sampleDb (bobaState n)) L2GasPriceOracleAddress L2GasPriceSlot = 0"
    by (simp add: o z L2GasPriceOracleAddress_def)
  show "feeToken (bobaState n) = 1"
    by (simp add: GetFeeTokenSelection_def case_prod_beta fst_GetState k o z b)
  show "Big (slotOf (abst sampleEnv sampleDb (bobaState n)) 8 (BigToHash 5)) = 2" by (simp add: o z b)
  show "totalBoba sampleTe (bobaState n) = n"
    unfolding totalBoba_def sample_env bal by (simp add: sum.remove [of UNIV 1])
qed

lemma TransitionDb_boba_witness:
  "\<exists>st st1 st2 used failed st'. NewStateTransition sampleTe (sampleEvm (bobaState 300000)) sampleTxMsg 1000000 = Ok st \<and>
     isBobaFeeTokenSelect st \<and> TransitionDb sampleTe succeedingRun [] st = (Ok ([], used, failed), st') \<and>
     preCheck sampleTe st = (Ok (), st1) \<and> payIntrinsic sampleTe st1 = Ok st2 \<and>
     totalBoba sampleTe (st_state st2) = 100000 \<and> totalBoba sampleTe (st_state st') = 300000"
proof -
  have n: "0 \<le> (300000 :: int)" "(300000 :: int) < 2 ^ 256" by simp_all
  note b = bobaState_slots [OF n]
  obtain st st1 st2 st3 used failed st' where a: "NewStateTransition sampleTe (sampleEvm (bobaState 300000)) sampleTxMsg 1000000 = Ok st"
    "TransitionDb sampleTe succeedingRun [] st = (Ok ([], used, failed), st')" "st_l2ExtraGas st = 0"
    "isBobaFeeTokenSelect st" "bobaFee 100000 st = 200000"
    and ph: "preCheck sampleTe st = (Ok (), st1)" "payIntrinsic sampleTe st1 = Ok st2"
    "execMessage sampleTe succeedingRun [] st2 = Ok (([], None), st3)"
    "slotOf (abst sampleEnv sampleDb (st_state st3)) = slotOf (abst sampleEnv sampleDb (st_state st2))"
    using b by (auto intro: sample_apply [OF b(1)])
  have t: "totalBoba sampleTe (st_state st3) = totalBoba sampleTe (st_state st2)"
    using ph(4) by (simp add: totalBoba_def bobaOf_slot sample_env)
  have "bobaPriceRatio st = 2" using a(5) NewStateTransition_Ok(3) [OF a(1)] by (simp add: bobaFee_def sample_msg)
  then show ?thesis
    using a ph b(5) t TransitionDb_boba [OF a(1,2) sample_hyps sample_msg(1,2) _ sample_msg(3)] by (auto simp: sample_msg(5,7))
qed

lemma TransitionDb_gas_witness:
  "\<exists>st used failed st'. NewStateTransition sampleTe (sampleEvm (NewStateDB Map.empty)) sampleTxMsg 1000000 = Ok st \<and>
     TransitionDb sampleTe succeedingRun [] st = (Ok ([], used, failed), st') \<and>
     uint (st_gp st') = 1000000 - uint used \<and> uint used \<le> 100000"
proof -
  obtain st used failed st' where a: "NewStateTransition sampleTe (sampleEvm (NewStateDB Map.empty)) sampleTxMsg 1000000 = Ok st"
    "TransitionDb sampleTe succeedingRun [] st = (Ok ([], used, failed), st')" "st_l2ExtraGas st = 0"
    using sample_start(2) by (auto intro: sample_apply [OF sample_start(1)])
  then show ?thesis
    using TransitionDb_gas [OF a(1,2) sample_hyps sample_msg(1,2) _ sample_msg(3)] by (auto simp: sample_msg(5) split: if_splits)
qed

lemma IntrinsicGas_spec_witness: "IntrinsicGas [0, 5] False True True = Ok 21020"
  using IntrinsicGas_spec [of "[0, 5]" False True True]
  by (auto simp: IntrinsicGas_def Let_def TxGas_def TxDataNonZeroGasEIP2028_def TxDataZeroGas_def split: res.splits if_splits)

lemma TransitionDb_wf_witness:
  "\<exists>st. NewStateTransition sampleTe (sampleEvm (NewStateDB Map.empty)) sampleTxMsg 1000000 = Ok st \<and> stOk st \<and>
     stOk (snd (TransitionDb sampleTe succeedingRun [] st))"
  using sample_new [OF sample_start(1)] TransitionDb_wf [of sampleTe "sampleEvm (NewStateDB Map.empty)" sampleTxMsg 1000000 _ succeedingRun "[]"]
  by blast

lemma preCheck_error_witness:
  "\<exists>st st1. NewStateTransition sampleTe (sampleEvm (bobaState 100)) sampleTxMsg 1000000 = Ok st \<and>
     preCheck sampleTe st = (Err errInsufficientBobaBalanceForGas, st1) \<and> st_gp st1 = 1000000 \<and>
     bobaOf sampleEnv sampleDb (st_state st) 1 < uint (msg_gasLimit sampleTxMsg) * msg_gasPrice sampleTxMsg * bobaPriceRatio st"
proof -
  have n: "0 \<le> (100 :: int)" "(100 :: int) < 2 ^ 256" by simp_all
  note b = bobaState_slots [OF n]
  obtain st where st: "NewStateTransition sampleTe (sampleEvm (bobaState 100)) sampleTxMsg 1000000 = Ok st"
    "isBobaFeeTokenSelect st" "st_l1Fee st = Some 0" "isFeeTokenUpdate st" "bobaPriceRatio st = 2"
    using sample_new [OF b(1), of 1000000] b(2,3) by auto
  note new = NewStateTransition_Ok [OF st(1)]
  have m: "UsingOVM sampleEnv" "\<not> msg_checkNonce sampleTxMsg" by (simp_all add: sampleTxMsg_def sampleMsg_def sampleEnv_def)
  have bal: "bobaOf sampleEnv sampleDb (st_state st) 1 = 100"
    using bobaOf_same [OF new(2)] b(4) by (simp add: sample_env)
  then have r: "fst (GetBobaBalance sampleEnv sampleDb 1 (snd (GetBalance sampleEnv sampleDb 1 (st_state st)))) = 100"
    using bobaOf_same [OF abst_reads(1), of sampleEnv sampleDb 1 "st_state st"] by (simp add: bobaOf_def fun_eq_iff)
  have "\<exists>due. gasFee sampleTe st = Ok due" using st(3) by (simp add: gasFee_def Let_def)
  then obtain due where f: "gasFee sampleTe st = Ok due" by blast
  have "bobaFee 100000 st = 200000" by (simp add: bobaFee_def new sample_msg st)
  then have "\<exists>st1. preCheck sampleTe st = (Err errInsufficientBobaBalanceForGas, st1)"
    unfolding preCheck_def buyGas_def f res.case Let_def case_prod_beta
    using r m by (simp add: new sample_msg sample_env st)
  then obtain st1 where p: "preCheck sampleTe st = (Err errInsufficientBobaBalanceForGas, st1)" by blast
  have d: "errInsufficientBobaBalanceForGas \<noteq> ErrNonceTooHigh" "errInsufficientBobaBalanceForGas \<noteq> ErrNonceTooLow"
    "errInsufficientBobaBalanceForGas \<noteq> ErrGasLimitReached" "errInsufficientBobaBalanceForGas \<noteq> errInsufficientBalanceForGas"
    by (simp_all add: errInsufficientBobaBalanceForGas_def ErrNonceTooHigh_def ErrNonceTooLow_def ErrGasLimitReached_def
        errInsufficientBalanceForGas_def)
  show ?thesis
    using st(1) p preCheck_error [OF p] new d by (auto simp: Let_def sample_env sample_msg)
qed

end
