(* ===== verification/Bloom.thy ===== *)
theory Bloom
  imports StateDB
begin

unbundle bit_operations_syntax

text \<open>
  The bloom filter of receipts: \<open>l2geth/core/types/bloom9.go\<close>. A filter is an array of 256 bytes that is
  read and written as a big-endian integer of 2048 bits.
\<close>

section \<open>The filter\<close>

type_synonym bloom = bytes

definition BloomByteLength :: nat where "BloomByteLength = 256"
definition BloomBitLength :: nat where "BloomBitLength = 8 * BloomByteLength"

definition emptyBloom :: bloom where
  "emptyBloom = replicate BloomByteLength 0"

definition bloom_SetBytes :: "bytes \<Rightarrow> bloom \<Rightarrow> bloom res" where
  "bloom_SetBytes d b =
     (if length b < length d then Panic ''bloom bytes too big''
      else Ok (take (BloomByteLength - length d) b @ d))"

definition BytesToBloom :: "bytes \<Rightarrow> bloom res" where
  "BytesToBloom d = bloom_SetBytes d emptyBloom"

definition bloomIndex :: "bytes \<Rightarrow> nat \<Rightarrow> nat" where
  "bloomIndex h i = (unat (h ! (i + 1)) + push_bit 8 (unat (h ! i))) AND 2047"

definition bloom9 :: "RollupEnv \<Rightarrow> bytes \<Rightarrow> nat" where
  "bloom9 env b =
     (let h = be_bytes 32 (unat (keccak env b))
      in foldl (\<lambda>r i. r OR push_bit (bloomIndex h i) 1) 0 [0, 2, 4])"

definition bloom_Add :: "RollupEnv \<Rightarrow> nat \<Rightarrow> bloom \<Rightarrow> bloom res" where
  "bloom_Add env d b = bloom_SetBytes (min_be (be_val b OR bloom9 env (min_be d))) b"

definition bloom_Big :: "bloom \<Rightarrow> nat" where
  "bloom_Big b = be_val b"

definition BloomLookup :: "RollupEnv \<Rightarrow> bloom \<Rightarrow> bytes \<Rightarrow> bool" where
  "BloomLookup env bin topic = (let cmp = bloom9 env topic in bloom_Big bin AND cmp = cmp)"

definition bloom_Test :: "RollupEnv \<Rightarrow> bloom \<Rightarrow> nat \<Rightarrow> bool" where
  "bloom_Test env b test = BloomLookup env b (min_be test)"

definition bloom_TestBytes :: "RollupEnv \<Rightarrow> bloom \<Rightarrow> bytes \<Rightarrow> bool" where
  "bloom_TestBytes env b test = bloom_Test env b (be_val test)"

definition logTopics :: "Log \<Rightarrow> bytes list" where
  "logTopics l = be_bytes 20 (unat (log_Address l)) # map (\<lambda>t. be_bytes 32 (unat t)) (log_Topics l)"

definition LogsBloom :: "RollupEnv \<Rightarrow> Log list \<Rightarrow> nat" where
  "LogsBloom env logs = foldl (\<lambda>bin l. foldl (\<lambda>bin b. bin OR bloom9 env b) bin (logTopics l)) 0 logs"

text \<open>\<open>CreateBloom\<close>, for the logs of each receipt\<close>

definition CreateBloom :: "RollupEnv \<Rightarrow> Log list list \<Rightarrow> bloom res" where
  "CreateBloom env receipts =
     BytesToBloom (min_be (foldl (\<lambda>bin logs. bin OR LogsBloom env logs) 0 receipts))"

section \<open>Sets of bits\<close>

text \<open>All three folds are unions of the bits of single items.\<close>

definition within :: "nat \<Rightarrow> nat \<Rightarrow> bool" where
  "within a b \<longleftrightarrow> b AND a = a"

lemma within_iff: "within a b \<longleftrightarrow> (\<forall>n. bit a n \<longrightarrow> bit b n)"
  by (auto simp: within_def bit_eq_iff bit_and_iff)

lemma within_trans: "within a b \<Longrightarrow> within b c \<Longrightarrow> within a c"
  by (simp add: within_iff)

lemma within_foldl_init: "within a (foldl (\<lambda>bin x. bin OR f x) a xs)"
proof (induction xs arbitrary: a)
  case (Cons x xs)
  have "within a (a OR f x)" by (simp add: within_iff bit_or_iff)
  with Cons [of "a OR f x"] show ?case by (auto intro: within_trans)
qed (simp add: within_iff)

lemma within_foldl: "x \<in> set xs \<Longrightarrow> within (f x) (foldl (\<lambda>bin x. bin OR f x) a xs)"
proof (induction xs arbitrary: a)
  case (Cons y xs)
  show ?case
  proof (cases "x = y")
    case True
    have "within (f x) (a OR f x)" by (simp add: within_iff bit_or_iff)
    with True within_foldl_init [of "a OR f x" f xs] show ?thesis by (auto intro: within_trans)
  qed (use Cons in auto)
qed simp

lemma or_less: "a < 2 ^ n \<Longrightarrow> b < 2 ^ n \<Longrightarrow> a OR b < (2 :: nat) ^ n"
  by (simp add: take_bit_nat_eq_self_iff [symmetric])

lemma foldl_or_less: "a < 2 ^ n \<Longrightarrow> (\<And>x. f x < 2 ^ n) \<Longrightarrow> foldl (\<lambda>bin x. bin OR f x) a xs < (2 :: nat) ^ n"
  by (induction xs arbitrary: a) (simp_all add: or_less)

lemma bloomIndex_less: "bloomIndex h i < 2048"
proof -
  have m: "(2047 :: nat) = mask 11" by (simp add: mask_eq_exp_minus_1)
  have "x AND 2047 = take_bit 11 x" for x :: nat by (simp only: m take_bit_eq_mask)
  then show ?thesis using take_bit_nat_less_exp [of 11] by (simp add: bloomIndex_def)
qed

lemma bloom9_less: "bloom9 env b < 2 ^ 2048"
  unfolding bloom9_def Let_def
proof (rule foldl_or_less)
  show "push_bit (bloomIndex (be_bytes 32 (unat (keccak env b))) i) 1 < (2 :: nat) ^ 2048" for i
    unfolding push_bit_eq_mult mult_1 by (rule power_strict_increasing [OF bloomIndex_less]) simp
qed simp

lemma LogsBloom_fold: "LogsBloom env logs = foldl (\<lambda>bin b. bin OR bloom9 env b) 0 (concat (map logTopics logs))"
proof -
  have "foldl (\<lambda>bin l. foldl (\<lambda>bin b. bin OR bloom9 env b) bin (logTopics l)) a logs =
      foldl (\<lambda>bin b. bin OR bloom9 env b) a (concat (map logTopics logs))" for a
    by (induction logs arbitrary: a) simp_all
  then show ?thesis by (simp add: LogsBloom_def)
qed

lemma LogsBloom_less: "LogsBloom env logs < 2 ^ 2048"
  unfolding LogsBloom_fold by (rule foldl_or_less [OF _ bloom9_less]) simp

lemma BloomLookup_within: "BloomLookup env b t \<longleftrightarrow> within (bloom9 env t) (bloom_Big b)"
  by (simp add: BloomLookup_def within_def Let_def)

section \<open>Writing an integer into a filter\<close>

lemma be_val_replicate_0 [simp]: "be_val (replicate n 0) = 0"
  by (induction n) (simp_all add: be_val_Cons)

lemma SetBytes_min_be:
  assumes "n < 2 ^ 2048" and "length b = BloomByteLength" and "be_val b \<le> n"
  shows "\<exists>b'. bloom_SetBytes (min_be n) b = Ok b' \<and> length b' = BloomByteLength \<and> be_val b' = n"
proof -
  let ?l = "length (min_be n)"
  have l: "?l \<le> 256" using assms(1) by (intro length_min_be) simp
  have "be_val b = be_val (take (256 - ?l) b) * 256 ^ ?l + be_val (drop (256 - ?l) b)"
    using be_val_append [of "take (256 - ?l) b" "drop (256 - ?l) b"] assms(2) l by (simp add: BloomByteLength_def)
  moreover have "n < 256 ^ ?l" using be_val_less [of "min_be n"] by (simp add: be_val_min_be)
  ultimately have z: "be_val (take (256 - ?l) b) = 0"
    using assms(3) by (cases "be_val (take (256 - ?l) b)") auto
  have "be_val (take (256 - ?l) b @ min_be n) = n" by (simp add: be_val_append z be_val_min_be)
  then show ?thesis using assms(2) l by (simp add: bloom_SetBytes_def BloomByteLength_def)
qed

lemma within_le: "within a b \<Longrightarrow> a \<le> b"
proof -
  have "int (b AND a) \<le> int b" unfolding of_nat_and_eq by (rule AND_upper1) simp
  then show "within a b \<Longrightarrow> a \<le> b" by (simp add: within_def)
qed

lemma CreateBloom_Ok:
  "\<exists>bloom. CreateBloom env receipts = Ok bloom \<and> length bloom = 256 \<and>
     bloom_Big bloom = foldl (\<lambda>bin logs. bin OR LogsBloom env logs) 0 receipts"
proof -
  let ?n = "foldl (\<lambda>bin logs. bin OR LogsBloom env logs) 0 receipts"
  have "?n < 2 ^ 2048" by (rule foldl_or_less [OF _ LogsBloom_less]) simp
  then show ?thesis
    using SetBytes_min_be [of ?n emptyBloom]
    by (auto simp: CreateBloom_def BytesToBloom_def emptyBloom_def bloom_Big_def BloomByteLength_def)
qed

section \<open>Properties\<close>

text \<open>
  C38: the filter of a list of receipts has no false negatives: every address and every topic of every
  log is found, and creating the filter never panics.
\<close>

theorem CreateBloom_complete:
  "\<exists>bloom. CreateBloom env receipts = Ok bloom \<and> length bloom = 256 \<and>
     (\<forall>logs \<in> set receipts. \<forall>l \<in> set logs. BloomLookup env bloom (be_bytes 20 (unat (log_Address l))) \<and>
        (\<forall>t \<in> set (log_Topics l). BloomLookup env bloom (be_bytes 32 (unat t))))"
proof -
  let ?n = "foldl (\<lambda>bin logs. bin OR LogsBloom env logs) 0 receipts"
  obtain bloom where b: "CreateBloom env receipts = Ok bloom" "length bloom = 256" "bloom_Big bloom = ?n"
    using CreateBloom_Ok [of env receipts] by blast
  have "BloomLookup env bloom t" if "logs \<in> set receipts" "l \<in> set logs" "t \<in> set (logTopics l)" for logs l t
  proof -
    have "within (bloom9 env t) (LogsBloom env logs)"
      unfolding LogsBloom_fold by (rule within_foldl) (use that(2,3) in auto)
    moreover have "within (LogsBloom env logs) ?n" by (rule within_foldl [OF that(1)])
    ultimately show ?thesis unfolding BloomLookup_within b(3) by (rule within_trans)
  qed
  then show ?thesis using b(1,2) by (auto simp: logTopics_def)
qed

definition witnessEnv :: RollupEnv where
  "witnessEnv = \<lparr>UsingOVM = True, OvmTuringCreditAddress = 7, OvmBobaGasPricOracle = 8, OvmL2BobaToken = 9,
     keccak = (\<lambda>bs. of_nat (be_val bs))\<rparr>"

lemma CreateBloom_complete_witness:
  "\<exists>bloom. CreateBloom witnessEnv [[\<lparr>log_Address = 5, log_Topics = [6, 7], log_Data = [], log_TxHash = 0, log_BlockHash = 0,
       log_TxIndex = 0, log_Index = 0\<rparr>]] = Ok bloom \<and>
     BloomLookup witnessEnv bloom (be_bytes 20 5) \<and> BloomLookup witnessEnv bloom (be_bytes 32 7)"
  using CreateBloom_complete [of witnessEnv "[[\<lparr>log_Address = 5, log_Topics = [6, 7], log_Data = [], log_TxHash = 0,
    log_BlockHash = 0, log_TxIndex = 0, log_Index = 0\<rparr>]]"] by auto

text \<open>
  an item that was added to a filter is found, and adding it loses no item that was found before.
\<close>

theorem bloom_Add_Test:
  assumes "length b = 256"
  shows "\<exists>b'. bloom_Add env d b = Ok b' \<and> length b' = 256 \<and> bloom_Test env b' d \<and>
    (\<forall>e. bloom_Test env b e \<longrightarrow> bloom_Test env b' e)"
proof -
  let ?n = "be_val b OR bloom9 env (min_be d)"
  have "be_val b < 2 ^ 2048" using be_val_less [of b] assms by simp
  then have n: "?n < 2 ^ 2048" by (rule or_less [OF _ bloom9_less])
  have w: "within (be_val b) ?n" "within (bloom9 env (min_be d)) ?n" by (simp_all add: within_iff bit_or_iff)
  obtain b' where b': "bloom_Add env d b = Ok b'" "length b' = 256" "bloom_Big b' = ?n"
    using SetBytes_min_be [OF n _ within_le [OF w(1)]] assms
    by (auto simp: bloom_Add_def bloom_Big_def BloomByteLength_def)
  have "bloom_Test env b' e" if "bloom_Test env b e" for e
    using that w(1) within_trans unfolding bloom_Test_def BloomLookup_within b'(3) by (auto simp: bloom_Big_def)
  moreover have "bloom_Test env b' d" using w(2) unfolding bloom_Test_def BloomLookup_within b'(3) .
  ultimately show ?thesis using b'(1,2) by blast
qed

lemma bloom_Add_Test_witness:
  "\<exists>b. bloom_Add witnessEnv 5 emptyBloom = Ok b \<and> bloom_Test witnessEnv b 5"
  using bloom_Add_Test [of emptyBloom witnessEnv 5] by (auto simp: emptyBloom_def BloomByteLength_def)

end
