(* ===== verification/StateProcessor.thy ===== *)
theory StateProcessor
  imports StateTransition_Fees Bloom
begin

text \<open>
  Applying the transactions of a block: \<open>l2geth/core/state_processor.go\<close>, the execution context of
  \<open>l2geth/core/evm.go\<close> and the constructors of the virtual machine and of receipts. The chain rules at a
  block, recovery of the sender, the transaction hash, the author of a header, the root of a state
  before Byzantium and what the consensus engine does at the end of a block are parameters.
\<close>

section \<open>Context\<close>

definition OvmFeeWallet :: addr where
  "OvmFeeWallet = 0x4200000000000000000000000000000000000011"

record Header =
  hd_Number :: int
  hd_GasLimit :: u64
  hd_Time :: u64
  hd_Difficulty :: int

record Context =
  ctx_Origin :: addr
  ctx_Coinbase :: addr
  ctx_BlockNum :: int
  ctx_Time :: int
  ctx_Difficulty :: int
  ctx_GasLimit :: u64
  ctx_GasPrice :: int
  ctx_L1BlockNumber :: "int option"
  ctx_Turing :: "bytes option"
  ctx_TuringDepth :: int
  ctx_Sequencer :: bool

definition lenOf :: "bytes option \<Rightarrow> nat" where
  "lenOf b = (case b of None \<Rightarrow> 0 | Some x \<Rightarrow> length x)"

text \<open>A message that carries Turing data was executed before, by the sequencer.\<close>

definition NewEVMContext :: "RollupEnv \<Rightarrow> Message \<Rightarrow> Header \<Rightarrow> addr \<Rightarrow> Context" where
  "NewEVMContext env msg header beneficiary =
     (if UsingOVM env then
        let replica = (1 < lenOf (msg_l1Turing msg)) in
        \<lparr>ctx_Origin = msg_from msg, ctx_Coinbase = OvmFeeWallet, ctx_BlockNum = hd_Number header,
         ctx_Time = uint (msg_l1Timestamp msg), ctx_Difficulty = 0, ctx_GasLimit = hd_GasLimit header,
         ctx_GasPrice = msg_gasPrice msg, ctx_L1BlockNumber = msg_l1BlockNumber msg, ctx_Turing = msg_l1Turing msg,
         ctx_TuringDepth = if replica then 1 else 0, ctx_Sequencer = \<not> replica\<rparr>
      else
        \<lparr>ctx_Origin = msg_from msg, ctx_Coinbase = beneficiary, ctx_BlockNum = hd_Number header,
         ctx_Time = uint (hd_Time header), ctx_Difficulty = hd_Difficulty header, ctx_GasLimit = hd_GasLimit header,
         ctx_GasPrice = msg_gasPrice msg, ctx_L1BlockNumber = None, ctx_Turing = None, ctx_TuringDepth = 0,
         ctx_Sequencer = False\<rparr>)"

text \<open>\<open>ch_te\<close> has the rules of the chain at a block and the parameters of execution.\<close>

record Chain =
  ch_te :: "int \<Rightarrow> TxEnv"
  ch_run :: "EvmEnv \<Rightarrow> runner"
  ch_spare :: "Transaction \<Rightarrow> bytes"
  ch_IsEWASM :: "int \<Rightarrow> bool"
  ch_IsByzantium :: "int \<Rightarrow> bool"
  ch_sender :: "int \<Rightarrow> Transaction \<Rightarrow> addr res"
  ch_txHash :: "Transaction \<Rightarrow> hash"
  ch_author :: "Header \<Rightarrow> addr"
  ch_intermediateRoot :: "StateDB \<Rightarrow> bytes \<times> StateDB"

text \<open>The Turing cache and the count of requests belong to the process and outlive the machine.\<close>

definition NewEVM :: "Chain \<Rightarrow> Context \<Rightarrow> StateDB \<Rightarrow> turingCache \<Rightarrow> nat \<Rightarrow> (TxEnv \<times> EVM) res" where
  "NewEVM chain ctx s cache world =
     (let te = ch_te chain (ctx_BlockNum ctx) in
      if ch_IsEWASM chain (ctx_BlockNum ctx) then Panic ''No supported ewasm interpreter yet.''
      else
        Ok (te\<lparr>te_ee := (te_ee te)\<lparr>Origin := ctx_Origin ctx, GasPrice := ctx_GasPrice ctx, Sequencer := ctx_Sequencer ctx\<rparr>,
               Coinbase := ctx_Coinbase ctx, BlockNumber := ctx_BlockNum ctx\<rparr>,
            \<lparr>evm_StateDB = s, evm_depth = 0, evm_Turing = (case ctx_Turing ctx of None \<Rightarrow> [] | Some t \<Rightarrow> t),
             evm_TuringDepth = ctx_TuringDepth ctx, evm_cache = cache, evm_world = world\<rparr>))"

section \<open>Receipts\<close>

record Receipt =
  rc_PostState :: bytes
  rc_Status :: u64
  rc_CumulativeGasUsed :: u64
  rc_Bloom :: bloom
  rc_Logs :: "Log list"
  rc_TxHash :: hash
  rc_ContractAddress :: addr
  rc_GasUsed :: u64
  rc_BlockHash :: hash
  rc_BlockNumber :: int
  rc_TransactionIndex :: u64
  rc_L1GasPrice :: int
  rc_L1GasUsed :: int
  rc_L1Fee :: int
  rc_FeeScalar :: rat
  rc_L2BobaFee :: int
  rc_Turing :: bytes

definition ReceiptStatusFailed :: u64 where "ReceiptStatusFailed = 0"
definition ReceiptStatusSuccessful :: u64 where "ReceiptStatusSuccessful = 1"

definition NewReceipt :: "bytes \<Rightarrow> bool \<Rightarrow> u64 \<Rightarrow> Receipt" where
  "NewReceipt postState failed cumulativeGasUsed =
     \<lparr>rc_PostState = postState, rc_Status = if failed then ReceiptStatusFailed else ReceiptStatusSuccessful,
      rc_CumulativeGasUsed = cumulativeGasUsed, rc_Bloom = emptyBloom, rc_Logs = [], rc_TxHash = 0,
      rc_ContractAddress = 0, rc_GasUsed = 0, rc_BlockHash = 0, rc_BlockNumber = 0, rc_TransactionIndex = 0,
      rc_L1GasPrice = 0, rc_L1GasUsed = 0, rc_L1Fee = 0, rc_FeeScalar = 0, rc_L2BobaFee = 0, rc_Turing = []\<rparr>"

section \<open>Transactions\<close>

text \<open>What a block threads through its transactions.\<close>

record ProcState =
  ps_gp :: u64
  ps_usedGas :: u64
  ps_state :: StateDB
  ps_cache :: turingCache
  ps_world :: nat

definition bobaFeeOf :: "TxEnv \<Rightarrow> int \<Rightarrow> u64 \<Rightarrow> Message \<Rightarrow> StateDB \<Rightarrow> int \<times> StateDB" where
  "bobaFeeOf te selection gas msg s =
     (if selection = 1 then
        case GetBobaPriceRatio (te_env te) (te_db te) s of
          (ratio, s') \<Rightarrow> (sint gas * (msg_gasPrice msg * ratio), s')
      else (0, s))"

definition finishTransaction :: "Chain \<Rightarrow> Header \<Rightarrow> StateDB \<Rightarrow> bytes \<times> StateDB" where
  "finishTransaction chain header s =
     (if ch_IsByzantium chain (hd_Number header)
      then ([], Finalise (te_env (ch_te chain (hd_Number header))) True s)
      else ch_intermediateRoot chain s)"

definition l1GasInfo :: "TxEnv \<Rightarrow> Message \<Rightarrow> int \<Rightarrow> StateDB \<Rightarrow> (int \<times> int \<times> int \<times> rat) res \<times> StateDB" where
  "l1GasInfo te msg number s =
     (if IsFeeTokenUpdate (ChainID te) (Some number)
      then DeriveL1GasDataInfo (te_env te) (te_db te) (te_conv te) msg s
      else DeriveL1GasInfo (te_env te) (te_db te) (te_conv te) msg s)"

text \<open>What is known before the message is applied: the fee data for the receipt and the fee token.\<close>

record TxStart =
  ts_msg :: Message
  ts_te :: TxEnv
  ts_evm :: EVM
  ts_l1Fee :: int
  ts_l1GasPrice :: int
  ts_l1GasUsed :: int
  ts_scalar :: rat
  ts_selection :: int

definition startTransaction ::
    "Chain \<Rightarrow> addr option \<Rightarrow> Header \<Rightarrow> Transaction \<Rightarrow> ProcState \<Rightarrow> TxStart res" where
  "startTransaction chain author header tx ps =
     (let env = te_env (ch_te chain (hd_Number header)) in
      res_bind (AsMessage (UsingOVM env) (ch_sender chain (hd_Number header)) tx) (\<lambda>msg.
        let ctx = NewEVMContext env msg header (case author of None \<Rightarrow> ch_author chain header | Some a \<Rightarrow> a) in
        res_bind (NewEVM chain ctx (ps_state ps) (ps_cache ps) (ps_world ps)) (\<lambda>(te, evm).
          case l1GasInfo te msg (hd_Number header) (evm_StateDB evm) of
            (info, s) \<Rightarrow>
              res_map (\<lambda>(l1Fee, l1GasPrice, l1GasUsed, scalar).
                  case GetFeeTokenSelection (te_env te) (te_db te) (msg_from msg) s of
                    (selection, s1) \<Rightarrow>
                      \<lparr>ts_msg = msg, ts_te = te, ts_evm = evm\<lparr>evm_StateDB := s1\<rparr>, ts_l1Fee = l1Fee,
                       ts_l1GasPrice = l1GasPrice, ts_l1GasUsed = l1GasUsed, ts_scalar = scalar,
                       ts_selection = selection\<rparr>)
                info)))"

text \<open>
  The transaction is returned too, since the Turing data of its execution are stored with it. On an
  error the caller drops the state.
\<close>

definition makeReceipt ::
    "Chain \<Rightarrow> Header \<Rightarrow> Transaction \<Rightarrow> TxStart \<Rightarrow> bytes \<Rightarrow> u64 \<Rightarrow> bool \<Rightarrow> u64 \<Rightarrow> bytes \<Rightarrow> int \<Rightarrow> StateDB \<Rightarrow> Receipt res" where
  "makeReceipt chain header tx t postState gas failed usedGas turing L2BobaFee s =
     (let logs = GetLogs (ch_txHash chain tx) s; msg = ts_msg t; te = ts_te t in
      res_map (\<lambda>bloom.
          (NewReceipt postState failed usedGas)
            \<lparr>rc_L1GasPrice := ts_l1GasPrice t, rc_L1GasUsed := ts_l1GasUsed t, rc_L1Fee := ts_l1Fee t,
             rc_FeeScalar := ts_scalar t, rc_TxHash := ch_txHash chain tx, rc_GasUsed := gas,
             rc_ContractAddress := (if msg_to msg = None
               then CreateAddress (te_env te) (Origin (te_ee te)) (AccountNonce (tx_data tx)) else 0),
             rc_Logs := logs, rc_Bloom := bloom, rc_BlockHash := bhash s, rc_BlockNumber := hd_Number header,
             rc_TransactionIndex := txIndex s, rc_Turing := turing, rc_L2BobaFee := L2BobaFee\<rparr>)
        (CreateBloom (te_env te) [logs]))"

definition ApplyTransaction ::
    "Chain \<Rightarrow> addr option \<Rightarrow> Header \<Rightarrow> Transaction \<Rightarrow> ProcState \<Rightarrow> (Receipt \<times> Transaction \<times> ProcState) res" where
  "ApplyTransaction chain author header tx ps =
     res_bind (startTransaction chain author header tx ps) (\<lambda>t.
       res_bind (ApplyMessage (ts_te t) (ch_run chain (te_ee (ts_te t))) (ch_spare chain tx) (ts_evm t) (ts_msg t) (ps_gp ps))
         (\<lambda>(result, st).
           let turing = evm_Turing (st_evm st);
               tx' = (if 1 < length turing then SetL1Turing (Some turing) tx else tx)
           in res_bind result (\<lambda>(_, gas, failed).
             let (L2BobaFee, s2) = bobaFeeOf (ts_te t) (ts_selection t) gas (ts_msg t) (st_state st);
                 (postState, s3) = finishTransaction chain header s2;
                 usedGas = ps_usedGas ps + gas
             in res_map (\<lambda>receipt.
                  (receipt, tx', \<lparr>ps_gp = st_gp st, ps_usedGas = usedGas, ps_state = s3, ps_cache = evm_cache (st_evm st),
                     ps_world = evm_world (st_evm st)\<rparr>))
                (makeReceipt chain header tx' t postState gas failed usedGas turing L2BobaFee s3))))"

section \<open>Blocks\<close>

text \<open>\<open>hardFork\<close> is the change of the state at the block of a hard fork, \<open>finalize\<close> the consensus engine.\<close>

fun processTxs ::
    "Chain \<Rightarrow> Header \<Rightarrow> hash \<Rightarrow> nat \<Rightarrow> Transaction list \<Rightarrow> ProcState \<Rightarrow> (Receipt list \<times> Log list \<times> ProcState) res" where
  "processTxs chain header blockHash i [] ps = Ok ([], [], ps)"
| "processTxs chain header blockHash i (tx # txs) ps =
     res_bind (ApplyTransaction chain None header tx
         (ps\<lparr>ps_state := Prepare (ch_txHash chain tx) blockHash (of_nat i) (ps_state ps)\<rparr>)) (\<lambda>(receipt, _, ps').
       res_map (\<lambda>(receipts, logs, ps''). (receipt # receipts, rc_Logs receipt @ logs, ps''))
         (processTxs chain header blockHash (i + 1) txs ps'))"

definition Process ::
    "Chain \<Rightarrow> (StateDB \<Rightarrow> StateDB) \<Rightarrow> (StateDB \<Rightarrow> StateDB) \<Rightarrow> Header \<Rightarrow> hash \<Rightarrow> Transaction list \<Rightarrow> StateDB \<Rightarrow>
     turingCache \<Rightarrow> nat \<Rightarrow> (Receipt list \<times> Log list \<times> u64 \<times> StateDB) res" where
  "Process chain hardFork finalize header blockHash txs statedb cache world =
     res_bind (AddGas (hd_GasLimit header) 0) (\<lambda>gp.
       res_map (\<lambda>(receipts, logs, ps). (receipts, logs, ps_usedGas ps, finalize (ps_state ps)))
         (processTxs chain header blockHash 0 txs
            \<lparr>ps_gp = gp, ps_usedGas = 0, ps_state = hardFork statedb, ps_cache = cache, ps_world = world\<rparr>))"

section \<open>The gas of a block\<close>

lemma New_isFeeTokenUpdate:
  "NewStateTransition te evm msg gp = Ok st \<Longrightarrow> isFeeTokenUpdate st = IsFeeTokenUpdate (ChainID te) (Some (BlockNumber te))"
  by (auto simp: NewStateTransition_def Let_def res_map_eq_Ok case_prod_beta)

lemma ApplyMessage_pool:
  assumes "ApplyMessage te run spare evm msg gp = Ok (Ok (ret, used, failed), st')"
    and "twoTokens (te_env te) (te_db te)" and "runnerOk (te_ee te) run" and "0 \<le> msg_gasPrice msg"
    and "length (msg_data msg) < 2 ^ 50" and "unat (msg_gasLimit msg) < 2 ^ 63"
    and "IsFeeTokenUpdate (ChainID te) (Some (BlockNumber te))"
    and "\<And>st. NewStateTransition te evm msg gp = Ok st \<Longrightarrow> st_l2ExtraGas st < 2 ^ 63"
  shows "unat (st_gp st') + unat used = unat gp"
proof -
  obtain st where st: "NewStateTransition te evm msg gp = Ok st" "TransitionDb te run spare st = (Ok (ret, used, failed), st')"
    using assms(1) by (auto simp: ApplyMessage_def res_map_eq_Ok)
  have x: "\<not> extraOnTop te st" using New_isFeeTokenUpdate [OF st(1)] assms(7) by (simp add: extraOnTop_def)
  obtain g :: u64 where g: "g \<le> msg_gasLimit msg" "msg_gasLimit msg \<le> gp"
    "unat (st_gp st') = unat gp - unat (msg_gasLimit msg) + unat g"
    "uint used = uint (msg_gasLimit msg) - uint g + (if extraOnTop te st then st_l2ExtraGas st else 0)"
    by (rule TransitionDb_shares [OF st assms(2-5) assms(8) [OF st(1)] assms(6)]) (rule that, assumption+)
  have "int (unat used) = int (unat (msg_gasLimit msg)) - int (unat g)" using g(4) x by simp
  then show ?thesis using g(1-3) unfolding word_le_nat_alt by linarith
qed

lemma startTransaction_Ok:
  assumes "startTransaction chain author header tx ps = Ok t"
  shows "te_env (ts_te t) = te_env (ch_te chain (hd_Number header))" "te_db (ts_te t) = te_db (ch_te chain (hd_Number header))"
    "ChainID (ts_te t) = ChainID (ch_te chain (hd_Number header))" "BlockNumber (ts_te t) = hd_Number header"
    "msg_gasPrice (ts_msg t) = Price (tx_data tx)" "msg_data (ts_msg t) = Payload (tx_data tx)"
    "msg_gasLimit (ts_msg t) = GasLimit (tx_data tx)"
  using assms
  by (auto simp: startTransaction_def Let_def res_bind_eq_Ok res_map_eq_Ok NewEVM_def NewEVMContext_def AsMessage_def
      case_prod_beta split: if_splits)

lemma ApplyTransaction_Ok:
  assumes "ApplyTransaction chain author header tx ps = Ok (receipt, tx', ps')"
  obtains t ret failed st where "startTransaction chain author header tx ps = Ok t"
    "ApplyMessage (ts_te t) (ch_run chain (te_ee (ts_te t))) (ch_spare chain tx) (ts_evm t) (ts_msg t) (ps_gp ps) =
       Ok (Ok (ret, rc_GasUsed receipt, failed), st)"
    "ps_gp ps' = st_gp st" "ps_usedGas ps' = ps_usedGas ps + rc_GasUsed receipt"
    "rc_CumulativeGasUsed receipt = ps_usedGas ps'"
  using assms
  by (auto simp: ApplyTransaction_def makeReceipt_def NewReceipt_def Let_def res_bind_eq_Ok res_map_eq_Ok case_prod_beta)

text \<open>The L1 part of the gas stays below half of the range in every transaction of the block.\<close>

definition calmTx :: "Chain \<Rightarrow> Header \<Rightarrow> Transaction \<Rightarrow> ProcState \<Rightarrow> bool" where
  "calmTx chain header tx ps \<longleftrightarrow>
     (\<forall>t st. startTransaction chain None header tx ps = Ok t \<longrightarrow>
        NewStateTransition (ts_te t) (ts_evm t) (ts_msg t) (ps_gp ps) = Ok st \<longrightarrow> st_l2ExtraGas st < 2 ^ 63)"

fun calmBlock :: "Chain \<Rightarrow> Header \<Rightarrow> hash \<Rightarrow> nat \<Rightarrow> Transaction list \<Rightarrow> ProcState \<Rightarrow> bool" where
  "calmBlock chain header blockHash i [] ps \<longleftrightarrow> True"
| "calmBlock chain header blockHash i (tx # txs) ps \<longleftrightarrow>
     (let ps0 = ps\<lparr>ps_state := Prepare (ch_txHash chain tx) blockHash (of_nat i) (ps_state ps)\<rparr> in
      calmTx chain header tx ps0 \<and>
      (case ApplyTransaction chain None header tx ps0 of
         Ok (_, _, ps') \<Rightarrow> calmBlock chain header blockHash (i + 1) txs ps'
       | _ \<Rightarrow> True))"

definition plainTx :: "Transaction \<Rightarrow> bool" where
  "plainTx tx \<longleftrightarrow> 0 \<le> Price (tx_data tx) \<and> length (Payload (tx_data tx)) < 2 ^ 50 \<and> unat (GasLimit (tx_data tx)) < 2 ^ 63"

definition rollupChain :: "Chain \<Rightarrow> int \<Rightarrow> bool" where
  "rollupChain chain n \<longleftrightarrow>
     twoTokens (te_env (ch_te chain n)) (te_db (ch_te chain n)) \<and> (\<forall>ee. runnerOk ee (ch_run chain ee)) \<and>
     IsFeeTokenUpdate (ChainID (ch_te chain n)) (Some n)"

lemma ApplyTransaction_pool:
  assumes "ApplyTransaction chain None header tx ps = Ok (receipt, tx', ps')" and "rollupChain chain (hd_Number header)"
    and "plainTx tx" and "calmTx chain header tx ps"
  shows "unat (ps_gp ps') + unat (rc_GasUsed receipt) = unat (ps_gp ps)"
proof -
  obtain t ret failed st where t: "startTransaction chain None header tx ps = Ok t"
    "ApplyMessage (ts_te t) (ch_run chain (te_ee (ts_te t))) (ch_spare chain tx) (ts_evm t) (ts_msg t) (ps_gp ps) =
       Ok (Ok (ret, rc_GasUsed receipt, failed), st)" "ps_gp ps' = st_gp st"
    by (rule ApplyTransaction_Ok [OF assms(1)])
  note f = startTransaction_Ok [OF t(1)]
  show ?thesis
    unfolding t(3)
    by (rule ApplyMessage_pool [OF t(2)])
      (use assms(2-4) t(1) in \<open>auto simp: f rollupChain_def plainTx_def calmTx_def\<close>)
qed

lemma processTxs_gas:
  assumes "processTxs chain header bh i txs ps = Ok (receipts, logs, ps')" and "rollupChain chain (hd_Number header)"
    and "\<forall>tx \<in> set txs. plainTx tx" and "calmBlock chain header bh i txs ps"
    and "unat (ps_gp ps) + unat (ps_usedGas ps) < 2 ^ 64"
  shows "length receipts = length txs \<and> unat (ps_gp ps') + unat (ps_usedGas ps') = unat (ps_gp ps) + unat (ps_usedGas ps) \<and>
    unat (ps_usedGas ps') = unat (ps_usedGas ps) + (\<Sum>r\<leftarrow>receipts. unat (rc_GasUsed r)) \<and>
    (\<forall>k < length receipts. unat (rc_CumulativeGasUsed (receipts ! k)) =
       unat (ps_usedGas ps) + (\<Sum>r\<leftarrow>take (Suc k) receipts. unat (rc_GasUsed r)))"
  using assms(1,3-5)
proof (induction txs arbitrary: i ps receipts logs)
  case (Cons tx txs)
  let ?ps0 = "ps\<lparr>ps_state := Prepare (ch_txHash chain tx) bh (of_nat i) (ps_state ps)\<rparr>"
  obtain r tx' ps1 rs ls where a: "ApplyTransaction chain None header tx ?ps0 = Ok (r, tx', ps1)"
    "processTxs chain header bh (i + 1) txs ps1 = Ok (rs, ls, ps')" "receipts = r # rs"
    using Cons.prems(1) by (auto simp: res_bind_eq_Ok res_map_eq_Ok)
  have c: "calmTx chain header tx ?ps0" "calmBlock chain header bh (i + 1) txs ps1"
    using Cons.prems(3) a(1) by (simp_all add: Let_def)
  have p: "unat (ps_gp ps1) + unat (rc_GasUsed r) = unat (ps_gp ps)"
    using ApplyTransaction_pool [OF a(1) assms(2) _ c(1)] Cons.prems(2) by simp
  have u: "ps_usedGas ps1 = ps_usedGas ps + rc_GasUsed r" "rc_CumulativeGasUsed r = ps_usedGas ps1"
    by (rule ApplyTransaction_Ok [OF a(1)], simp)+
  have n: "unat (ps_usedGas ps1) = unat (ps_usedGas ps) + unat (rc_GasUsed r)"
    using p Cons.prems(4) by (simp add: u(1) unat_word_ariths)
  have "length rs = length txs \<and> unat (ps_gp ps') + unat (ps_usedGas ps') = unat (ps_gp ps1) + unat (ps_usedGas ps1) \<and>
    unat (ps_usedGas ps') = unat (ps_usedGas ps1) + (\<Sum>r\<leftarrow>rs. unat (rc_GasUsed r)) \<and>
    (\<forall>k < length rs. unat (rc_CumulativeGasUsed (rs ! k)) =
       unat (ps_usedGas ps1) + (\<Sum>r\<leftarrow>take (Suc k) rs. unat (rc_GasUsed r)))"
    using Cons.IH [OF a(2) _ c(2)] Cons.prems(2,4) p n by simp
  then show ?case using a(3) p n u(2) by (auto simp: nth_Cons' gr0_conv_Suc split: nat.splits)
qed simp

section \<open>A block\<close>

text \<open>A block with one deposit from L1, on a chain with the sample parameters.\<close>

definition sampleChain :: Chain where
  "sampleChain = \<lparr>ch_te = (\<lambda>_. sampleTe), ch_run = (\<lambda>_. succeedingRun), ch_spare = (\<lambda>_. []), ch_IsEWASM = (\<lambda>_. False),
     ch_IsByzantium = (\<lambda>_. True), ch_sender = (\<lambda>_ _. Ok 2), ch_txHash = (\<lambda>_. 5), ch_author = (\<lambda>_. 0),
     ch_intermediateRoot = (\<lambda>s. ([], s))\<rparr>"

definition sampleHeader :: Header where
  "sampleHeader = \<lparr>hd_Number = 1, hd_GasLimit = 1000000, hd_Time = 0, hd_Difficulty = 0\<rparr>"

definition depositTx :: Transaction where
  "depositTx = \<lparr>tx_data = tx_data (NewTransaction 0 7 (Some 0) 100000 (Some 0) []),
     tx_meta = NewTransactionMeta (Some 1) 0 (Some [0]) (Some 1) QueueOriginL1ToL2 None (Some 0) None\<rparr>"

definition noCache :: turingCache where
  "noCache = \<lparr>tc_entries = None, tc_nextClean = 0\<rparr>"

lemma runnerOk_any: "runnerOk ee succeedingRun"
  by (auto simp: runnerOk_def succeedingRun_def intro: exI [of _ "[]"])

lemma slot_Prepare: "slotOf (abst env db (Prepare th bh ti s)) = slotOf (abst env db s)"
  by (simp add: fun_eq_iff slotOf_def abst_def Prepare_def objAt_def xlive_def cong: option.case_cong)

lemma deposit_data: "Price (tx_data depositTx) = 0" "Payload (tx_data depositTx) = []" "GasLimit (tx_data depositTx) = 100000"
  "Recipient (tx_data depositTx) = Some 7" "Amount (tx_data depositTx) = 0"
  by (simp_all add: depositTx_def NewTransaction_def newTransaction_def Let_def)

lemma sampleTe_rules: "IsFeeTokenUpdate (ChainID sampleTe) n" "IsGasUpdate (ChainID sampleTe) n" "UsingOVM sampleEnv"
  by (simp_all add: sampleTe_def IsFeeTokenUpdate_def IsGasUpdate_def sampleEnv_def)

lemma deposit_start:
  assumes "slotOf (abst sampleEnv sampleDb (ps_state ps)) = (\<lambda>_ _. 0)"
  shows "\<exists>t. startTransaction sampleChain None sampleHeader depositTx ps = Ok t \<and> te_ee (ts_te t) = sampleEE \<and>
    ChainID (ts_te t) = ChainID sampleTe \<and> evm_depth (ts_evm t) = 0 \<and>
    slotOf (abst sampleEnv sampleDb (evm_StateDB (ts_evm t))) = (\<lambda>_ _. 0) \<and>
    ts_msg t = \<lparr>msg_to = Some 7, msg_from = 1, msg_nonce = 0, msg_amount = 0, msg_gasLimit = 100000, msg_gasPrice = 0,
      msg_data = [], msg_checkNonce = True, msg_l1Timestamp = 0, msg_l1BlockNumber = Some 1, msg_l1Turing = Some [0],
      msg_queueOrigin = QueueOriginL1ToL2\<rparr>"
proof -
  obtain g s where g: "readGPOStorageSlots sampleEnv sampleDb L2GasPriceOracleAddress (ps_state ps) = (g, s)" by fastforce
  have z: "slotOf (abst sampleEnv sampleDb s) = (\<lambda>_ _. 0)" using readGPO_read(1) [OF g] assms by simp
  obtain sel s1 where f: "GetFeeTokenSelection sampleEnv sampleDb 1 s = (sel, s1)" by fastforce
  have "abst sampleEnv sampleDb s1 = abst sampleEnv sampleDb s"
    using f by (auto simp: GetFeeTokenSelection_def case_prod_beta)
  moreover have "AsMessage True (ch_sender sampleChain 1) depositTx =
      Ok \<lparr>msg_to = Some 7, msg_from = 1, msg_nonce = 0, msg_amount = 0, msg_gasLimit = 100000, msg_gasPrice = 0,
        msg_data = [], msg_checkNonce = True, msg_l1Timestamp = 0, msg_l1BlockNumber = Some 1, msg_l1Turing = Some [0],
        msg_queueOrigin = QueueOriginL1ToL2\<rparr>"
    by (simp add: AsMessage_def depositTx_def NewTransaction_def newTransaction_def NewTransactionMeta_def)
  moreover have "sampleEE\<lparr>Origin := 1, GasPrice := 0, Sequencer := True\<rparr> = sampleEE" by (simp add: sampleEE_def)
  ultimately show ?thesis
    using g f z
    by (simp add: startTransaction_def sampleChain_def sampleHeader_def sample_env sampleTe_rules NewEVMContext_def NewEVM_def
        lenOf_def l1GasInfo_def DeriveL1GasDataInfo_def)
qed

lemma deposit_new:
  assumes "te_ee te = sampleEE" "ChainID te = ChainID sampleTe" "evm_depth evm = 0" "msg_gasPrice msg = 0" "msg_from msg = 1"
    "msg_amount msg = 0" "slotOf (abst sampleEnv sampleDb (evm_StateDB evm)) = (\<lambda>_ _. 0)"
  shows "\<exists>st. NewStateTransition te evm msg gp = Ok st \<and> st_l2ExtraGas st = 0 \<and> \<not> isBobaFeeTokenSelect st \<and>
    st_l1Fee st = Some 0 \<and> evm_depth (st_evm st) = 0 \<and> isFeeTokenUpdate st \<and> isGasUpdate st \<and> st_value st = 0"
proof -
  have "fst (GetFeeTokenSelection sampleEnv sampleDb 1 (evm_StateDB evm)) = 0"
    using assms(7) by (simp add: GetFeeTokenSelection_def case_prod_beta fst_GetState Big_def)
  then show ?thesis
    using assms by (simp add: NewStateTransition_def rollupFees_def Let_def case_prod_beta sample_env sampleTe_rules)
qed

lemma deposit_applied:
  assumes "slotOf (abst sampleEnv sampleDb (ps_state ps)) = (\<lambda>_ _. 0)" and "ps_gp ps = 1000000"
  shows "\<exists>receipt tx' ps'. ApplyTransaction sampleChain None sampleHeader depositTx ps = Ok (receipt, tx', ps')"
    and "calmTx sampleChain sampleHeader depositTx ps"
proof -
  obtain t where t: "startTransaction sampleChain None sampleHeader depositTx ps = Ok t" "te_ee (ts_te t) = sampleEE"
    "ChainID (ts_te t) = ChainID sampleTe" "evm_depth (ts_evm t) = 0"
    "slotOf (abst sampleEnv sampleDb (evm_StateDB (ts_evm t))) = (\<lambda>_ _. 0)"
    and m: "ts_msg t = \<lparr>msg_to = Some 7, msg_from = 1, msg_nonce = 0, msg_amount = 0, msg_gasLimit = 100000, msg_gasPrice = 0,
      msg_data = [], msg_checkNonce = True, msg_l1Timestamp = 0, msg_l1BlockNumber = Some 1, msg_l1Turing = Some [0],
      msg_queueOrigin = QueueOriginL1ToL2\<rparr>" using deposit_start [OF assms(1)] by blast
  obtain st where st: "NewStateTransition (ts_te t) (ts_evm t) (ts_msg t) 1000000 = Ok st" "st_l2ExtraGas st = 0"
    "\<not> isBobaFeeTokenSelect st" "st_l1Fee st = Some 0" "evm_depth (st_evm st) = 0" "isFeeTokenUpdate st" "isGasUpdate st"
    "st_value st = 0"
    using deposit_new [OF t(2-4) _ _ _ t(5), of "ts_msg t" 1000000] by (auto simp: m)
  have "\<exists>due. gasFee (ts_te t) st = Ok due" by (simp add: gasFee_def st Let_def)
  then obtain due where "gasFee (ts_te t) st = Ok due" by blast
  then have "\<exists>st1 st2 st3 used failed st'. preCheck (ts_te t) st = (Ok (), st1) \<and> payIntrinsic (ts_te t) st1 = Ok st2 \<and>
      execMessage (ts_te t) succeedingRun [] st2 = Ok (([], None), st3) \<and>
      slotOf (abst sampleEnv sampleDb (st_state st3)) = slotOf (abst sampleEnv sampleDb (st_state st2)) \<and>
      TransitionDb (ts_te t) succeedingRun [] st = (Ok ([], used, failed), st')"
    by (rule apply_plain [OF st(1) t(2), rotated 5]) (use st in \<open>auto simp: m\<close>)
  then obtain ret used failed st' where
    "ApplyMessage (ts_te t) succeedingRun [] (ts_evm t) (ts_msg t) (ps_gp ps) = Ok (Ok (ret, used, failed), st')"
    using st(1) assms(2) by (auto simp: ApplyMessage_def)
  moreover have "ch_run sampleChain ee = succeedingRun" "ch_spare sampleChain tx = []" for ee tx by (simp_all add: sampleChain_def)
  moreover have "\<exists>b. CreateBloom env logs = Ok b" for env logs using CreateBloom_Ok by blast
  ultimately show "\<exists>receipt tx' ps'. ApplyTransaction sampleChain None sampleHeader depositTx ps = Ok (receipt, tx', ps')"
    using t(1) by (auto simp: ApplyTransaction_def makeReceipt_def Let_def case_prod_beta res_map_eq_Ok)
  show "calmTx sampleChain sampleHeader depositTx ps" using t(1) st(1,2) assms(2) by (simp add: calmTx_def)
qed

section \<open>Properties\<close>

text \<open>
  C15: a block that is processed stays within its gas limit. Every transaction has a receipt, the
  cumulative gas of a receipt is the gas of the transactions so far, their sum is the gas of the block
  and is at most the gas limit, without wrap-around in any counter. The chain is past the fork for the
  fee token, and in every transaction the gas limit and the gas for L1 are below half of the range.
\<close>

theorem Process_gas:
  assumes "Process chain hardFork finalize header blockHash txs s cache world = Ok (receipts, logs, used, s')"
    and "rollupChain chain (hd_Number header)" and "\<forall>tx \<in> set txs. plainTx tx"
    and "calmBlock chain header blockHash 0 txs
      \<lparr>ps_gp = hd_GasLimit header, ps_usedGas = 0, ps_state = hardFork s, ps_cache = cache, ps_world = world\<rparr>"
  shows "length receipts = length txs \<and> used \<le> hd_GasLimit header \<and>
    unat used = (\<Sum>r\<leftarrow>receipts. unat (rc_GasUsed r)) \<and>
    (\<forall>k < length receipts. unat (rc_CumulativeGasUsed (receipts ! k)) =
       (\<Sum>r\<leftarrow>take (Suc k) receipts. unat (rc_GasUsed r)))"
proof -
  let ?ps = "\<lparr>ps_gp = hd_GasLimit header, ps_usedGas = 0, ps_state = hardFork s, ps_cache = cache, ps_world = world\<rparr>"
  obtain ps' where p: "processTxs chain header blockHash 0 txs ?ps = Ok (receipts, logs, ps')" "used = ps_usedGas ps'"
    using assms(1) by (auto simp: Process_def AddGas_def res_bind_eq_Ok res_map_eq_Ok split: if_splits)
  have "unat (ps_gp ?ps) + unat (ps_usedGas ?ps) < 2 ^ 64"
    using unsigned_less [of "hd_GasLimit header", where 'a = nat] by simp
  from processTxs_gas [OF p(1) assms(2-4) this] show ?thesis
    by (auto simp: p(2) word_le_nat_alt)
qed

lemma Process_gas_witness:
  "\<exists>receipts logs used s'. Process sampleChain id id sampleHeader 3 [depositTx] (NewStateDB Map.empty) noCache 0 =
       Ok (receipts, logs, used, s') \<and>
     length receipts = 1 \<and> used \<le> 1000000 \<and> unat used = unat (rc_GasUsed (receipts ! 0)) \<and>
     rc_CumulativeGasUsed (receipts ! 0) = rc_GasUsed (receipts ! 0)"
proof -
  let ?ps = "\<lparr>ps_gp = 1000000, ps_usedGas = 0, ps_state = NewStateDB Map.empty, ps_cache = noCache, ps_world = 0\<rparr>"
  let ?ps0 = "?ps\<lparr>ps_state := Prepare 5 3 0 (NewStateDB Map.empty)\<rparr>"
  have g: "hd_GasLimit sampleHeader = 1000000" "hd_Number sampleHeader = 1" by (simp_all add: sampleHeader_def)
  have h: "ch_txHash sampleChain tx = 5" for tx by (simp add: sampleChain_def)
  have "slotOf (abst sampleEnv sampleDb (Prepare 5 3 0 (NewStateDB Map.empty))) = slotOf (abst sampleEnv sampleDb (NewStateDB Map.empty))"
    by (simp add: slot_Prepare)
  then have z: "slotOf (abst sampleEnv sampleDb (ps_state ?ps0)) = (\<lambda>_ _. 0)" by (simp add: fun_eq_iff)
  obtain r tx' ps' where a: "ApplyTransaction sampleChain None sampleHeader depositTx ?ps0 = Ok (r, tx', ps')"
    using deposit_applied(1) [OF z] by auto
  have c: "calmTx sampleChain sampleHeader depositTx ?ps0" using deposit_applied(2) [OF z] by simp
  have p: "Process sampleChain id id sampleHeader 3 [depositTx] (NewStateDB Map.empty) noCache 0 =
      Ok ([r], rc_Logs r, ps_usedGas ps', ps_state ps')"
    using a by (simp add: Process_def AddGas_def g h)
  have "rollupChain sampleChain (hd_Number sampleHeader)"
    using sample_two by (simp add: rollupChain_def sampleChain_def sample_env sampleTe_rules runnerOk_any)
  moreover have "\<forall>tx \<in> set [depositTx]. plainTx tx" by (simp add: plainTx_def deposit_data)
  moreover have "calmBlock sampleChain sampleHeader 3 0 [depositTx]
      \<lparr>ps_gp = hd_GasLimit sampleHeader, ps_usedGas = 0, ps_state = id (NewStateDB Map.empty), ps_cache = noCache, ps_world = 0\<rparr>"
    using c a by (simp add: g h)
  ultimately have "ps_usedGas ps' \<le> 1000000 \<and> unat (ps_usedGas ps') = unat (rc_GasUsed r) \<and>
      rc_CumulativeGasUsed r = rc_GasUsed r"
    using Process_gas [OF p] by (simp add: g word_unat_eq_iff)
  then show ?thesis using p by auto
qed

end
