(* ===== verification/Spec2Isabelle.thy ===== *)
theory Spec2Isabelle
  imports TxMeta RollupIndexes BssService StateProcessor
begin

text \<open>
  Verification of the Boba rollup node and of the services that post its batches. Paths are below
  \<open>src/\<close>.

  The node (\<open>l2geth\<close>) executes transactions: a block is processed transaction by transaction, a
  transaction becomes a message, its fees are computed from the slots of the gas price oracle and paid in
  ETH or BOBA, and the message is run as a call, which may ask an external server (Turing). Balances of
  both tokens are storage slots of contracts. The batch submitter (\<open>go/batch-submitter\<close>,
  \<open>go/bss-core\<close>) polls the node, packs the transactions of a range of blocks, or their state roots,
  into a transaction for L1, and publishes it with rising gas prices until it is confirmed.

  \<^bold>\<open>Conventions.\<close> \<open>Go_Prelude\<close> has machine integers as words, \<open>big.Int\<close> as \<open>int\<close>, nil as
  \<open>None\<close>, and results of type \<open>res\<close>: a value, an error or a panic. \<open>Go_Float\<close> has the rounding of
  floating-point numbers. Error messages are written without the values the code formats into them. Code outside the repository and the parts listed at the end are arguments of the
  definitions; what is assumed of them is a hypothesis of the theorem.

  \<^bold>\<open>Encodings.\<close>
  \<^item> \<open>VarBytes\<close> (\<open>l2geth/common/varbytes.go\<close>), \<open>TxMeta\<close> (\<open>core/types/transaction_meta.go\<close>) and
    \<open>Hexutil\<close> (\<open>common/hexutil/hexutil.go\<close>): what is written is read back.
  \<^item> \<open>RLP\<close>, \<open>RLP_Raw\<close>, \<open>RLP_Stream\<close> (\<open>l2geth/rlp\<close>): the two-pass encoder equals a recursive
    specification, raw access accepts exactly the canonical encodings. \<open>RLP_Roundtrip\<close> and
    \<open>RLP_Progress\<close>: the stream decoder inverts the encoder for every described type, and its loops end.
  \<^item> \<open>Transaction\<close> (\<open>core/types/transaction.go\<close>): round trip and message of a transaction.
  \<^item> \<open>BatchEncoding\<close> (\<open>drivers/sequencer/encoding.go\<close>): round trip of the calldata.
  \<^item> \<open>Bloom\<close> (\<open>core/types/bloom9.go\<close>): the filter of receipts has no false negatives.
  The locales \<open>prefix_codec\<close> and \<open>canonical_codec\<close> state the contract of a codec.

  \<^bold>\<open>Batch submitter.\<close>
  \<^item> \<open>SequencerBatch\<close> (\<open>batch.go\<close>): the contexts of a batch describe exactly its blocks.
  \<^item> \<open>SequencerDriver\<close>, \<open>ProposerDriver\<close>, \<open>BssDrivers\<close> (the drivers): which range is posted, how a
    batch is cut to size, and when crafting does not end.
  \<^item> \<open>TxManager\<close> (\<open>txmgr.go\<close>): the goroutines of \<open>Send\<close> are a step function on a state; every
    sequence of steps ends in a receipt of a published transaction or an error.
  \<^item> \<open>BssService\<close> (\<open>service.go\<close>): a round of the loop. The locale \<open>batch_driver\<close> is the contract
    of a driver, interpreted for the sequencer and the proposer.
  \<^item> \<open>RollupIndexes\<close> (\<open>core/rawdb/rollup_indexes.go\<close>): four stores in one database that do not
    disturb each other, over the locale \<open>index_store\<close>.

  \<^bold>\<open>State and execution.\<close>
  \<^item> \<open>AccessList\<close>, \<open>StateDB\<close> (\<open>core/state\<close>): objects with caches, and the journal.
    \<open>StateDB_Revert\<close>: \<open>abst\<close> forgets the caches; reverting to a snapshot restores it.
    \<open>StateDB_Balance\<close>: ETH and BOBA as instances of the locale \<open>ledger\<close>.
  \<^item> \<open>Fees\<close> (\<open>rollup/fees/rollup_fee.go\<close>): L1 fees from the oracle, bounds of the rounding.
  \<^item> \<open>EvmCall\<close> (\<open>core/vm/evm.go\<close>): calls, creation and Turing. A call that fails restores the state
    (with stated exceptions) and a replica that replays a recorded answer gets the sequencer's result. The
    endpoint, random numbers and the clock answer every request anew, by the number of requests so far.
  \<^item> \<open>StateTransition\<close> (\<open>core/state_transition.go\<close>) and \<open>StateTransition_Fees\<close>: a message from
    \<open>preCheck\<close> to the payment of fees; what happens to the supply of both tokens and to the gas pool.
  \<^item> \<open>StateProcessor\<close> (\<open>core/state_processor.go\<close>): transactions, receipts and blocks; the gas of a
    block stays within its limit.

  \<^bold>\<open>Loops.\<close> There is no fuel. Loops that end are total functions (\<open>readTxs\<close>, \<open>CountValues\<close>,
  \<open>searchLoop\<close> by measures). \<open>pruneBatch\<close> and \<open>WaitMined\<close>, which may run forever, are partial
  functions with \<open>None\<close> for divergence, with theorems on when they return. Numeric bounds in hypotheses
  (lengths below \<open>2 ^ 63\<close> or \<open>2 ^ 50\<close>, gas below \<open>2 ^ 63\<close>) are those of slices and of real limits.

  \<^bold>\<open>Not modelled.\<close> The instruction interpreter and precompiled contracts (parameter \<open>runner\<close> with
  hypothesis \<open>runnerOk\<close>), Merkle tries and hashes, signatures, the transaction pool, the chain database,
  the miner and consensus engines, the synchronisation with the data transport layer, networking, RPC,
  accounts, commands, logging and metrics, generated bindings, the gas oracle service, the proxy, the
  exporter, and the contracts and services in Solidity and TypeScript.
\<close>

section \<open>From blocks to calldata and back\<close>

text \<open>
  C1: What the sequencer posts can be replayed. If the driver crafts a batch transaction for a
  range of blocks, its calldata is within the configured size, and whoever decodes the calldata
  and replays the contexts against the transactions gets exactly the first \<open>n\<close> blocks of the range:
  every block's timestamp, and for sequencer transactions the L1 block number and the transaction.
\<close>

theorem posted_batch_replays:
  assumes "CraftBatchTx cfg blockByNumber compress methodID newTransactor rawTransact start stop nonce =
      Some (Ok tx, totalSize)"
    and "chain_ok blockByNumber" and "unat (MaxTxSize cfg) < 2 ^ 63" and "stop - start < 2 ^ 63"
    and "\<And>x. decompress (compress x) = x"
  shows "\<exists>n els opts args p. n \<le> nat (stop - start) \<and> blockElements blockByNumber n start = Some els \<and>
    rawTransact opts (methodID @ args) = Ok tx \<and> of_nat (length (methodID @ args)) \<le> MaxTxSize cfg \<and>
    Batch_Read decompress emptyBatch args = Ok p \<and>
    ShouldStartAtElement p = of_int \<bar>start\<bar> - BlockOffset cfg \<and>
    unat (TotalElementsToAppend p) = n \<and> expand (Contexts p) (Txs p) = map postedView els"
proof -
  from CraftBatchTx_Ok [OF assms(1-3)] obtain n els opts args where
    c: "n \<le> nat (stop - start)" "blockElements blockByNumber n start = Some els"
    "batchArgs compress cfg (of_int \<bar>start\<bar>) els = Ok args" "rawTransact opts (methodID @ args) = Ok tx"
    "of_nat (length (methodID @ args)) \<le> MaxTxSize cfg" .
  have n: "length els = n" by (rule length_blockElements [OF c(2)])
  have "nat (stop - start) < 2 ^ 63" using assms(4) by (simp add: nat_less_iff)
  with n c(1) have "length els < 2 ^ 63" by linarith
  from batchArgs_read [OF c(3) this blockElements_ok [OF assms(2) c(2)] assms(5)] obtain p where
    "Batch_Read decompress emptyBatch args = Ok p" "ShouldStartAtElement p = of_int \<bar>start\<bar> - BlockOffset cfg"
    "unat (TotalElementsToAppend p) = length els" "expand (Contexts p) (Txs p) = map postedView els" by blast
  with c n show ?thesis by (intro exI conjI) (assumption | simp only:)+
qed

theorem posted_batch_replays_witness:
  "\<exists>args sz p n els. CraftBatchTx witnessCfg (\<lambda>i. Ok witnessBlock) id [1, 2, 3, 4] (Ok witnessOpts)
      (\<lambda>opts b. Ok b) 1 2 0 = Some (Ok ([1, 2, 3, 4] @ args), sz) \<and>
    Batch_Read id emptyBatch args = Ok p \<and> blockElements (\<lambda>i. Ok witnessBlock) n 1 = Some els \<and>
    expand (Contexts p) (Txs p) = map postedView els"
proof -
  obtain args sz where c: "CraftBatchTx witnessCfg (\<lambda>i. Ok witnessBlock) id [1, 2, 3, 4] (Ok witnessOpts)
      (\<lambda>opts b. Ok b) 1 2 0 = Some (Ok ([1, 2, 3, 4] @ args), sz)"
    using CraftBatchTx_witness by blast
  have "unat (MaxTxSize witnessCfg) < 2 ^ 63" by (simp add: witnessCfg_def)
  with posted_batch_replays [OF c chain_ok_witness, of id] show ?thesis using c by auto
qed

end
